(* ===== verification/Prelude.thy ===== *)
theory Prelude
  imports Main "HOL-Library.Word" "HOL-Library.AList" "HOL-Library.Multiset" "HOL-Library.Sublist"
begin

text \<open>
  Shared vocabulary of the development: bytes and strings, the three ways a Go call can end
  (it returns, it returns an error, it panics), the pieces of Go's \<open>strings\<close> and \<open>fmt\<close>
  packages the program uses (\<open>strings.Join\<close>, \<open>strings.Split\<close>, the verb \<open>%d\<close>), and the
  iteration order of Go maps.  A Go string is a byte sequence and is a \<open>string\<close> here, one
  \<open>char\<close> per byte.
\<close>

section \<open>Automation\<close>

named_theorems go_defs \<open>definitions of straight-line operations, unfolded by the component proofs\<close>
named_theorems wire_simps \<open>how each wire routine acts on readers and writers\<close>

section \<open>Bytes, strings, outcomes\<close>

type_synonym byte = "8 word"
type_synonym bytes = "byte list"

text \<open>\<open>[]byte(s)\<close> and \<open>string(buf)\<close>.\<close>

definition byte_of_char :: "char \<Rightarrow> byte" where
  "byte_of_char c = word_of_nat (of_char c)"

definition char_of_byte :: "byte \<Rightarrow> char" where
  "char_of_byte b = char_of (unat b)"

definition to_bytes :: "string \<Rightarrow> bytes" where
  "to_bytes s = map byte_of_char s"

definition of_bytes :: "bytes \<Rightarrow> string" where
  "of_bytes bs = map char_of_byte bs"

lemma char_of_byte_of_char [simp]: "char_of_byte (byte_of_char c) = c"
proof -
  have "(of_char c :: nat) < 256" by simp
  then have "unat (word_of_nat (of_char c) :: byte) = of_char c"
    by (simp add: unat_of_nat)
  then show ?thesis by (simp add: char_of_byte_def byte_of_char_def)
qed

lemma byte_of_char_of_byte [simp]: "byte_of_char (char_of_byte b) = b"
proof -
  have "unat b < 256" using unsigned_less [of b] by simp
  then have "(of_char (char_of (unat b)) :: nat) = unat b"
    by (simp add: of_char_of)
  then show ?thesis by (simp add: char_of_byte_def byte_of_char_def)
qed

lemma of_bytes_to_bytes [simp]: "of_bytes (to_bytes s) = s"
  by (simp add: of_bytes_def to_bytes_def comp_def)

lemma to_bytes_of_bytes [simp]: "to_bytes (of_bytes bs) = bs"
  by (simp add: of_bytes_def to_bytes_def comp_def)

lemma length_to_bytes [simp]: "length (to_bytes s) = length s"
  by (simp add: to_bytes_def)

lemma length_of_bytes [simp]: "length (of_bytes bs) = length bs"
  by (simp add: of_bytes_def)

text \<open>
  The error values the program creates, returns and compares: \<open>ErrMsg\<close> for
  \<open>errors.New\<close> and \<open>fmt.Errorf\<close>, the sentinels it compares by identity, and the errors that
  come from the network or from a library.
\<close>

datatype error =
    ErrMsg string
  | ErrEOF
  | ErrUnexpectedEOF
  | ErrIO string
  | ErrSessionNil
  | ErrRedisNil
  | ErrExt string

fun err_text :: "error \<Rightarrow> string" where
  "err_text (ErrMsg s) = s"
| "err_text ErrEOF = ''EOF''"
| "err_text ErrUnexpectedEOF = ''unexpected EOF''"
| "err_text (ErrIO s) = s"
| "err_text ErrSessionNil = ''err:session nil''"
| "err_text ErrRedisNil = ''redis: nil''"
| "err_text (ErrExt s) = s"

text \<open>How a call ends: with a value, with a non-nil error, or in a panic.\<close>

datatype 'a go = Ret 'a | Fail error | Panics string

fun is_ret :: "'a go \<Rightarrow> bool" where
  "is_ret (Ret _) = True"
| "is_ret (Fail _) = False"
| "is_ret (Panics _) = False"

fun is_panic :: "'a go \<Rightarrow> bool" where
  "is_panic (Panics _) = True"
| "is_panic (Ret _) = False"
| "is_panic (Fail _) = False"

text \<open>
  Sequencing of two calls on a state: the second runs only when the first returned, as after
  \<open>if err != nil { return err }\<close>; a panic ends both.
\<close>

fun go_bind :: "'a go \<times> 's \<Rightarrow> ('a \<Rightarrow> 's \<Rightarrow> 'b go \<times> 's) \<Rightarrow> 'b go \<times> 's" where
  "go_bind (Ret x, s) f = f x s"
| "go_bind (Fail e, s) f = (Fail e, s)"
| "go_bind (Panics m, s) f = (Panics m, s)"

lemma go_bind_Ret_iff:
  "go_bind m f = (Ret y, t) \<longleftrightarrow> (\<exists>x s. m = (Ret x, s) \<and> f x s = (Ret y, t))"
  by (cases "(m, f)" rule: go_bind.cases) auto

lemma go_bind_Panics_iff:
  "go_bind m f = (Panics p, t) \<longleftrightarrow> m = (Panics p, t) \<or> (\<exists>x s. m = (Ret x, s) \<and> f x s = (Panics p, t))"
  by (cases "(m, f)" rule: go_bind.cases) auto

lemma go_bind_assoc: "go_bind (go_bind m f) g = go_bind m (\<lambda>x s. go_bind (f x s) g)"
  by (cases "(m, f)" rule: go_bind.cases) auto

lemma go_bind_unit [simp]: "go_bind (m :: unit go \<times> 's) (\<lambda>_ s. (Ret (), s)) = m"
  by (cases "(m, \<lambda>_ :: unit. \<lambda>s. (Ret (), s) :: unit go \<times> 's)" rule: go_bind.cases) auto

lemma go_bind_Fail_iff:
  "go_bind m f = (Fail e, t) \<longleftrightarrow> m = (Fail e, t) \<or> (\<exists>x s. m = (Ret x, s) \<and> f x s = (Fail e, t))"
  by (cases "(m, f)" rule: go_bind.cases) auto

section \<open>strings.Join and strings.Split\<close>

fun go_join :: "string \<Rightarrow> string list \<Rightarrow> string" where
  "go_join sep [] = []"
| "go_join sep [x] = x"
| "go_join sep (x # y # ys) = x @ sep @ go_join sep (y # ys)"

text \<open>\<open>strings.Split(s, sep)\<close> for a separator of one byte; never the empty list.\<close>

fun go_split :: "char \<Rightarrow> string \<Rightarrow> string list" where
  "go_split c [] = [[]]"
| "go_split c (x # xs) =
     (if x = c then [] # go_split c xs
      else (case go_split c xs of [] \<Rightarrow> [[x]] | y # ys \<Rightarrow> (x # y) # ys))"

lemma go_split_not_Nil [simp]: "go_split c s \<noteq> []"
  by (cases s) (auto split: list.splits)

lemma go_split_no_sep: "c \<notin> set s \<Longrightarrow> go_split c s = [s]"
  by (induction s) auto

lemma go_split_append:
  "c \<notin> set x \<Longrightarrow> go_split c (x @ c # s) = x # go_split c s"
  by (induction x) auto

lemma go_split_join:
  assumes "xs \<noteq> []" and "\<forall>x \<in> set xs. c \<notin> set x"
  shows "go_split c (go_join [c] xs) = xs"
  using assms
proof (induction "[c]" xs rule: go_join.induct)
  case (3 x y ys)
  then show ?case by (simp add: go_split_append)
qed (simp_all add: go_split_no_sep)

lemma go_join_Cons: "ys \<noteq> [] \<Longrightarrow> go_join sep (x # ys) = x @ sep @ go_join sep ys"
  by (cases ys) auto

lemma go_join_split: "go_join [c] (go_split c s) = s"
proof (induction s)
  case (Cons x xs)
  obtain y ys where "go_split c xs = y # ys" by (cases "go_split c xs") auto
  with Cons show ?case by (cases ys) (auto simp: go_join_Cons)
qed simp

lemma go_split_pieces: "x \<in> set (go_split c s) \<Longrightarrow> c \<notin> set x"
proof (induction s arbitrary: x)
  case (Cons y s)
  obtain z zs where "go_split c s = z # zs" by (cases "go_split c s") auto
  with Cons show ?case by (auto split: if_splits)
qed simp

section \<open>The verb %d\<close>

definition digit_char :: "nat \<Rightarrow> char" where
  "digit_char d = char_of (48 + d)"

definition is_digit_char :: "char \<Rightarrow> bool" where
  "is_digit_char c \<longleftrightarrow> 48 \<le> (of_char c :: nat) \<and> (of_char c :: nat) \<le> 57"

fun show_nat :: "nat \<Rightarrow> string" where
  "show_nat n = (if n < 10 then [digit_char n] else show_nat (n div 10) @ [digit_char (n mod 10)])"

declare show_nat.simps [simp del]

definition show_int :: "int \<Rightarrow> string" where
  "show_int i = (if i < 0 then CHR ''-'' # show_nat (nat (- i)) else show_nat (nat i))"

lemma digit_char_inj: "a < 10 \<Longrightarrow> b < 10 \<Longrightarrow> digit_char a = digit_char b \<Longrightarrow> a = b"
proof -
  assume "a < 10" "b < 10" "digit_char a = digit_char b"
  then have "(of_char (char_of (48 + a)) :: nat) = of_char (char_of (48 + b))"
    by (simp add: digit_char_def)
  with \<open>a < 10\<close> \<open>b < 10\<close> show "a = b" by (simp add: of_char_of)
qed

lemma digit_char_is_digit: "d < 10 \<Longrightarrow> is_digit_char (digit_char d)"
  by (simp add: digit_char_def is_digit_char_def of_char_of)

lemma show_nat_not_Nil [simp]: "show_nat n \<noteq> []"
  by (subst show_nat.simps) simp

lemma show_nat_digits: "c \<in> set (show_nat n) \<Longrightarrow> is_digit_char c"
proof (induction n arbitrary: c rule: show_nat.induct)
  case (1 n)
  show ?case
  proof (cases "n < 10")
    case True
    with "1.prems" show ?thesis by (simp add: show_nat.simps [of n] digit_char_is_digit)
  next
    case False
    with "1.prems" "1.IH" show ?thesis
      by (auto simp: show_nat.simps [of n] digit_char_is_digit)
  qed
qed

lemma show_nat_inj: "show_nat m = show_nat n \<Longrightarrow> m = n"
proof (induction m arbitrary: n rule: show_nat.induct)
  case (1 m)
  have eq: "show_nat m = show_nat n" by (rule "1.prems")
  show ?case
  proof (cases "m < 10")
    case True
    then have m: "show_nat m = [digit_char m]" by (simp add: show_nat.simps [of m])
    have "n < 10"
    proof (rule ccontr)
      assume "\<not> n < 10"
      then have "show_nat n = show_nat (n div 10) @ [digit_char (n mod 10)]"
        by (simp add: show_nat.simps [of n])
      with eq m have "show_nat (n div 10) = []" by simp
      then show False by simp
    qed
    with eq m True show ?thesis by (simp add: show_nat.simps [of n] digit_char_inj)
  next
    case False
    then have m: "show_nat m = show_nat (m div 10) @ [digit_char (m mod 10)]"
      by (simp add: show_nat.simps [of m])
    have n10: "\<not> n < 10"
    proof
      assume "n < 10"
      then have "show_nat n = [digit_char n]" by (simp add: show_nat.simps [of n])
      with eq m have "show_nat (m div 10) = []" by simp
      then show False by simp
    qed
    then have "show_nat n = show_nat (n div 10) @ [digit_char (n mod 10)]"
      by (simp add: show_nat.simps [of n])
    with eq m have "show_nat (m div 10) = show_nat (n div 10)"
      and d: "digit_char (m mod 10) = digit_char (n mod 10)" by simp_all
    from "1.IH" [OF False this(1)] have "m div 10 = n div 10" .
    moreover have "m mod 10 = n mod 10" using d by (intro digit_char_inj) simp_all
    ultimately show ?thesis by (metis div_mult_mod_eq)
  qed
qed

section \<open>Iteration order of maps\<close>

text \<open>
  Go does not fix the order in which \<open>range\<close> over a map or \<open>sync.Map.Range\<close> visits the
  entries.  Definitions that iterate take the order as an argument: a function that permutes the
  entries it is given.
\<close>

definition is_order :: "('a list \<Rightarrow> 'a list) \<Rightarrow> bool" where
  "is_order \<pi> \<longleftrightarrow> (\<forall>xs. mset (\<pi> xs) = mset xs)"

lemma is_order_id [simp, intro]: "is_order (\<lambda>xs. xs)"
  by (simp add: is_order_def)

lemma is_order_rev [simp, intro]: "is_order rev"
  by (simp add: is_order_def)

lemma is_order_set: "is_order \<pi> \<Longrightarrow> set (\<pi> xs) = set xs"
  by (metis is_order_def mset_eq_setD)

lemma is_order_length: "is_order \<pi> \<Longrightarrow> length (\<pi> xs) = length xs"
  by (metis is_order_def mset_eq_length)

lemma is_order_distinct: "is_order \<pi> \<Longrightarrow> distinct (\<pi> xs) = distinct xs"
  by (metis is_order_def mset_eq_imp_distinct_iff)

lemma is_order_Nil [simp]: "is_order \<pi> \<Longrightarrow> \<pi> [] = []"
  using is_order_length [of \<pi> "[]"] by simp

lemma is_order_mset_map: "is_order \<pi> \<Longrightarrow> mset (map f (\<pi> xs)) = mset (map f xs)"
  by (simp add: is_order_def)

end
