(* ===== verification/GoIO.thy ===== *)
theory GoIO
  imports Prelude
begin

text \<open>
  Go's \<open>io.Reader\<close> and \<open>io.Writer\<close> as the wire code uses them.  A reader is the bytes still to
  come and the error reported once they are used up (\<open>io.EOF\<close> for a closed peer, another error
  for an expired deadline or a reset).  A writer is the bytes accepted so far and, when the
  connection will break, the number of bytes it still accepts.  The locale \<open>codec\<close> is the
  contract between an encoder and a decoder of the wire format; every routine of
  \<open>wire/endian\<close> and the frame layer of \<open>tcp\<close> is an interpretation of it.
\<close>

section \<open>Readers\<close>

record reader =
  avail :: bytes
  rerr :: error

text \<open>
  \<open>io.ReadFull(r, buf)\<close> with \<open>len(buf) = n\<close>: no read at all for an empty buffer; when the data
  runs out, \<open>io.EOF\<close> becomes \<open>io.ErrUnexpectedEOF\<close> if some bytes had been read, and every
  other error is passed on.
\<close>

definition read_full :: "nat \<Rightarrow> reader \<Rightarrow> bytes go \<times> reader" where
  "read_full n r =
     (if n \<le> length (avail r)
      then (Ret (take n (avail r)), r\<lparr>avail := drop n (avail r)\<rparr>)
      else (Fail (if avail r \<noteq> [] \<and> rerr r = ErrEOF then ErrUnexpectedEOF else rerr r),
            r\<lparr>avail := []\<rparr>))"

lemma read_full_append [wire_simps]:
  "avail r = bs @ rest \<Longrightarrow> length bs = n \<Longrightarrow> read_full n r = (Ret bs, r\<lparr>avail := rest\<rparr>)"
  by (simp add: read_full_def)

lemma read_full_Ret:
  "read_full n r = (Ret bs, r') \<Longrightarrow> length bs = n \<and> avail r = bs @ avail r' \<and> r' = r\<lparr>avail := avail r'\<rparr>"
  by (auto simp: read_full_def split: if_splits)

lemma read_full_no_panic [simp]: "read_full n r \<noteq> (Panics m, r')"
  by (simp add: read_full_def)

lemma read_full_Fail:
  "read_full n r = (Fail e, r') \<Longrightarrow>
     rerr r' = rerr r \<and> avail r' = [] \<and> (e = rerr r \<or> rerr r = ErrEOF \<and> e = ErrUnexpectedEOF)"
  by (auto simp: read_full_def split: if_splits)

section \<open>Writers\<close>

record writer =
  written :: bytes
  room :: "nat option"

text \<open>A \<open>bytes.Buffer\<close> or a healthy connection: never refuses a byte.\<close>

definition buffer :: writer where
  "buffer = \<lparr>written = [], room = None\<rparr>"

definition io_write :: "bytes \<Rightarrow> writer \<Rightarrow> unit go \<times> writer" where
  "io_write p w = (case room w of
       None \<Rightarrow> (Ret (), w\<lparr>written := written w @ p\<rparr>)
     | Some k \<Rightarrow>
         if length p \<le> k
         then (Ret (), w\<lparr>written := written w @ p, room := Some (k - length p)\<rparr>)
         else (Fail (ErrIO ''write''), w\<lparr>written := written w @ take k p, room := Some 0\<rparr>))"

lemma io_write_None: "room w = None \<Longrightarrow> io_write p w = (Ret (), w\<lparr>written := written w @ p\<rparr>)"
  by (simp add: io_write_def)

lemma io_write_no_panic [simp]: "io_write p w \<noteq> (Panics m, w')"
  by (simp add: io_write_def split: option.splits)

text \<open>
  Two writes one after the other, the second only if the first succeeded, leave the same bytes
  and report the same result as one write of both.
\<close>

lemma io_write_write [wire_simps]:
  "go_bind (io_write p w) (\<lambda>_ w'. io_write q w') = io_write (p @ q) w"
proof (cases "room w")
  case None
  then show ?thesis by (simp add: io_write_def)
next
  case (Some k)
  consider "length p + length q \<le> k" | "length p \<le> k" "k < length p + length q" | "k < length p"
    by linarith
  then show ?thesis
    using Some by cases (auto simp: io_write_def)
qed

text \<open>Everything a failed write leaves behind is a prefix of what it was asked to write.\<close>

lemma io_write_prefix:
  "\<exists>pre. written (snd (io_write p w)) = written w @ pre \<and> prefix pre p
     \<and> (is_ret (fst (io_write p w)) \<longleftrightarrow> pre = p)"
proof (cases "room w")
  case None
  then show ?thesis by (auto simp: io_write_def)
next
  case (Some k)
  then show ?thesis
    by (cases "length p \<le> k") (auto simp: io_write_def take_is_prefix)
qed

section \<open>The contract of an encoder and a decoder\<close>

locale codec =
  fixes put :: "'a \<Rightarrow> bytes"
    and get :: "reader \<Rightarrow> 'a go \<times> reader"
    and ok :: "'a \<Rightarrow> bool"
  assumes get_put: "ok x \<Longrightarrow> avail r = put x @ rest \<Longrightarrow> get r = (Ret x, r\<lparr>avail := rest\<rparr>)"
    and get_Ret: "get r = (Ret x, r') \<Longrightarrow> ok x \<and> avail r = put x @ avail r' \<and> r' = r\<lparr>avail := avail r'\<rparr>"
    and get_no_panic: "get r \<noteq> (Panics m, r')"
begin

lemma get_iff:
  assumes "ok x"
  shows "get r = (Ret x, r') \<longleftrightarrow> avail r = put x @ avail r' \<and> r' = r\<lparr>avail := avail r'\<rparr>"
proof
  assume "get r = (Ret x, r')"
  then show "avail r = put x @ avail r' \<and> r' = r\<lparr>avail := avail r'\<rparr>" by (simp add: get_Ret)
next
  assume "avail r = put x @ avail r' \<and> r' = r\<lparr>avail := avail r'\<rparr>"
  then show "get r = (Ret x, r')" using get_put [OF assms] by metis
qed

lemma put_prefix_free:
  assumes "ok x" "ok y" "put x @ a = put y @ b"
  shows "x = y \<and> a = b"
proof -
  let ?r = "\<lparr>avail = put x @ a, rerr = ErrEOF\<rparr>"
  have "get ?r = (Ret x, ?r\<lparr>avail := a\<rparr>)" using assms(1) by (rule get_put) simp
  moreover have "get ?r = (Ret y, ?r\<lparr>avail := b\<rparr>)" using assms(2) by (rule get_put) (simp add: assms(3))
  ultimately show ?thesis by simp
qed

lemma put_inj: "ok x \<Longrightarrow> ok y \<Longrightarrow> put x = put y \<Longrightarrow> x = y"
  using put_prefix_free [of x y "[]" "[]"] by simp

lemma get_cases:
  obtains x r' where "get r = (Ret x, r')" "ok x" "avail r = put x @ avail r'"
        "r' = r\<lparr>avail := avail r'\<rparr>"
  | e r' where "get r = (Fail e, r')"
proof (cases "fst (get r)")
  case (Ret x)
  then show ?thesis using that(1) [of x "snd (get r)"] get_Ret by (metis prod.collapse)
next
  case (Fail e)
  then show ?thesis using that(2) by (metis prod.collapse)
next
  case (Panics m)
  then show ?thesis using get_no_panic by (metis prod.collapse)
qed

end

text \<open>
  Reading a run of values, one after the other, and the refined contract of a stream of them.
\<close>

fun get_n :: "(reader \<Rightarrow> 'a go \<times> reader) \<Rightarrow> nat \<Rightarrow> reader \<Rightarrow> 'a list go \<times> reader" where
  "get_n get 0 r = (Ret [], r)"
| "get_n get (Suc n) r =
     go_bind (get r) (\<lambda>x r1. go_bind (get_n get n r1) (\<lambda>xs r2. (Ret (x # xs), r2)))"

context codec begin

lemma get_n_put:
  "\<forall>x \<in> set xs. ok x \<Longrightarrow> avail r = concat (map put xs) @ rest \<Longrightarrow>
     get_n get (length xs) r = (Ret xs, r\<lparr>avail := rest\<rparr>)"
proof (induction xs arbitrary: r)
  case Nil
  then show ?case by simp
next
  case (Cons x xs)
  then have "get r = (Ret x, r\<lparr>avail := concat (map put xs) @ rest\<rparr>)"
    by (intro get_put) simp_all
  with Cons show ?case by simp
qed

lemma get_n_Ret:
  "get_n get n r = (Ret xs, r') \<Longrightarrow>
     length xs = n \<and> (\<forall>x \<in> set xs. ok x) \<and> avail r = concat (map put xs) @ avail r'"
proof (induction n arbitrary: r xs)
  case 0
  then show ?case by simp
next
  case (Suc n)
  then obtain x r1 ys where "get r = (Ret x, r1)" "get_n get n r1 = (Ret ys, r')" "xs = x # ys"
    by (auto simp: go_bind_Ret_iff)
  with Suc.IH [of r1 ys] get_Ret [of r x r1] show ?case by auto
qed

end

text \<open>
  A decoder that first reads one value and then, with what it read, another.  Both halves being
  codecs, so is the sequence.
\<close>

definition get_pair ::
    "(reader \<Rightarrow> 'a go \<times> reader) \<Rightarrow> (reader \<Rightarrow> 'b go \<times> reader) \<Rightarrow> reader \<Rightarrow> ('a \<times> 'b) go \<times> reader" where
  "get_pair g h r = go_bind (g r) (\<lambda>x r1. go_bind (h r1) (\<lambda>y r2. (Ret (x, y), r2)))"

lemma codec_pair:
  assumes "codec p g okp" and "codec q h okq"
  shows "codec (\<lambda>(x, y). p x @ q y) (get_pair g h) (\<lambda>(x, y). okp x \<and> okq y)"
proof
  fix xy :: "'a \<times> 'b" and r :: reader and rest
  assume ok: "(\<lambda>(x, y). okp x \<and> okq y) xy" and av: "avail r = (\<lambda>(x, y). p x @ q y) xy @ rest"
  obtain x y where xy: "xy = (x, y)" by (cases xy)
  have "g r = (Ret x, r\<lparr>avail := q y @ rest\<rparr>)"
    using ok av by (intro codec.get_put [OF assms(1)]) (simp_all add: xy)
  moreover have "h (r\<lparr>avail := q y @ rest\<rparr>) = (Ret y, r\<lparr>avail := rest\<rparr>)"
    using ok codec.get_put [OF assms(2), of y "r\<lparr>avail := q y @ rest\<rparr>" rest] by (simp add: xy)
  ultimately show "get_pair g h r = (Ret xy, r\<lparr>avail := rest\<rparr>)"
    by (simp add: get_pair_def xy)
next
  fix r :: reader and xy r'
  assume "get_pair g h r = (Ret xy, r')"
  then obtain x y r1 where g: "g r = (Ret x, r1)" and h: "h r1 = (Ret y, r')" and xy: "xy = (x, y)"
    by (auto simp: get_pair_def go_bind_Ret_iff)
  from codec.get_Ret [OF assms(1) g] codec.get_Ret [OF assms(2) h]
  show "(\<lambda>(x, y). okp x \<and> okq y) xy \<and> avail r = (\<lambda>(x, y). p x @ q y) xy @ avail r'
      \<and> r' = r\<lparr>avail := avail r'\<rparr>"
    by (auto simp: xy)
next
  fix r :: reader and m r'
  show "get_pair g h r \<noteq> (Panics m, r')"
    using codec.get_no_panic [OF assms(1)] codec.get_no_panic [OF assms(2)]
    by (auto simp: get_pair_def go_bind_Panics_iff)
qed

end
