(* ===== verification/Endian.thy ===== *)
theory Endian
  imports GoIO
begin

unbundle bit_operations_syntax

text \<open>
  \<open>wire/endian/helper.go\<close>: fixed-width integers in little-endian byte order, byte strings with a
  32-bit or a 16-bit length prefix.  One definition per Go function; readers and writers are
  those of \<open>GoIO\<close>.
\<close>

section \<open>binary.LittleEndian\<close>

text \<open>
  \<open>Default.PutUintN(buf, v)\<close> on a buffer of \<open>n\<close> bytes, and \<open>Default.UintN(buf)\<close>.
\<close>

definition le_put :: "nat \<Rightarrow> 'a::len word \<Rightarrow> bytes" where
  "le_put n v = map (\<lambda>i. ucast (drop_bit (8 * i) v)) [0..<n]"

fun le_get :: "bytes \<Rightarrow> 'a::len word" where
  "le_get [] = 0"
| "le_get (b # bs) = ucast b OR push_bit 8 (le_get bs)"

lemma length_le_put [simp]: "length (le_put n v) = n"
  by (simp add: le_put_def)

lemma le_put_2: "le_put 2 v = [ucast v, ucast (drop_bit 8 v)]"
  by (simp add: le_put_def upt_rec)

lemma le_put_4:
  "le_put 4 v = [ucast v, ucast (drop_bit 8 v), ucast (drop_bit 16 v), ucast (drop_bit 24 v)]"
  by (simp add: le_put_def upt_rec)

lemma le_put_4_unat:
  "le_put 4 (v :: 32 word) =
     [word_of_nat (unat v), word_of_nat (unat v div 256), word_of_nat (unat v div 65536),
      word_of_nat (unat v div 16777216)]"
proof -
  have "ucast (drop_bit k v) = (word_of_nat (unat v div 2 ^ k) :: byte)" if "k < 32" for k
  proof -
    have "unat (drop_bit k v) = unat v div 2 ^ k"
      by (simp only: unat_drop_bit_eq) (simp add: drop_bit_eq_div)
    then show ?thesis
      by (simp only: word_unat_eq_iff unsigned_ucast_eq unat_of_nat take_bit_eq_mod)
  qed
  from this [of 0] this [of 8] this [of 16] this [of 24] show ?thesis by (simp add: le_put_4)
qed

lemma bit_le_get:
  "bit (le_get bs :: 'a::len word) k \<longleftrightarrow>
     k < LENGTH('a) \<and> k div 8 < length bs \<and> bit (bs ! (k div 8)) (k mod 8)"
proof (induction bs arbitrary: k)
  case Nil
  then show ?case by simp
next
  case (Cons b bs)
  show ?case
  proof (cases "k < 8")
    case True
    then show ?thesis by (auto simp: bit_simps)
  next
    case False
    then have "k div 8 = Suc ((k - 8) div 8)" and "k mod 8 = (k - 8) mod 8"
      by (simp_all add: le_div_geq le_mod_geq)
    moreover have "\<not> bit b k" using False bit_imp_le_length [of b k] by auto
    ultimately show ?thesis using False
      by (auto simp: bit_simps Cons.IH)
  qed
qed

lemma le_get_put:
  assumes "LENGTH('a::len) = 8 * n"
  shows "le_get (le_put n v) = (v :: 'a word)"
proof (rule bit_word_eqI)
  fix k assume "k < LENGTH('a)"
  then have "k div 8 < n" using assms by auto
  then show "bit (le_get (le_put n v) :: 'a word) k = bit v k"
    using \<open>k < LENGTH('a)\<close> by (simp add: bit_le_get le_put_def bit_simps)
qed

lemma le_put_get:
  assumes "LENGTH('a::len) = 8 * n" and "length bs = n"
  shows "le_put n (le_get bs :: 'a word) = bs"
proof (rule nth_equalityI)
  show "length (le_put n (le_get bs :: 'a word)) = length bs" using assms by simp
next
  fix i assume "i < length (le_put n (le_get bs :: 'a word))"
  then have i: "i < n" by simp
  show "le_put n (le_get bs :: 'a word) ! i = bs ! i"
  proof (rule bit_word_eqI)
    fix k assume "k < LENGTH(8)"
    then have k: "k < 8" by simp
    have "8 * i + k < LENGTH('a)" using i k assms(1) by simp
    then show "bit (le_put n (le_get bs :: 'a word) ! i) k = bit (bs ! i) k"
      using i k assms by (simp add: le_put_def bit_simps bit_le_get)
  qed
qed

section \<open>Fixed-width integers\<close>

definition ReadUint8 :: "reader \<Rightarrow> 8 word go \<times> reader" where
  "ReadUint8 r = go_bind (read_full 1 r) (\<lambda>bs r'. (Ret (bs ! 0), r'))"

definition ReadUint16 :: "reader \<Rightarrow> 16 word go \<times> reader" where
  "ReadUint16 r = go_bind (read_full 2 r) (\<lambda>bs r'. (Ret (le_get bs), r'))"

definition ReadUint32 :: "reader \<Rightarrow> 32 word go \<times> reader" where
  "ReadUint32 r = go_bind (read_full 4 r) (\<lambda>bs r'. (Ret (le_get bs), r'))"

definition ReadUint64 :: "reader \<Rightarrow> 64 word go \<times> reader" where
  "ReadUint64 r = go_bind (read_full 8 r) (\<lambda>bs r'. (Ret (le_get bs), r'))"

definition WriteUint8 :: "writer \<Rightarrow> 8 word \<Rightarrow> unit go \<times> writer" where
  "WriteUint8 w val = io_write [val] w"

definition WriteUint16 :: "writer \<Rightarrow> 16 word \<Rightarrow> unit go \<times> writer" where
  "WriteUint16 w val = io_write (le_put 2 val) w"

definition WriteUint32 :: "writer \<Rightarrow> 32 word \<Rightarrow> unit go \<times> writer" where
  "WriteUint32 w val = io_write (le_put 4 val) w"

definition WriteUint64 :: "writer \<Rightarrow> 64 word \<Rightarrow> unit go \<times> writer" where
  "WriteUint64 w val = io_write (le_put 8 val) w"

text \<open>A fixed-width read through \<open>le_get\<close> decodes exactly what \<open>le_put\<close> produced.\<close>

lemma codec_le:
  assumes "LENGTH('a::len) = 8 * n"
  shows "codec (le_put n :: 'a word \<Rightarrow> bytes)
           (\<lambda>r. go_bind (read_full n r) (\<lambda>bs r'. (Ret (le_get bs), r'))) (\<lambda>_. True)"
proof
  fix x :: "'a word" and r :: reader and rest
  assume "avail r = le_put n x @ rest"
  then show "go_bind (read_full n r) (\<lambda>bs r'. (Ret (le_get bs), r')) = (Ret x, r\<lparr>avail := rest\<rparr>)"
    by (simp add: read_full_append le_get_put [OF assms])
next
  fix r :: reader and x :: "'a word" and r'
  assume "go_bind (read_full n r) (\<lambda>bs r'. (Ret (le_get bs), r')) = (Ret x, r')"
  then obtain bs where "read_full n r = (Ret bs, r')" and x: "x = le_get bs"
    by (auto simp: go_bind_Ret_iff)
  from read_full_Ret [OF this(1)]
  show "True \<and> avail r = le_put n x @ avail r' \<and> r' = r\<lparr>avail := avail r'\<rparr>"
    by (simp add: x le_put_get [OF assms])
next
  fix r :: reader and m r'
  show "go_bind (read_full n r) (\<lambda>bs r'. (Ret (le_get bs :: 'a word), r')) \<noteq> (Panics m, r')"
    by (simp add: go_bind_Panics_iff)
qed

interpretation u8: codec "\<lambda>v. [v]" ReadUint8 "\<lambda>_. True"
proof
  fix x :: byte and r :: reader and rest
  assume "avail r = [x] @ rest"
  then show "ReadUint8 r = (Ret x, r\<lparr>avail := rest\<rparr>)"
    by (simp add: ReadUint8_def read_full_def)
next
  fix r :: reader and x :: byte and r'
  assume "ReadUint8 r = (Ret x, r')"
  then obtain bs where r: "read_full 1 r = (Ret bs, r')" and x: "x = bs ! 0"
    by (auto simp: ReadUint8_def go_bind_Ret_iff)
  from read_full_Ret [OF r] obtain b where "bs = [b]" by (auto simp: length_Suc_conv)
  with read_full_Ret [OF r] x
  show "True \<and> avail r = [x] @ avail r' \<and> r' = r\<lparr>avail := avail r'\<rparr>" by simp
next
  fix r :: reader and m r'
  show "ReadUint8 r \<noteq> (Panics m, r')" by (simp add: ReadUint8_def go_bind_Panics_iff)
qed

interpretation u16: codec "le_put 2" ReadUint16 "\<lambda>_. True"
  unfolding ReadUint16_def [abs_def] by (rule codec_le) simp

interpretation u32: codec "le_put 4" ReadUint32 "\<lambda>_. True"
  unfolding ReadUint32_def [abs_def] by (rule codec_le) simp

interpretation u64: codec "le_put 8" ReadUint64 "\<lambda>_. True"
  unfolding ReadUint64_def [abs_def] by (rule codec_le) simp

section \<open>Length-prefixed bytes and strings\<close>

text \<open>
  \<open>ReadBytes\<close> allocates as many bytes as the prefix announces; the allocation itself is not
  modelled.  \<open>ReadFixedBytes\<close> takes a Go \<open>int\<close> and panics in \<open>make\<close> on a negative one.
\<close>

definition ReadBytes :: "reader \<Rightarrow> bytes go \<times> reader" where
  "ReadBytes r = go_bind (ReadUint32 r) (\<lambda>bufLen r1. read_full (unat bufLen) r1)"

definition ReadString :: "reader \<Rightarrow> string go \<times> reader" where
  "ReadString r = go_bind (ReadBytes r) (\<lambda>buf r1. (Ret (of_bytes buf), r1))"

definition ReadFixedBytes :: "int \<Rightarrow> reader \<Rightarrow> bytes go \<times> reader" where
  "ReadFixedBytes len r =
     (if len < 0 then (Panics ''makeslice: len out of range'', r) else read_full (nat len) r)"

definition ReadShortBytes :: "reader \<Rightarrow> bytes go \<times> reader" where
  "ReadShortBytes r = go_bind (ReadUint16 r) (\<lambda>bufLen r1. read_full (unat bufLen) r1)"

definition ReadShortString :: "reader \<Rightarrow> string go \<times> reader" where
  "ReadShortString r = go_bind (ReadShortBytes r) (\<lambda>buf r1. (Ret (of_bytes buf), r1))"

text \<open>The length is converted with \<open>uint32(len(buf))\<close> and \<open>uint16(len(buf))\<close>: it wraps.\<close>

definition WriteBytes :: "writer \<Rightarrow> bytes \<Rightarrow> unit go \<times> writer" where
  "WriteBytes w buf = go_bind (WriteUint32 w (word_of_nat (length buf))) (\<lambda>_ w1. io_write buf w1)"

definition WriteString :: "writer \<Rightarrow> string \<Rightarrow> unit go \<times> writer" where
  "WriteString w str = WriteBytes w (to_bytes str)"

definition WriteShortBytes :: "writer \<Rightarrow> bytes \<Rightarrow> unit go \<times> writer" where
  "WriteShortBytes w buf =
     go_bind (WriteUint16 w (word_of_nat (length buf))) (\<lambda>_ w1. io_write buf w1)"

text \<open>What the two writers put on the wire.\<close>

definition bytes_enc :: "bytes \<Rightarrow> bytes" where
  "bytes_enc buf = le_put 4 (word_of_nat (length buf) :: 32 word) @ buf"

definition short_enc :: "bytes \<Rightarrow> bytes" where
  "short_enc buf = le_put 2 (word_of_nat (length buf) :: 16 word) @ buf"

lemma WriteBytes_eq [wire_simps]: "WriteBytes w buf = io_write (bytes_enc buf) w"
  by (simp add: WriteBytes_def WriteUint32_def bytes_enc_def wire_simps)

lemma WriteShortBytes_eq [wire_simps]: "WriteShortBytes w buf = io_write (short_enc buf) w"
  by (simp add: WriteShortBytes_def WriteUint16_def short_enc_def wire_simps)

lemma length_bytes_enc [simp]: "length (bytes_enc buf) = 4 + length buf"
  by (simp add: bytes_enc_def)

lemma length_short_enc [simp]: "length (short_enc buf) = 2 + length buf"
  by (simp add: short_enc_def)

text \<open>
  A prefix that wrapped makes the reader take the length modulo the width and leave the rest in
  the stream; without wrap-around this is the round trip.
\<close>

lemma read_short_enc:
  assumes "avail r = short_enc buf @ rest"
  shows "ReadShortBytes r =
    (Ret (take (length buf mod 65536) buf), r\<lparr>avail := drop (length buf mod 65536) buf @ rest\<rparr>)"
proof -
  let ?n = "word_of_nat (length buf) :: 16 word"
  have "ReadUint16 r = (Ret ?n, r\<lparr>avail := buf @ rest\<rparr>)"
    using assms by (intro u16.get_put) (simp_all add: short_enc_def)
  moreover have "unat ?n = length buf mod 65536" by (simp add: unat_of_nat)
  ultimately show ?thesis
    by (simp add: ReadShortBytes_def read_full_def order_trans [OF mod_less_eq_dividend])
qed

lemma read_bytes_enc:
  assumes "avail r = bytes_enc buf @ rest"
  shows "ReadBytes r =
    (Ret (take (length buf mod 2 ^ 32) buf), r\<lparr>avail := drop (length buf mod 2 ^ 32) buf @ rest\<rparr>)"
proof -
  let ?n = "word_of_nat (length buf) :: 32 word"
  have "ReadUint32 r = (Ret ?n, r\<lparr>avail := buf @ rest\<rparr>)"
    using assms by (intro u32.get_put) (simp_all add: bytes_enc_def)
  moreover have "unat ?n = length buf mod 2 ^ 32" by (simp add: unat_of_nat)
  ultimately show ?thesis
    by (simp add: ReadBytes_def read_full_def order_trans [OF mod_less_eq_dividend])
qed

interpretation lbytes: codec bytes_enc ReadBytes "\<lambda>buf. length buf < 2 ^ 32"
proof
  fix buf :: bytes and r :: reader and rest
  assume "length buf < 2 ^ 32" and "avail r = bytes_enc buf @ rest"
  then show "ReadBytes r = (Ret buf, r\<lparr>avail := rest\<rparr>)"
    using read_bytes_enc [of r buf rest] by simp
next
  fix r :: reader and buf r'
  assume "ReadBytes r = (Ret buf, r')"
  then obtain n r1 where n: "ReadUint32 r = (Ret n, r1)" and f: "read_full (unat n) r1 = (Ret buf, r')"
    by (auto simp: ReadBytes_def go_bind_Ret_iff)
  from u32.get_Ret [OF n] read_full_Ret [OF f] unsigned_less [of n]
  show "length buf < 2 ^ 32 \<and> avail r = bytes_enc buf @ avail r' \<and> r' = r\<lparr>avail := avail r'\<rparr>"
    by (auto simp: bytes_enc_def)
next
  fix r :: reader and m r'
  show "ReadBytes r \<noteq> (Panics m, r')"
    using u32.get_no_panic by (simp add: ReadBytes_def go_bind_Panics_iff)
qed

interpretation sbytes: codec short_enc ReadShortBytes "\<lambda>buf. length buf < 2 ^ 16"
proof
  fix buf :: bytes and r :: reader and rest
  assume "length buf < 2 ^ 16" and "avail r = short_enc buf @ rest"
  then show "ReadShortBytes r = (Ret buf, r\<lparr>avail := rest\<rparr>)"
    using read_short_enc [of r buf rest] by simp
next
  fix r :: reader and buf r'
  assume "ReadShortBytes r = (Ret buf, r')"
  then obtain n r1 where n: "ReadUint16 r = (Ret n, r1)" and f: "read_full (unat n) r1 = (Ret buf, r')"
    by (auto simp: ReadShortBytes_def go_bind_Ret_iff)
  from u16.get_Ret [OF n] read_full_Ret [OF f] unsigned_less [of n]
  show "length buf < 2 ^ 16 \<and> avail r = short_enc buf @ avail r' \<and> r' = r\<lparr>avail := avail r'\<rparr>"
    by (auto simp: short_enc_def)
next
  fix r :: reader and m r'
  show "ReadShortBytes r \<noteq> (Panics m, r')"
    using u16.get_no_panic by (simp add: ReadShortBytes_def go_bind_Panics_iff)
qed

lemma ReadString_Ret:
  "ReadString r = (Ret s, r') \<longleftrightarrow> ReadBytes r = (Ret (to_bytes s), r')"
  by (auto simp: ReadString_def go_bind_Ret_iff)

lemma ReadShortString_Ret:
  "ReadShortString r = (Ret s, r') \<longleftrightarrow> ReadShortBytes r = (Ret (to_bytes s), r')"
  by (auto simp: ReadShortString_def go_bind_Ret_iff)

text \<open>How the readers fail: with the reader's own error, or with an unexpected end of file.\<close>

lemma ReadBytes_Fail:
  "ReadBytes r = (Fail e, r') \<Longrightarrow> e = rerr r \<or> rerr r = ErrEOF \<and> e = ErrUnexpectedEOF"
  by (auto simp: ReadBytes_def ReadUint32_def go_bind_Fail_iff go_bind_Ret_iff
      dest!: read_full_Fail dest: read_full_Ret)
     (metis read_full_Ret reader.select_convs(2) reader.surjective reader.update_convs(1))+

lemma ReadShortString_Fail:
  "ReadShortString r = (Fail e, r') \<Longrightarrow> e = rerr r \<or> rerr r = ErrEOF \<and> e = ErrUnexpectedEOF"
  by (auto simp: ReadShortString_def ReadShortBytes_def ReadUint16_def go_bind_Fail_iff go_bind_Ret_iff
      dest!: read_full_Fail dest: read_full_Ret)
     (metis read_full_Ret reader.select_convs(2) reader.surjective reader.update_convs(1))+

lemma ReadBytes_shrinks:
  "ReadBytes r = (Ret buf, r') \<Longrightarrow> length (avail r') + 4 + length buf = length (avail r)"
  by (drule lbytes.get_Ret) simp

end
