(* ===== verification/Location.thy ===== *)
theory Location
  imports Endian
begin

text \<open>
  \<open>iface/location.go\<close>: where a logged-in account is connected, and its binary form, two 16-bit
  length-prefixed strings.  \<open>Bytes\<close> has a pointer receiver that may be nil (\<open>None\<close>);
  \<open>Unmarshal\<close> assigns each field before it tests the error, so the location it leaves behind is
  part of its result.
\<close>

record location =
  ChannelID :: string
  GateId :: string

definition Location_Bytes :: "location option \<Rightarrow> bytes" where
  "Location_Bytes loc = (case loc of
       None \<Rightarrow> []
     | Some l \<Rightarrow>
         let (_, b1) = WriteShortBytes buffer (to_bytes (ChannelID l));
             (_, b2) = WriteShortBytes b1 (to_bytes (GateId l))
         in written b2)"

definition Location_Unmarshal :: "location \<Rightarrow> bytes \<Rightarrow> location \<times> error option" where
  "Location_Unmarshal loc data =
     (if data = [] then (loc, Some (ErrMsg ''data is empty''))
      else
        let buf = \<lparr>avail = data, rerr = ErrEOF\<rparr>
        in case ReadShortString buf of
             (Ret c, buf1) \<Rightarrow>
               (case ReadShortString buf1 of
                  (Ret g, _) \<Rightarrow> (loc\<lparr>ChannelID := c, GateId := g\<rparr>, None)
                | (Fail e, _) \<Rightarrow> (loc\<lparr>ChannelID := c, GateId := ''''\<rparr>, Some e)
                | (Panics m, _) \<Rightarrow> (loc, Some (ErrMsg m)))
           | (Fail e, _) \<Rightarrow> (loc\<lparr>ChannelID := ''''\<rparr>, Some e)
           | (Panics m, _) \<Rightarrow> (loc, Some (ErrMsg m)))"

text \<open>The bytes of a location; \<open>WriteShortBytes\<close> into a buffer cannot fail.\<close>

lemma Location_Bytes_None [simp]: "Location_Bytes None = []"
  by (simp add: Location_Bytes_def)

lemma Location_Bytes_Some [simp]:
  "Location_Bytes (Some l) = short_enc (to_bytes (ChannelID l)) @ short_enc (to_bytes (GateId l))"
  by (simp add: Location_Bytes_def wire_simps io_write_def buffer_def)

lemma ReadShortString_no_panic: "ReadShortString r \<noteq> (Panics m, r')"
  using sbytes.get_no_panic by (simp add: ReadShortString_def go_bind_Panics_iff)

lemma ReadShortString_enc:
  "length s < 65536 \<Longrightarrow> avail r = short_enc (to_bytes s) @ rest \<Longrightarrow>
     ReadShortString r = (Ret s, r\<lparr>avail := rest\<rparr>)"
  by (simp add: ReadShortString_Ret sbytes.get_put)

text \<open>A successful \<open>Unmarshal\<close> is exactly two decodable strings at the front of the data.\<close>

lemma Unmarshal_None_iff:
  "Location_Unmarshal l0 data = (l, None) \<longleftrightarrow>
     length (ChannelID l) < 65536 \<and> length (GateId l) < 65536
     \<and> (\<exists>rest. data = Location_Bytes (Some l) @ rest) \<and> l0\<lparr>ChannelID := ChannelID l, GateId := GateId l\<rparr> = l"
    (is "?L \<longleftrightarrow> ?R")
proof
  let ?b = "\<lparr>avail = data, rerr = ErrEOF\<rparr>"
  assume ?L
  then obtain c b1 g b2 where c: "ReadShortString ?b = (Ret c, b1)"
      and g: "ReadShortString b1 = (Ret g, b2)" and l: "l = l0\<lparr>ChannelID := c, GateId := g\<rparr>"
    by (auto simp: Location_Unmarshal_def split: if_splits prod.splits go.splits)
  from sbytes.get_Ret [OF c [unfolded ReadShortString_Ret]] sbytes.get_Ret [OF g [unfolded ReadShortString_Ret]]
  show ?R by (auto simp: l)
next
  let ?b = "\<lparr>avail = data, rerr = ErrEOF\<rparr>"
  assume R: ?R
  then obtain rest where d: "data = Location_Bytes (Some l) @ rest" by blast
  let ?b1 = "?b\<lparr>avail := short_enc (to_bytes (GateId l)) @ rest\<rparr>"
  have "ReadShortString ?b = (Ret (ChannelID l), ?b1)"
    using R d by (intro ReadShortString_enc) simp_all
  moreover have "ReadShortString ?b1 = (Ret (GateId l), ?b1\<lparr>avail := rest\<rparr>)"
    using R by (intro ReadShortString_enc) simp_all
  moreover have "data \<noteq> []" using d by (auto simp: short_enc_def dest: arg_cong [where f = length])
  ultimately show ?L using R by (simp add: Location_Unmarshal_def)
qed


text \<open>Every proper prefix of the bytes of a location with encodable identifiers is rejected
  with an error: \<open>data is empty\<close>, \<open>EOF\<close> or \<open>unexpected EOF\<close>.\<close>

lemma location_truncated:
  assumes "length (ChannelID l) < 65536" and "length (GateId l) < 65536"
    and "strict_prefix data (Location_Bytes (Some l))"
  shows "\<exists>l' e. Location_Unmarshal l0 data = (l', Some e)
     \<and> e \<in> {ErrMsg ''data is empty'', ErrEOF, ErrUnexpectedEOF}"
proof -
  obtain l' eo where u: "Location_Unmarshal l0 data = (l', eo)" by force
  have "eo \<noteq> None"
  proof
    assume "eo = None"
    with u obtain rest where lt: "length (ChannelID l') < 65536" "length (GateId l') < 65536"
      and d: "data = Location_Bytes (Some l') @ rest" by (auto simp: Unmarshal_None_iff)
    from assms(3) obtain more where "Location_Bytes (Some l) = data @ more" and "more \<noteq> []"
      by (metis append_Nil2 prefix_def strict_prefix_def)
    with d have eq: "short_enc (to_bytes (ChannelID l)) @ short_enc (to_bytes (GateId l))
        = short_enc (to_bytes (ChannelID l')) @ short_enc (to_bytes (GateId l')) @ rest @ more"
      by simp
    then have "short_enc (to_bytes (GateId l)) = short_enc (to_bytes (GateId l')) @ rest @ more"
      using sbytes.put_prefix_free [OF _ _ eq] assms(1) lt by simp
    then have "[] = rest @ more"
      using sbytes.put_prefix_free [of "to_bytes (GateId l)" "to_bytes (GateId l')" "[]" "rest @ more"]
        assms(2) lt by simp
    with \<open>more \<noteq> []\<close> show False by simp
  qed
  then obtain e where eo: "eo = Some e" by blast
  have "e \<in> {ErrMsg ''data is empty'', ErrEOF, ErrUnexpectedEOF}"
    using u eo ReadShortString_no_panic
    by (auto simp: Location_Unmarshal_def Let_def split: if_splits prod.splits go.splits
        dest!: ReadShortString_Fail)
       (auto simp: ReadShortString_Ret dest!: sbytes.get_Ret dest: arg_cong [where f = rerr])
  with u eo show ?thesis by blast
qed

lemma location_truncated_example:
  "\<exists>l' e. Location_Unmarshal \<lparr>ChannelID = '''', GateId = ''''\<rparr> [1]  = (l', Some e)
     \<and> e \<in> {ErrMsg ''data is empty'', ErrEOF, ErrUnexpectedEOF}"
proof -
  let ?l = "\<lparr>ChannelID = ''c'', GateId = ''g''\<rparr>"
  have "strict_prefix [1] (Location_Bytes (Some ?l))"
    by (simp add: short_enc_def le_put_2 to_bytes_def strict_prefix_def)
  then show ?thesis by (intro location_truncated [of ?l]) simp_all
qed

end
