(* ===== verification/Naming.thy ===== *)
theory Naming
  imports Prelude
begin

text \<open>
  Service discovery: the service entry of \<open>naming/default.go\<close> and the consul client of
  \<open>naming/consul/naming.go\<close>.  Consul itself is outside the repository: its answers are arguments.
  Metadata maps are shared between an entry, the client built for it and the goroutine that later
  changes its state, so they live in a store and are passed by address.
\<close>

section \<open>Metadata maps\<close>

type_synonym meta_store = "nat \<Rightarrow> (string \<Rightarrow> string option)"

text \<open>Reading a nil map or an absent key gives the empty string; writing to a nil map panics.\<close>

definition meta_get :: "meta_store \<Rightarrow> nat option \<Rightarrow> string \<Rightarrow> string" where
  "meta_get ms a k = (case a of None \<Rightarrow> '''' | Some i \<Rightarrow> (case ms i k of None \<Rightarrow> '''' | Some v \<Rightarrow> v))"

definition meta_set :: "meta_store \<Rightarrow> nat option \<Rightarrow> string \<Rightarrow> string \<Rightarrow> unit go \<times> meta_store" where
  "meta_set ms a k v =
     (case a of None \<Rightarrow> (Panics ''assignment to entry in nil map'', ms)
      | Some i \<Rightarrow> (Ret (), ms(i := (ms i)(k \<mapsto> v))))"

lemma meta_get_set: "meta_get (ms(i := (ms i)(k \<mapsto> v))) a j = (if a = Some i \<and> j = k then v else meta_get ms a j)"
  by (auto simp: meta_get_def split: option.splits)

section \<open>naming.DefaultService\<close>

record service =
  sv_Id :: string
  sv_Name :: string
  sv_Address :: string
  sv_Port :: int
  sv_Protocol :: string
  sv_Namespace :: string
  sv_Tags :: "string list"
  sv_Meta :: "nat option"

definition NewEntry :: "string \<Rightarrow> string \<Rightarrow> string \<Rightarrow> string \<Rightarrow> int \<Rightarrow> service" where
  "NewEntry i name protocol address port =
     \<lparr>sv_Id = i, sv_Name = name, sv_Address = address, sv_Port = port, sv_Protocol = protocol,
      sv_Namespace = '''', sv_Tags = [], sv_Meta = None\<rparr>"

definition ServiceID :: "service \<Rightarrow> string" where "ServiceID e = sv_Id e"
definition ServiceName :: "service \<Rightarrow> string" where "ServiceName e = sv_Name e"
definition PublicAddress :: "service \<Rightarrow> string" where "PublicAddress e = sv_Address e"
definition PublicPort :: "service \<Rightarrow> int" where "PublicPort e = sv_Port e"
definition GetProtocol :: "service \<Rightarrow> string" where "GetProtocol e = sv_Protocol e"
definition GetTags :: "service \<Rightarrow> string list" where "GetTags e = sv_Tags e"
definition GetMeta :: "service \<Rightarrow> nat option" where "GetMeta e = sv_Meta e"

lemmas service_defs [go_defs] = ServiceID_def ServiceName_def PublicAddress_def PublicPort_def
  GetProtocol_def GetTags_def GetMeta_def

definition DialURL :: "service \<Rightarrow> string" where
  "DialURL e =
     (if sv_Protocol e = ''tcp'' then sv_Address e @ '':'' @ show_int (sv_Port e)
      else sv_Protocol e @ ''://'' @ sv_Address e @ '':'' @ show_int (sv_Port e))"

lemma show_int_chars: "c \<in> set (show_int i) \<Longrightarrow> c = CHR ''-'' \<or> is_digit_char c"
  by (auto simp: show_int_def dest: show_nat_digits split: if_splits)

lemma show_int_no_colon: "CHR '':'' \<notin> set (show_int i)"
  using show_int_chars [of "CHR '':''" i] by (auto simp: is_digit_char_def)

lemma show_int_inj: "show_int i = show_int j \<Longrightarrow> i = j"
proof -
  assume eq: "show_int i = show_int j"
  have minus: "CHR ''-'' \<notin> set (show_nat n)" for n
    using show_nat_digits [of "CHR ''-''" n] by (auto simp: is_digit_char_def)
  have "(i < 0) = (j < 0)"
    using eq minus [of "nat i"] minus [of "nat j"] unfolding show_int_def
    by (metis list.set_intros(1))
  then show ?thesis using eq show_nat_inj by (force simp: show_int_def split: if_splits)
qed

text \<open>The first and the last separator of a string are determined by the string.\<close>

lemma sep_append_inj:
  "s @ c # x = t @ c # y \<Longrightarrow> c \<notin> set s \<Longrightarrow> c \<notin> set t \<Longrightarrow> s = t \<and> x = y"
proof (induction s arbitrary: t)
  case Nil
  then show ?case by (cases t) auto
next
  case (Cons a s)
  then show ?case by (cases t) auto
qed

lemma append_sep_inj:
  assumes "x @ c # s = y @ c # t" "c \<notin> set s" "c \<notin> set t"
  shows "x = y \<and> s = t"
proof -
  have "rev s @ c # rev x = rev t @ c # rev y"
    using arg_cong [OF assms(1), of rev] by simp
  moreover have "c \<notin> set (rev s)" "c \<notin> set (rev t)" using assms by simp_all
  ultimately show ?thesis using sep_append_inj [of "rev s" c "rev x" "rev t" "rev y"] by simp
qed

text \<open>Two entries of one protocol have the same dial URL only when they have the same address and the
  same port, even when the address contains colons.\<close>

lemma dial_url_injective:
  assumes "sv_Protocol e = sv_Protocol f" and "DialURL e = DialURL f"
  shows "sv_Address e = sv_Address f \<and> sv_Port e = sv_Port f"
proof -
  have "sv_Address e @ CHR '':'' # show_int (sv_Port e) = sv_Address f @ CHR '':'' # show_int (sv_Port f)"
    using assms by (auto simp: DialURL_def split: if_splits)
  then have "sv_Address e = sv_Address f \<and> show_int (sv_Port e) = show_int (sv_Port f)"
    by (rule append_sep_inj) (rule show_int_no_colon)+
  then show ?thesis by (simp add: show_int_inj)
qed

lemma dial_url_injective_example:
  "sv_Port (NewEntry ''a'' ''login'' ''tcp'' ''::1'' 8005) = sv_Port (NewEntry ''b'' ''chat'' ''tcp'' ''::1'' 8005)"
  using dial_url_injective [of "NewEntry ''a'' ''login'' ''tcp'' ''::1'' 8005"
      "NewEntry ''b'' ''chat'' ''tcp'' ''::1'' 8005"]
  by (simp add: NewEntry_def DialURL_def)

section \<open>Registration and lookup in consul\<close>

definition KeyProtocol :: string where "KeyProtocol = ''protocol''"
definition KeyHealthURL :: string where "KeyHealthURL = ''health_url''"
definition HealthPassing :: string where "HealthPassing = ''passing''"

record service_check =
  ck_CheckID :: string
  ck_HTTP :: string
  ck_Timeout :: string
  ck_Interval :: string
  ck_Deregister :: string

record registration =
  rg_ID :: string
  rg_Name :: string
  rg_Address :: string
  rg_Port :: int
  rg_Tags :: "string list"
  rg_Meta :: "string \<Rightarrow> string option"
  rg_Check :: "service_check option"

text \<open>
  What \<open>Register\<close> sends to the agent, and the metadata store after it: a map of the entry itself is
  changed in place, a nil map is replaced by one only the request holds.
\<close>

definition Register_request :: "service \<Rightarrow> meta_store \<Rightarrow> registration \<times> meta_store" where
  "Register_request s ms =
     (let meta = (case GetMeta s of None \<Rightarrow> Map.empty | Some i \<Rightarrow> ms i);
          meta1 = meta(KeyProtocol \<mapsto> GetProtocol s);
          ms1 = (case GetMeta s of None \<Rightarrow> ms | Some i \<Rightarrow> ms(i := meta1));
          healthURL = meta_get ms1 (GetMeta s) KeyHealthURL;
          check = (if healthURL \<noteq> ''''
                   then Some \<lparr>ck_CheckID = ServiceID s @ ''_normal'', ck_HTTP = healthURL,
                     ck_Timeout = ''1s'', ck_Interval = ''10s'', ck_Deregister = ''20s''\<rparr>
                   else None)
      in (\<lparr>rg_ID = ServiceID s, rg_Name = ServiceName s, rg_Address = PublicAddress s,
           rg_Port = PublicPort s, rg_Tags = GetTags s, rg_Meta = meta1, rg_Check = check\<rparr>, ms1))"

text \<open>A catalog entry; \<open>cs_Status\<close> is \<open>Checks.AggregatedStatus()\<close>, the metadata is at an address.\<close>

record catalog_service =
  cs_ServiceID :: string
  cs_ServiceName :: string
  cs_ServiceAddress :: string
  cs_ServicePort :: int
  cs_ServiceTags :: "string list"
  cs_ServiceMeta :: "nat option"
  cs_Status :: string

definition load_entry :: "meta_store \<Rightarrow> catalog_service \<Rightarrow> service option" where
  "load_entry ms s =
     (if cs_Status s \<noteq> HealthPassing then None
      else Some \<lparr>sv_Id = cs_ServiceID s, sv_Name = cs_ServiceName s, sv_Address = cs_ServiceAddress s,
        sv_Port = cs_ServicePort s, sv_Protocol = meta_get ms (cs_ServiceMeta s) KeyProtocol,
        sv_Namespace = '''', sv_Tags = cs_ServiceTags s, sv_Meta = cs_ServiceMeta s\<rparr>)"

text \<open>
  \<open>load\<close> on consul's answer.  The slice is made with the length of the catalog, so an instance that
  is not passing leaves a nil interface (\<open>None\<close>) at its place.
\<close>

definition load ::
    "meta_store \<Rightarrow> error + catalog_service list \<times> nat \<Rightarrow> error + service option list \<times> nat" where
  "load ms answer =
     (case answer of Inl e \<Rightarrow> Inl e | Inr (cat, index) \<Rightarrow> Inr (map (load_entry ms) cat, index))"

definition Find :: "meta_store \<Rightarrow> error + catalog_service list \<times> nat \<Rightarrow> error + service option list" where
  "Find ms answer = (case load ms answer of Inl e \<Rightarrow> Inl e | Inr (services, _) \<Rightarrow> Inr services)"

text \<open>What the catalog documents: an entry carries the data its instance was registered with.\<close>

definition registered_as :: "registration \<Rightarrow> meta_store \<Rightarrow> catalog_service \<Rightarrow> bool" where
  "registered_as r ms s \<longleftrightarrow>
     cs_ServiceID s = rg_ID r \<and> cs_ServiceName s = rg_Name r \<and> cs_ServiceAddress s = rg_Address r
     \<and> cs_ServicePort s = rg_Port r \<and> cs_ServiceTags s = rg_Tags r
     \<and> (\<exists>i. cs_ServiceMeta s = Some i \<and> ms i = rg_Meta r)"

text \<open>A service that was registered and is reported passing is found with its identifier, name,
  address, port, tags and protocol, so that its dial URL is the one it was registered under; an
  instance that is not passing is found as a nil entry.\<close>

lemma register_find:
  assumes "registered_as (fst (Register_request s ms)) ms' c"
  shows "Find ms' (Inr ([c], ix)) =
     Inr [if cs_Status c = HealthPassing
          then Some (s\<lparr>sv_Namespace := '''', sv_Meta := cs_ServiceMeta c\<rparr>) else None]
    \<and> (\<forall>f. Find ms' (Inr ([c], ix)) = Inr [Some f] \<longrightarrow> DialURL f = DialURL s)"
proof -
  from assms obtain i where "cs_ServiceMeta c = Some i"
    and "ms' i = rg_Meta (fst (Register_request s ms))" by (auto simp: registered_as_def)
  then have "meta_get ms' (cs_ServiceMeta c) KeyProtocol = sv_Protocol s"
    by (simp add: meta_get_def Register_request_def Let_def go_defs)
  then have "load_entry ms' c = (if cs_Status c = HealthPassing
      then Some (s\<lparr>sv_Namespace := '''', sv_Meta := cs_ServiceMeta c\<rparr>) else None)"
    using assms by (cases s) (simp add: registered_as_def load_entry_def Register_request_def Let_def go_defs)
  then show ?thesis by (auto simp: Find_def load_def DialURL_def)
qed

definition demo_service :: service where
  "demo_service = NewEntry ''gate01'' ''tgateway'' ''tcp'' ''10.0.0.1'' 8000"

definition demo_entry :: "string \<Rightarrow> catalog_service" where
  "demo_entry status = \<lparr>cs_ServiceID = ''gate01'', cs_ServiceName = ''tgateway'',
     cs_ServiceAddress = ''10.0.0.1'', cs_ServicePort = 8000, cs_ServiceTags = [],
     cs_ServiceMeta = Some 0, cs_Status = status\<rparr>"

lemma register_find_example:
  "Find (\<lambda>_. [KeyProtocol \<mapsto> ''tcp'']) (Inr ([demo_entry ''critical''], 1)) = Inr [None]
   \<and> Find (\<lambda>_. [KeyProtocol \<mapsto> ''tcp'']) (Inr ([demo_entry ''passing''], 1))
      = Inr [Some (demo_service\<lparr>sv_Meta := Some 0\<rparr>)]"
proof -
  have r: "registered_as (fst (Register_request demo_service (\<lambda>_. Map.empty)))
      (\<lambda>_. [KeyProtocol \<mapsto> ''tcp'']) (demo_entry st)" for st :: string
    by (simp add: registered_as_def Register_request_def Let_def demo_service_def demo_entry_def
        NewEntry_def go_defs)
  show ?thesis
    using register_find [OF r [of "''critical''"], of 1] register_find [OF r [of "''passing''"], of 1]
    by (simp add: HealthPassing_def demo_entry_def demo_service_def NewEntry_def)
qed

end
