(* ===== verification/Watch.thy ===== *)
theory Watch
  imports Naming
begin

text \<open>
  \<open>Subscribe\<close>, \<open>UnSubscribe\<close> and \<open>watch\<close> of \<open>naming/consul/naming.go\<close>, which run in several
  goroutines and share the lock of the \<open>Naming\<close>, its map of watches and their \<open>Quit\<close> channels.
  \<open>watch\<close> is called, not started: it runs inside \<open>Subscribe\<close>, with the lock held.
\<close>

section \<open>One poll of a watch\<close>

record watch =
  w_Service :: string
  w_WaitIndex :: nat

text \<open>
  \<open>doWatch\<close>: what one answer of \<open>load\<close> does.  The result says whether the watch stops, its new state,
  and the list the callback is called with, when it is; the first poll passes a nil callback.
\<close>

definition doWatch ::
    "bool \<Rightarrow> bool \<Rightarrow> error + service option list \<times> nat \<Rightarrow> watch \<Rightarrow> bool \<times> watch \<times> service option list option" where
  "doWatch has_callback quit answer wh =
     (case answer of
        Inl e \<Rightarrow> (False, wh, None)
      | Inr (services, LastIndex) \<Rightarrow>
          if quit then (True, wh, None)
          else (False, wh\<lparr>w_WaitIndex := LastIndex\<rparr>, if has_callback then Some services else None))"

text \<open>
  \<open>watch\<close> on a list of answers, all of them before \<open>Quit\<close> is closed: the lists handed to the callback,
  in order.
\<close>

fun watch_polls :: "bool \<Rightarrow> (error + service option list \<times> nat) list \<Rightarrow> watch \<Rightarrow> watch \<times> service option list list" where
  "watch_polls cb [] wh = (wh, [])"
| "watch_polls cb (a # answers) wh =
     (let (stopped, wh1, call) = doWatch cb False a wh;
          (wh2, calls) = watch_polls True answers wh1
      in (wh2, (case call of None \<Rightarrow> calls | Some s \<Rightarrow> s # calls)))"

definition answered :: "(error + 'a \<times> nat) list \<Rightarrow> 'a list" where
  "answered as = concat (map (\<lambda>a. case a of Inl _ \<Rightarrow> [] | Inr (s, _) \<Rightarrow> [s]) as)"

lemma answered_simps [simp]:
  "answered [] = []" "answered (Inl e # as) = answered as" "answered (Inr (s, i) # as) = s # answered as"
  by (simp_all add: answered_def)

lemma watch_polls_True: "snd (watch_polls True as wh) = answered as"
proof (induction as arbitrary: wh)
  case (Cons a as)
  have "snd (watch_polls True as w) = answered as" for w by (rule Cons.IH)
  then show ?case by (cases a) (auto simp: doWatch_def split_beta)
qed simp

text \<open>The watch hands the callback every list consul answers after the first poll, in order, and
  nothing for polls that failed; the first answer, which holds the instances that were already
  running, never reaches it.\<close>

lemma watch_drops_first:
  "snd (watch_polls False (a # as) wh) = answered as"
  using watch_polls_True [of as] by (cases a) (auto simp: doWatch_def split_beta)

section \<open>The goroutines of a Naming\<close>

datatype nm_pc =
    NIdle
  | NSub string     \<comment> \<open>in \<open>Subscribe\<close>, before \<open>n.Lock()\<close>\<close>
  | NUnsub string   \<comment> \<open>in \<open>UnSubscribe\<close>, before \<open>n.Lock()\<close>\<close>
  | NWatch string bool  \<comment> \<open>in \<open>watch\<close>; whether the first poll is over\<close>
  | NRet "error option"

record nm_state =
  nm_lock :: "nat option"
  nm_watches :: "string \<Rightarrow> bool"  \<comment> \<open>the keys of \<open>n.watches\<close>\<close>
  nm_quit :: "string \<Rightarrow> bool"  \<comment> \<open>whether the \<open>Quit\<close> channel of the watch in that entry is closed\<close>
  nm_pc :: "nat \<Rightarrow> nm_pc"

definition nm_init :: nm_state where
  "nm_init = \<lparr>nm_lock = None, nm_watches = (\<lambda>_. False), nm_quit = (\<lambda>_. False), nm_pc = (\<lambda>_. NIdle)\<rparr>"

definition goto :: "nat \<Rightarrow> nm_pc \<Rightarrow> nm_state \<Rightarrow> nm_state" where
  "goto i p s = s\<lparr>nm_pc := (nm_pc s)(i := p)\<rparr>"

inductive nm_step :: "nm_state \<Rightarrow> nm_state \<Rightarrow> bool" where
  subscribe: "nm_pc s i = NIdle \<Longrightarrow> nm_step s (goto i (NSub name) s)"
| unsubscribe: "nm_pc s i = NIdle \<Longrightarrow> nm_step s (goto i (NUnsub name) s)"
| sub_twice: "nm_pc s i = NSub name \<Longrightarrow> nm_lock s = None \<Longrightarrow> nm_watches s name
    \<Longrightarrow> nm_step s (goto i (NRet (Some (ErrMsg ''serviceName has already been registered''))) s)"
| sub_watch: "nm_pc s i = NSub name \<Longrightarrow> nm_lock s = None \<Longrightarrow> \<not> nm_watches s name
    \<Longrightarrow> nm_step s (goto i (NWatch name False)
          (s\<lparr>nm_lock := Some i, nm_watches := (nm_watches s)(name := True), nm_quit := (nm_quit s)(name := False)\<rparr>))"
| poll_failed: "nm_pc s i = NWatch name b \<Longrightarrow> nm_step s (goto i (NWatch name True) s)"
| poll_answered: "nm_pc s i = NWatch name b \<Longrightarrow> \<not> nm_quit s name \<Longrightarrow> nm_step s (goto i (NWatch name True) s)"
| poll_stopped: "nm_pc s i = NWatch name b \<Longrightarrow> nm_quit s name
    \<Longrightarrow> nm_step s (goto i (NRet None) (s\<lparr>nm_lock := None\<rparr>))"
| unsub_known: "nm_pc s i = NUnsub name \<Longrightarrow> nm_lock s = None \<Longrightarrow> nm_watches s name
    \<Longrightarrow> nm_step s (goto i (NRet None)
          (s\<lparr>nm_watches := (nm_watches s)(name := False), nm_quit := (nm_quit s)(name := True)\<rparr>))"
| unsub_unknown: "nm_pc s i = NUnsub name \<Longrightarrow> nm_lock s = None \<Longrightarrow> \<not> nm_watches s name
    \<Longrightarrow> nm_step s (goto i (NRet None) s)"

inductive nm_run :: "nm_state \<Rightarrow> nm_state \<Rightarrow> bool" where
  refl: "nm_run s s"
| step: "nm_run s t \<Longrightarrow> nm_step t u \<Longrightarrow> nm_run s u"

text \<open>The lock belongs to the one goroutine that is in \<open>watch\<close>, whose \<open>Quit\<close> is open.\<close>

definition nm_inv :: "nm_state \<Rightarrow> bool" where
  "nm_inv s \<longleftrightarrow> (\<forall>i. (nm_lock s = Some i) = (\<exists>name b. nm_pc s i = NWatch name b))
     \<and> (\<forall>i name b. nm_pc s i = NWatch name b \<longrightarrow> \<not> nm_quit s name)"

lemma nm_inv_init: "nm_inv nm_init"
  by (simp add: nm_inv_def nm_init_def)

lemma goto_simps [simp]:
  "nm_pc (goto i p s) j = (if j = i then p else nm_pc s j)" "nm_lock (goto i p s) = nm_lock s"
  "nm_quit (goto i p s) = nm_quit s" "nm_watches (goto i p s) = nm_watches s"
  by (auto simp: goto_def)

lemma nm_invD:
  "nm_inv s \<Longrightarrow> nm_lock s = None \<Longrightarrow> nm_pc s i \<noteq> NWatch name b"
  "nm_inv s \<Longrightarrow> nm_pc s i = NWatch name b \<Longrightarrow> \<not> nm_quit s name"
  "nm_inv s \<Longrightarrow> nm_pc s i = NWatch name b \<Longrightarrow> nm_lock s = Some i"
  by (auto simp: nm_inv_def)

lemma nm_inv_step: "nm_step s t \<Longrightarrow> nm_inv s \<Longrightarrow> nm_inv t"
proof (induction rule: nm_step.induct)
  case (sub_watch s i name)
  then have "nm_pc s j \<noteq> NWatch n b" for j n b using nm_invD(1) by blast
  with sub_watch show ?case by (auto simp: nm_inv_def)
next
  case (unsub_known s i name)
  then have "nm_pc s j \<noteq> NWatch n b" for j n b using nm_invD(1) by blast
  with unsub_known show ?case by (auto simp: nm_inv_def)
next
  case (poll_stopped s i name b)
  then show ?case using nm_invD(2) by blast
qed (auto simp: nm_inv_def split: if_splits)

lemma nm_run_inv: "nm_run s t \<Longrightarrow> nm_inv s \<Longrightarrow> nm_inv t"
  by (induction rule: nm_run.induct) (auto intro: nm_inv_step)

text \<open>With a goroutine in \<open>watch\<close>, a step returns no call: the watcher polls on, the others can only
  come and wait.\<close>

lemma nm_step_blocked:
  assumes "nm_step s t" "nm_inv s" "nm_pc s i = NWatch name b"
  shows "(\<exists>b'. nm_pc t i = NWatch name b') \<and> (\<forall>j r. nm_pc t j = NRet r \<longrightarrow> nm_pc s j = NRet r)
    \<and> nm_watches t = nm_watches s"
proof -
  have locked: "nm_lock s = Some i" by (rule nm_invD(3) [OF assms(2,3)])
  from assms(1) show ?thesis
  proof cases
    case (poll_stopped j n c)
    then show ?thesis using nm_invD(2) [OF assms(2)] by blast
  qed (use locked assms(3) in \<open>auto split: if_splits\<close>)
qed

text \<open>C38: The first subscription to reach the lock never returns and never gives the lock back: as long
  as the process runs it polls, every other \<open>Subscribe\<close> and \<open>UnSubscribe\<close> waits for ever, and no
  other service is ever added to the watches.\<close>

theorem subscribe_blocks_naming:
  assumes "nm_run nm_init s" and "nm_pc s i = NWatch name b" and "nm_run s t"
  shows "(\<exists>b'. nm_pc t i = NWatch name b') \<and> nm_lock t = Some i
    \<and> (\<forall>j r. nm_pc t j = NRet r \<longrightarrow> nm_pc s j = NRet r) \<and> nm_watches t = nm_watches s"
proof -
  have inv: "nm_inv s" using nm_run_inv [OF assms(1) nm_inv_init] .
  from assms(3) inv assms(2) show ?thesis
  proof (induction rule: nm_run.induct)
    case (refl s)
    then show ?case by (auto dest: nm_invD(3))
  next
    case (step s t u)
    then obtain b' where b': "nm_pc t i = NWatch name b'" by blast
    have inv: "nm_inv t" using nm_run_inv [OF step.hyps(1) step.prems(1)] .
    note next_step = nm_step_blocked [OF step.hyps(2) inv b']
    then obtain b'' where "nm_pc u i = NWatch name b''" by blast
    moreover from this have "nm_lock u = Some i"
      using nm_invD(3) [OF nm_inv_step [OF step.hyps(2) inv]] by blast
    ultimately show ?case using next_step step.IH [OF step.prems] by simp
  qed
qed

text \<open>Two services subscribed by two goroutines, as the container does for its dependencies.\<close>

definition nm_demo :: nm_state where
  "nm_demo = goto 1 (NSub ''login'') (goto 0 (NWatch ''chat'' False)
     (nm_init\<lparr>nm_lock := Some 0, nm_watches := (\<lambda>_. False)(''chat'' := True)\<rparr>))"

lemma nm_demo_run: "nm_run nm_init nm_demo"
proof -
  have "nm_step nm_init (goto 0 (NSub ''chat'') nm_init)"
    by (rule nm_step.subscribe) (simp add: nm_init_def)
  moreover have "nm_step (goto 0 (NSub ''chat'') nm_init)
      (goto 0 (NWatch ''chat'' False) (nm_init\<lparr>nm_lock := Some 0, nm_watches := (\<lambda>_. False)(''chat'' := True)\<rparr>))"
    using nm_step.sub_watch [of "goto 0 (NSub ''chat'') nm_init" 0 "''chat''"]
    by (simp add: nm_init_def goto_def fun_upd_def cong: if_cong)
  moreover have "nm_step (goto 0 (NWatch ''chat'' False)
        (nm_init\<lparr>nm_lock := Some 0, nm_watches := (\<lambda>_. False)(''chat'' := True)\<rparr>)) nm_demo"
    unfolding nm_demo_def by (rule nm_step.subscribe) (simp add: nm_init_def)
  ultimately show ?thesis by (meson nm_run.intros)
qed

theorem subscribe_blocks_naming_witness:
  "nm_pc nm_demo 1 = NSub ''login'' \<and> \<not> nm_watches nm_demo ''login'' \<and> nm_lock nm_demo = Some 0"
  using subscribe_blocks_naming [OF nm_demo_run _ nm_run.refl, of 0 "''chat''" False]
  by (simp add: nm_demo_def nm_init_def)

end
