(* ===== verification/TcpFrame.thy ===== *)
theory TcpFrame
  imports Endian
begin

text \<open>
  The frame layer of the TCP transport: \<open>tcp/frame.go\<close>, \<open>tcp/connection.go\<close> and the operation
  codes of \<open>iface/iserver.go\<close>.  A frame is one byte of operation code and a 32-bit
  length-prefixed payload.  \<open>iface.OpCode\<close> is a Go \<open>int\<close>, cut to a byte on the wire.
\<close>

section \<open>Frames and operation codes\<close>

type_synonym opcode = int

definition OpContinuation :: opcode where "OpContinuation = 0"
definition OpText :: opcode where "OpText = 1"
definition OpBinary :: opcode where "OpBinary = 2"
definition OpClose :: opcode where "OpClose = 8"
definition OpPing :: opcode where "OpPing = 9"
definition OpPong :: opcode where "OpPong = 10"

lemmas opcode_defs [simp] =
  OpContinuation_def OpText_def OpBinary_def OpClose_def OpPing_def OpPong_def

record frame =
  OpCode :: opcode
  Payload :: bytes

definition SetOpCode :: "opcode \<Rightarrow> frame \<Rightarrow> frame" where "SetOpCode code f = f\<lparr>OpCode := code\<rparr>"
definition GetOpCode :: "frame \<Rightarrow> opcode" where "GetOpCode f = OpCode f"
definition SetPayload :: "bytes \<Rightarrow> frame \<Rightarrow> frame" where "SetPayload p f = f\<lparr>Payload := p\<rparr>"
definition GetPayload :: "frame \<Rightarrow> bytes" where "GetPayload f = Payload f"

lemmas frame_access [simp] = SetOpCode_def GetOpCode_def SetPayload_def GetPayload_def

section \<open>Reading and writing\<close>

definition ReadFrame :: "reader \<Rightarrow> frame go \<times> reader" where
  "ReadFrame r = go_bind (ReadUint8 r) (\<lambda>opc r1.
     go_bind (ReadBytes r1) (\<lambda>payload r2.
       (Ret \<lparr>OpCode = uint opc, Payload = payload\<rparr>, r2)))"

definition WriteFrame :: "writer \<Rightarrow> opcode \<Rightarrow> bytes \<Rightarrow> unit go \<times> writer" where
  "WriteFrame w code payload =
     go_bind (WriteUint8 w (word_of_int code)) (\<lambda>_ w1.
       go_bind (WriteBytes w1 payload) (\<lambda>_ w2. (Ret (), w2)))"

definition frame_enc :: "frame \<Rightarrow> bytes" where
  "frame_enc f = word_of_int (OpCode f) # bytes_enc (Payload f)"

definition frame_ok :: "frame \<Rightarrow> bool" where
  "frame_ok f \<longleftrightarrow> 0 \<le> OpCode f \<and> OpCode f < 256 \<and> length (Payload f) < 2 ^ 32"

lemma WriteFrame_eq [wire_simps]:
  "WriteFrame w code payload = io_write (frame_enc \<lparr>OpCode = code, Payload = payload\<rparr>) w"
  using io_write_write [of "[word_of_int code]" w "bytes_enc payload"]
  by (simp add: WriteFrame_def WriteUint8_def WriteBytes_eq frame_enc_def)

lemma uint_word_of_int_byte [simp]:
  "0 \<le> c \<Longrightarrow> c < 256 \<Longrightarrow> uint (word_of_int c :: byte) = c"
  by (simp add: uint_word_of_int)

lemma uint_byte_bounds: "0 \<le> uint (b :: byte)" "uint (b :: byte) < 256"
  using unsigned_less [of b] by (simp_all add: uint_nonnegative)

interpretation fr: codec frame_enc ReadFrame frame_ok
proof
  fix f and r :: reader and rest
  assume ok: "frame_ok f" and av: "avail r = frame_enc f @ rest"
  have "ReadUint8 r = (Ret (word_of_int (OpCode f)), r\<lparr>avail := bytes_enc (Payload f) @ rest\<rparr>)"
    using av by (intro u8.get_put) (simp_all add: frame_enc_def)
  moreover have "ReadBytes (r\<lparr>avail := bytes_enc (Payload f) @ rest\<rparr>) = (Ret (Payload f), r\<lparr>avail := rest\<rparr>)"
    using ok lbytes.get_put [of "Payload f" "r\<lparr>avail := bytes_enc (Payload f) @ rest\<rparr>" rest]
    by (simp add: frame_ok_def)
  ultimately show "ReadFrame r = (Ret f, r\<lparr>avail := rest\<rparr>)"
    using ok by (simp add: ReadFrame_def frame_ok_def)
next
  fix r :: reader and f r'
  assume "ReadFrame r = (Ret f, r')"
  then obtain opc r1 p where a: "ReadUint8 r = (Ret opc, r1)" and b: "ReadBytes r1 = (Ret p, r')"
      and f: "f = \<lparr>OpCode = uint opc, Payload = p\<rparr>"
    by (auto simp: ReadFrame_def go_bind_Ret_iff)
  from u8.get_Ret [OF a] lbytes.get_Ret [OF b]
  show "frame_ok f \<and> avail r = frame_enc f @ avail r' \<and> r' = r\<lparr>avail := avail r'\<rparr>"
    by (auto simp: f frame_ok_def frame_enc_def uint_byte_bounds)
next
  fix r :: reader and m r'
  show "ReadFrame r \<noteq> (Panics m, r')"
    using u8.get_no_panic lbytes.get_no_panic by (simp add: ReadFrame_def go_bind_Panics_iff)
qed

lemma ReadFrame_shrinks: "ReadFrame r = (Ret f, r') \<Longrightarrow> length (avail r') < length (avail r)"
  by (drule fr.get_Ret) (simp add: frame_enc_def)

text \<open>A sequence of frames written one after the other.\<close>

fun write_frames :: "frame list \<Rightarrow> writer \<Rightarrow> unit go \<times> writer" where
  "write_frames [] w = (Ret (), w)"
| "write_frames (f # fs) w = go_bind (WriteFrame w (OpCode f) (Payload f)) (\<lambda>_ w1. write_frames fs w1)"

lemma frame_eta [simp]: "\<lparr>OpCode = OpCode f, Payload = Payload f\<rparr> = f"
  by simp

lemma write_frames_eq:
  "room w = None \<Longrightarrow> write_frames fs w = (Ret (), w\<lparr>written := written w @ concat (map frame_enc fs)\<rparr>)"
  by (induction fs arbitrary: w) (simp_all add: WriteFrame_eq io_write_None)

text \<open>C32: A list of frames written one after the other on a healthy connection is read back as the
  same list, in order, with nothing left over or taken from what follows.\<close>

theorem frames_roundtrip:
  assumes "\<forall>f \<in> set fs. frame_ok f" and "write_frames fs buffer = (Ret (), w)"
  shows "get_n ReadFrame (length fs) \<lparr>avail = written w @ rest, rerr = e\<rparr>
     = (Ret fs, \<lparr>avail = rest, rerr = e\<rparr>)"
  using assms write_frames_eq [of buffer fs]
    fr.get_n_put [of fs "\<lparr>avail = written w @ rest, rerr = e\<rparr>" rest]
  by (auto simp: buffer_def)

theorem frames_roundtrip_witness:
  "get_n ReadFrame 2 \<lparr>avail = [2, 1, 0, 0, 0, 65, 9, 0, 0, 0, 0] @ [7], rerr = ErrEOF\<rparr>
     = (Ret [\<lparr>OpCode = 2, Payload = [65]\<rparr>, \<lparr>OpCode = 9, Payload = []\<rparr>], \<lparr>avail = [7], rerr = ErrEOF\<rparr>)"
proof -
  let ?fs = "[\<lparr>OpCode = 2, Payload = [65]\<rparr>, \<lparr>OpCode = 9, Payload = []\<rparr>]"
  let ?w = "\<lparr>written = [2, 1, 0, 0, 0, 65, 9, 0, 0, 0, 0], room = None\<rparr>"
  have "write_frames ?fs buffer = (Ret (), ?w)"
    by (simp only: write_frames_eq buffer_def writer.simps) (simp add: frame_enc_def bytes_enc_def le_put_4)
  moreover have "\<forall>f \<in> set ?fs. frame_ok f" by (simp add: frame_ok_def)
  ultimately show ?thesis using frames_roundtrip [of ?fs ?w "[7]" ErrEOF]
    by (simp del: get_n.simps write_frames.simps add: numeral_2_eq_2)
qed

section \<open>Two writers on one connection\<close>

text \<open>
  \<open>WriteFrame\<close> makes three calls of \<open>Write\<close>: the operation code, the length, the payload.  Each
  call is atomic on a \<open>net.Conn\<close>, the sequence is not: \<open>Channel.Push\<close> takes no lock.  The bytes
  that two concurrent pushes leave on the wire are any shuffle of their two sequences of writes.
\<close>

definition frame_writes :: "opcode \<Rightarrow> bytes \<Rightarrow> bytes list" where
  "frame_writes code payload =
     [[word_of_int code], le_put 4 (word_of_nat (length payload) :: 32 word), payload]"

fun run_writes :: "bytes list \<Rightarrow> writer \<Rightarrow> unit go \<times> writer" where
  "run_writes [] w = (Ret (), w)"
| "run_writes (p # ps) w = go_bind (io_write p w) (\<lambda>_ w1. run_writes ps w1)"

lemma run_writes_concat: "run_writes ps = io_write (concat ps)"
proof (induction ps)
  case Nil
  show ?case by (rule ext) (simp add: io_write_def split: option.splits)
next
  case (Cons p ps)
  show ?case by (rule ext) (simp add: Cons io_write_write)
qed

lemma concat_frame_writes: "concat (frame_writes code p) = frame_enc \<lparr>OpCode = code, Payload = p\<rparr>"
  by (simp add: frame_writes_def frame_enc_def bytes_enc_def)

lemma run_writes_frame: "run_writes (frame_writes code payload) w = WriteFrame w code payload"
  by (simp add: run_writes_concat concat_frame_writes WriteFrame_eq)

text \<open>The schedule in which the second push writes its code between the code and length of the first.\<close>

lemma split_schedule:
  "[[c], [d], l, p, m, q] \<in> shuffles [[c], l, p] [[d], m, q]"
  by (simp add: Cons_in_shuffles_iff)

lemma split_schedule_length:
  assumes "length p < 2 ^ 24"
    and "avail r = [2, 2] @ le_put 4 (word_of_nat (length p) :: 32 word) @ rest"
    and "ReadFrame r = (Ret f, r')"
  shows "length (Payload f) = 2 + 256 * length p"
proof -
  let ?n = "word_of_nat (length p) :: 32 word"
  from fr.get_Ret [OF assms(3)] assms(2)
  have av: "[2, 2] @ le_put 4 ?n @ rest = frame_enc f @ avail r'" and ok: "frame_ok f" by auto
  let ?m = "word_of_nat (length (Payload f)) :: 32 word"
  from av have "take 4 (drop 1 (frame_enc f @ avail r')) = [2, ucast ?n, ucast (drop_bit 8 ?n), ucast (drop_bit 16 ?n)]"
    by (simp add: le_put_4 flip: av)
  then have "le_put 4 ?m = [2, ucast ?n, ucast (drop_bit 8 ?n), ucast (drop_bit 16 ?n)]"
    by (simp add: frame_enc_def bytes_enc_def)
  also have "\<dots> = le_put 4 (word_of_nat (2 + 256 * length p) :: 32 word)"
  proof -
    have "unat (word_of_nat (2 + 256 * length p) :: 32 word) = 2 + 256 * length p"
      using assms(1) by (subst unat_of_nat) simp
    moreover have "unat ?n = length p" using assms(1) by (simp add: unat_of_nat)
    moreover have "(2 + 256 * length p) div 256 = length p"
      and "(2 + 256 * length p) div 65536 = length p div 256"
      and "(2 + 256 * length p) div 16777216 = length p div 65536"
      by simp_all
    moreover have "word_of_nat (2 + 256 * length p) = (2 :: byte)"
    proof -
      have "(2 + 256 * length p) mod 256 = 2" by presburger
      then show ?thesis by (simp only: word_unat_eq_iff unat_of_nat) simp
    qed
    moreover have "[ucast ?n, ucast (drop_bit 8 ?n), ucast (drop_bit 16 ?n)]
        = [word_of_nat (unat ?n), word_of_nat (unat ?n div 256), word_of_nat (unat ?n div 65536) :: byte]"
      using le_put_4_unat [of ?n] le_put_4 [of ?n] by simp
    ultimately show ?thesis by (simp only: le_put_4_unat)
  qed
  finally have "?m = (word_of_nat (2 + 256 * length p) :: 32 word)"
    by (intro u32.put_inj) simp_all
  then have "unat ?m = unat (word_of_nat (2 + 256 * length p) :: 32 word)" by simp
  then show ?thesis using assms(1) ok by (simp only: unat_of_nat) (simp add: frame_ok_def)
qed

text \<open>No two payloads shorter than 16 MiB are safe from each other: two unsynchronised pushes of
  binary frames on one TCP connection have an interleaving of their writes whose first frame, as
  the peer decodes it, is neither of the two frames sent.\<close>

lemma concurrent_push_corrupts:
  assumes "length p < 2 ^ 24" and "length q < 2 ^ 24"
  shows "\<exists>ws \<in> shuffles (frame_writes OpBinary p) (frame_writes OpBinary q).
    \<forall>f r'. ReadFrame \<lparr>avail = written (snd (run_writes ws buffer)), rerr = ErrEOF\<rparr> = (Ret f, r')
      \<longrightarrow> Payload f \<noteq> p \<and> Payload f \<noteq> q"
proof -
  let ?l = "\<lambda>p :: bytes. le_put 4 (word_of_nat (length p) :: 32 word)"
  have sched: "\<exists>ws \<in> shuffles (frame_writes OpBinary p) (frame_writes OpBinary q).
      \<forall>f r'. ReadFrame \<lparr>avail = written (snd (run_writes ws buffer)), rerr = ErrEOF\<rparr> = (Ret f, r')
      \<longrightarrow> length (Payload f) = 2 + 256 * length p" if "length p < 2 ^ 24" for p q
  proof (intro bexI allI impI)
    fix f r'
    assume "ReadFrame \<lparr>avail = written (snd (run_writes [[2], [2], ?l p, p, ?l q, q] buffer)), rerr = ErrEOF\<rparr> = (Ret f, r')"
    then show "length (Payload f) = 2 + 256 * length p"
      by (rule split_schedule_length [OF that, rotated])
         (simp add: run_writes_concat io_write_def buffer_def)
  qed (simp add: frame_writes_def split_schedule)
  show ?thesis
  proof (cases "length p \<le> length q")
    case True
    from sched [OF assms(2), of p] obtain ws
      where ws: "ws \<in> shuffles (frame_writes OpBinary q) (frame_writes OpBinary p)"
        and len: "\<And>f r'. ReadFrame \<lparr>avail = written (snd (run_writes ws buffer)), rerr = ErrEOF\<rparr> = (Ret f, r')
          \<Longrightarrow> length (Payload f) = 2 + 256 * length q" by blast
    from ws have "ws \<in> shuffles (frame_writes OpBinary p) (frame_writes OpBinary q)"
      by (simp add: shuffles_commutes)
    then show ?thesis using len True by (intro bexI [of _ ws]) force+
  next
    case False
    from sched [OF assms(1), of q] obtain ws
      where ws: "ws \<in> shuffles (frame_writes OpBinary p) (frame_writes OpBinary q)"
        and len: "\<And>f r'. ReadFrame \<lparr>avail = written (snd (run_writes ws buffer)), rerr = ErrEOF\<rparr> = (Ret f, r')
          \<Longrightarrow> length (Payload f) = 2 + 256 * length p" by blast
    then show ?thesis using False by (intro bexI [of _ ws]) force+
  qed
qed

lemma concurrent_push_corrupts_example:
  "\<exists>ws \<in> shuffles (frame_writes OpBinary [1]) (frame_writes OpBinary [2]).
    \<forall>f r'. ReadFrame \<lparr>avail = written (snd (run_writes ws buffer)), rerr = ErrEOF\<rparr> = (Ret f, r')
      \<longrightarrow> Payload f \<noteq> [1] \<and> Payload f \<noteq> [2]"
  by (rule concurrent_push_corrupts) simp_all

end
