(* ===== verification/Event.thy ===== *)
theory Event
  imports Prelude
begin

text \<open>
  \<open>core/event.go\<close>: a one-time event.  The sequential operations come first; then the machine of
  any number of goroutines that call \<open>Fire\<close> at the same time, one step per memory operation of the
  code (\<open>sync.Once\<close> entry, the atomic store, the \<open>close\<close>, the exit of the once body).
\<close>

section \<open>The operations\<close>

record event =
  fired :: bool  \<comment> \<open>the int32 \<open>fired\<close> is 1\<close>
  chan_closed :: bool  \<comment> \<open>the channel \<open>c\<close> has been closed\<close>
  once_done :: bool  \<comment> \<open>\<open>o\<close> has run its body\<close>

definition NewEvent :: event where
  "NewEvent = \<lparr>fired = False, chan_closed = False, once_done = False\<rparr>"

text \<open>Closing a closed channel panics in Go; \<open>Fire\<close> relies on the once to avoid it.\<close>

definition Fire :: "event \<Rightarrow> bool go \<times> event" where
  "Fire e =
     (if once_done e then (Ret False, e)
      else if chan_closed e then (Panics ''close of closed channel'', e\<lparr>fired := True, once_done := True\<rparr>)
      else (Ret True, e\<lparr>fired := True, chan_closed := True, once_done := True\<rparr>))"

definition HasFired :: "event \<Rightarrow> bool" where
  "HasFired e = fired e"

definition Done_ready :: "event \<Rightarrow> bool" where
  "Done_ready e = chan_closed e"

text \<open>The contract of \<open>iface.IEvent\<close>.\<close>

locale one_shot =
  fixes new :: "'e"
    and fire :: "'e \<Rightarrow> bool go \<times> 'e"
    and has_fired :: "'e \<Rightarrow> bool"
    and done_ready :: "'e \<Rightarrow> bool"
    and inv :: "'e \<Rightarrow> bool"
  assumes inv_new: "inv new"
    and new_unfired: "\<not> has_fired new"
    and fire_spec: "inv e \<Longrightarrow> fst (fire e) = Ret (\<not> has_fired e) \<and> has_fired (snd (fire e)) \<and> inv (snd (fire e))"
    and ready_iff: "inv e \<Longrightarrow> done_ready e = has_fired e"
begin

fun fire_times :: "nat \<Rightarrow> 'e \<Rightarrow> bool go list \<times> 'e" where
  "fire_times 0 e = ([], e)"
| "fire_times (Suc n) e =
     (let (b, e1) = fire e; (bs, e2) = fire_times n e1 in (b # bs, e2))"

lemma fire_times_after: "inv e \<Longrightarrow> has_fired e \<Longrightarrow>
    fst (fire_times n e) = replicate n (Ret False)"
  by (induction n arbitrary: e) (simp_all add: fire_spec split_beta)

lemma fire_times_new: "fst (fire_times (Suc n) new) = Ret True # replicate n (Ret False)"
  using fire_spec [OF inv_new] new_unfired
  by (simp add: split_beta fire_times_after)

end

interpretation ev: one_shot NewEvent Fire HasFired Done_ready
  "\<lambda>e. fired e = once_done e \<and> chan_closed e = once_done e"
  by unfold_locales (auto simp: NewEvent_def Fire_def HasFired_def Done_ready_def)

section \<open>Concurrent calls\<close>

datatype fire_pc = FIdle | FStore | FClose | FUnlock | FRet bool | FPanic

record fire_sys =
  ev_fired :: bool
  ev_closed :: bool
  ev_once :: bool
  ev_lock :: "nat option"
  ev_pc :: "nat \<Rightarrow> fire_pc"

definition fire_init :: fire_sys where
  "fire_init = \<lparr>ev_fired = False, ev_closed = False, ev_once = False, ev_lock = None, ev_pc = (\<lambda>_. FIdle)\<rparr>"

inductive fire_step :: "fire_sys \<Rightarrow> fire_sys \<Rightarrow> bool" where
  late: "ev_pc s g = FIdle \<Longrightarrow> ev_once s \<Longrightarrow> fire_step s (s\<lparr>ev_pc := (ev_pc s)(g := FRet False)\<rparr>)"
| enter: "ev_pc s g = FIdle \<Longrightarrow> \<not> ev_once s \<Longrightarrow> ev_lock s = None \<Longrightarrow>
    fire_step s (s\<lparr>ev_lock := Some g, ev_pc := (ev_pc s)(g := FStore)\<rparr>)"
| store: "ev_pc s g = FStore \<Longrightarrow>
    fire_step s (s\<lparr>ev_fired := True, ev_pc := (ev_pc s)(g := FClose)\<rparr>)"
| close: "ev_pc s g = FClose \<Longrightarrow> \<not> ev_closed s \<Longrightarrow>
    fire_step s (s\<lparr>ev_closed := True, ev_pc := (ev_pc s)(g := FUnlock)\<rparr>)"
| close_twice: "ev_pc s g = FClose \<Longrightarrow> ev_closed s \<Longrightarrow>
    fire_step s (s\<lparr>ev_pc := (ev_pc s)(g := FPanic)\<rparr>)"
| unlock: "ev_pc s g = FUnlock \<Longrightarrow>
    fire_step s (s\<lparr>ev_once := True, ev_lock := None, ev_pc := (ev_pc s)(g := FRet True)\<rparr>)"

inductive fire_reachable :: "fire_sys \<Rightarrow> bool" where
  start: "fire_reachable fire_init"
| step: "fire_reachable s \<Longrightarrow> fire_step s t \<Longrightarrow> fire_reachable t"

definition in_body :: "fire_pc \<Rightarrow> bool" where
  "in_body p \<longleftrightarrow> p \<in> {FStore, FClose, FUnlock}"

definition fire_inv :: "fire_sys \<Rightarrow> bool" where
  "fire_inv s \<longleftrightarrow>
     (\<forall>g. in_body (ev_pc s g) \<longleftrightarrow> ev_lock s = Some g) \<and>
     (\<forall>g. ev_pc s g \<noteq> FPanic) \<and>
     (\<forall>g. ev_pc s g \<in> {FStore, FClose} \<longrightarrow> \<not> ev_closed s) \<and>
     (\<forall>g. ev_pc s g \<in> {FClose, FUnlock} \<longrightarrow> ev_fired s) \<and>
     (\<forall>g. ev_pc s g = FUnlock \<longrightarrow> ev_closed s) \<and>
     (\<forall>g b. ev_pc s g = FRet b \<longrightarrow> ev_once s) \<and>
     (ev_lock s \<noteq> None \<longrightarrow> \<not> ev_once s) \<and>
     (ev_once s \<longrightarrow> ev_closed s) \<and>
     (ev_closed s \<longrightarrow> ev_fired s) \<and>
     (ev_closed s \<longrightarrow> ev_once s \<or> ev_lock s \<noteq> None) \<and>
     (\<forall>g h. ev_pc s g = FRet True \<longrightarrow> ev_pc s h = FRet True \<longrightarrow> g = h)"

lemma fire_inv_init: "fire_inv fire_init"
  by (simp add: fire_inv_def fire_init_def in_body_def)

lemma fire_inv_step: "fire_step s t \<Longrightarrow> fire_inv s \<Longrightarrow> fire_inv t"
  by (induction rule: fire_step.induct)
     (auto simp: fire_inv_def in_body_def split: if_splits; metis fire_pc.distinct option.distinct(1) option.inject)+

lemma fire_reachable_inv: "fire_reachable s \<Longrightarrow> fire_inv s"
  by (induction rule: fire_reachable.induct) (auto intro: fire_inv_init fire_inv_step)


text \<open>A run in which goroutine 0 fires and goroutine 1 comes second.\<close>

definition fire_demo :: fire_sys where
  "fire_demo = \<lparr>ev_fired = True, ev_closed = True, ev_once = True, ev_lock = None,
     ev_pc = (\<lambda>_. FIdle)(0 := FRet True, 1 := FRet False)\<rparr>"

lemma fire_demo_reachable: "fire_reachable fire_demo"
proof -
  let ?p = "\<lambda>f c d l p. \<lparr>ev_fired = f, ev_closed = c, ev_once = d, ev_lock = l, ev_pc = (\<lambda>_. FIdle)(0 := p)\<rparr>"
  have "fire_reachable (?p False False False (Some 0) FStore)"
    using fire_reachable.step [OF fire_reachable.start fire_step.enter [of fire_init 0]]
    by (simp add: fire_init_def)
  from fire_reachable.step [OF this fire_step.store [of _ 0]]
  have "fire_reachable (?p True False False (Some 0) FClose)" by simp
  from fire_reachable.step [OF this fire_step.close [of _ 0]]
  have "fire_reachable (?p True True False (Some 0) FUnlock)" by simp
  from fire_reachable.step [OF this fire_step.unlock [of _ 0]]
  have "fire_reachable (?p True True True None (FRet True))" by simp
  from fire_reachable.step [OF this fire_step.late [of _ 1]]
  show ?thesis by (simp add: fire_demo_def)
qed


end
