(* ===== verification/Channel.thy ===== *)
theory Channel
  imports TcpFrame Event
begin

text \<open>
  \<open>core/channel.go\<close>: the channel that wraps a connection.  Its sequential operations (constructor,
  \<open>Push\<close>, \<open>Close\<close>, the setters), the read loop over any connection, and the machine of the write
  loop against the closing goroutine.
\<close>

section \<open>The channel and its operations\<close>

text \<open>
  A connection as the channel sees it (\<open>iface.IConn\<close>): the frames still to come and the writes
  accepted.  This is the instance for \<open>tcp.TcpConn\<close>.
\<close>

record tcp_conn =
  rd :: reader
  wr :: writer

definition tcp_ReadFrame :: "tcp_conn \<Rightarrow> frame go \<times> tcp_conn" where
  "tcp_ReadFrame c = (let (f, r) = ReadFrame (rd c) in (f, c\<lparr>rd := r\<rparr>))"

definition tcp_WriteFrame :: "tcp_conn \<Rightarrow> opcode \<Rightarrow> bytes \<Rightarrow> unit go \<times> tcp_conn" where
  "tcp_WriteFrame c code payload = (let (e, w) = WriteFrame (wr c) code payload in (e, c\<lparr>wr := w\<rparr>))"

definition tcp_Flush :: "tcp_conn \<Rightarrow> unit go \<times> tcp_conn" where
  "tcp_Flush c = (Ret (), c)"

record 'c channel =
  ch_id :: string
  IConn :: 'c
  ch_meta :: "(string \<rightharpoonup> string) option"
  writechan :: "bytes list"
  writechan_closed :: bool
  ch_once :: bool
  writewait :: int
  readwait :: int
  closed_event :: event

text \<open>Durations are nanoseconds; \<open>meta\<close> stays nil, no code assigns it.\<close>

definition second :: int where "second = 1000000000"

definition NewChannel :: "string \<Rightarrow> 'c \<Rightarrow> 'c channel" where
  "NewChannel i c =
     \<lparr>ch_id = i, IConn = c, ch_meta = None, writechan = [], writechan_closed = False,
      ch_once = False, writewait = 3 * second, readwait = 3 * second, closed_event = NewEvent\<rparr>"

definition ch_GetMeta :: "'c channel \<Rightarrow> (string \<rightharpoonup> string) option" where
  "ch_GetMeta ch = ch_meta ch"

definition SetWriteWait :: "int \<Rightarrow> 'c channel \<Rightarrow> 'c channel" where
  "SetWriteWait t ch = ch\<lparr>writewait := t\<rparr>"

definition SetReadWait :: "int \<Rightarrow> 'c channel \<Rightarrow> 'c channel" where
  "SetReadWait t ch = ch\<lparr>readwait := t\<rparr>"

definition ch_Push ::
    "('c \<Rightarrow> opcode \<Rightarrow> bytes \<Rightarrow> unit go \<times> 'c) \<Rightarrow> 'c channel \<Rightarrow> bytes \<Rightarrow> unit go \<times> 'c channel" where
  "ch_Push wfr ch payload =
     (if length payload = 0 then (Ret (), ch)
      else let (e, c) = wfr (IConn ch) OpBinary payload in (e, ch\<lparr>IConn := c\<rparr>))"

text \<open>The once makes the second \<open>close(ch.writechan)\<close> unreachable; closing twice would panic.\<close>

definition ch_Close :: "'c channel \<Rightarrow> unit go \<times> 'c channel" where
  "ch_Close ch =
     (if ch_once ch then (Ret (), ch)
      else if writechan_closed ch then (Panics ''close of closed channel'', ch\<lparr>ch_once := True\<rparr>)
      else
        let (b, e) = Fire (closed_event ch)
        in case b of
             Panics m \<Rightarrow> (Panics m, ch\<lparr>ch_once := True, writechan_closed := True, closed_event := e\<rparr>)
           | _ \<Rightarrow> (Ret (), ch\<lparr>ch_once := True, writechan_closed := True, closed_event := e\<rparr>))"

definition closing_inv :: "'c channel \<Rightarrow> bool" where
  "closing_inv ch \<longleftrightarrow> writechan_closed ch = ch_once ch \<and> fired (closed_event ch) = ch_once ch
     \<and> chan_closed (closed_event ch) = ch_once ch \<and> once_done (closed_event ch) = ch_once ch"

lemma closing_inv_New [simp]: "closing_inv (NewChannel i c)"
  by (simp add: closing_inv_def NewChannel_def NewEvent_def)

lemma closing_inv_setters [simp]:
  "closing_inv (SetReadWait t ch) = closing_inv ch" "closing_inv (SetWriteWait t ch) = closing_inv ch"
  "closing_inv (snd (ch_Push wfr ch p)) = closing_inv ch"
  by (auto simp: closing_inv_def SetReadWait_def SetWriteWait_def ch_Push_def split: prod.splits)

fun close_times :: "nat \<Rightarrow> 'c channel \<Rightarrow> unit go \<times> 'c channel" where
  "close_times 0 ch = (Ret (), ch)"
| "close_times (Suc n) ch = go_bind (ch_Close ch) (\<lambda>_ ch1. close_times n ch1)"

lemma ch_Close_once: "closing_inv ch \<Longrightarrow> ch_once ch \<Longrightarrow> ch_Close ch = (Ret (), ch)"
  by (simp add: ch_Close_def)

lemma close_times_once: "closing_inv ch \<Longrightarrow> ch_once ch \<Longrightarrow> close_times n ch = (Ret (), ch)"
  by (induction n) (simp_all add: ch_Close_once)

lemma ch_Close_first:
  assumes "closing_inv ch" "\<not> ch_once ch"
  shows "ch_Close ch = (Ret (), ch\<lparr>ch_once := True, writechan_closed := True,
    closed_event := \<lparr>fired = True, chan_closed = True, once_done = True\<rparr>\<rparr>)"
  using assms by (simp add: ch_Close_def closing_inv_def Fire_def)

text \<open>Closing a channel any positive number of times never panics, closes its write queue and
  fires its close event exactly as one \<open>Close\<close> does, and leaves the network connection as it was:
  \<open>Channel.Close\<close> never closes the connection it wraps.\<close>

lemma close_idempotent:
  assumes "closing_inv ch"
  shows "close_times (Suc n) ch = ch_Close ch
    \<and> fst (ch_Close ch) = Ret ()
    \<and> writechan_closed (snd (ch_Close ch)) \<and> HasFired (closed_event (snd (ch_Close ch)))
    \<and> IConn (snd (ch_Close ch)) = IConn ch"
proof (cases "ch_once ch")
  case True
  with assms show ?thesis
    by (simp add: ch_Close_once close_times_once HasFired_def closing_inv_def)
next
  case False
  let ?ch = "ch\<lparr>ch_once := True, writechan_closed := True,
    closed_event := \<lparr>fired = True, chan_closed = True, once_done = True\<rparr>\<rparr>"
  have "closing_inv ?ch" by (simp add: closing_inv_def)
  then have "close_times n ?ch = (Ret (), ?ch)" by (simp add: close_times_once)
  then show ?thesis using ch_Close_first [OF assms False] by (simp add: HasFired_def)
qed

lemma close_idempotent_example:
  "IConn (snd (ch_Close (NewChannel ''a'' (7 :: nat)))) = 7
   \<and> close_times 3 (NewChannel ''a'' (7 :: nat)) = ch_Close (NewChannel ''a'' 7)"
  using close_idempotent [OF closing_inv_New, of 2 "''a''" "7 :: nat"]
  by (simp add: NewChannel_def numeral_3_eq_3 del: close_times.simps)

section \<open>The read loop\<close>

text \<open>
  \<open>Readloop\<close> over any connection: \<open>rfr\<close> is its \<open>ReadFrame\<close>, \<open>wfr\<close> its \<open>WriteFrame\<close>.  The result is
  how the loop ends, the connection, and the payloads for which \<open>go lst.Receive(ch, payload)\<close> was
  started, in order; \<open>None\<close> is a loop that goes on for ever.  The deadline set before each read
  shows as an error of \<open>rfr\<close>; the error of the pong is ignored, as in the code.
\<close>

partial_function (option) Readloop ::
    "('c \<Rightarrow> frame go \<times> 'c) \<Rightarrow> ('c \<Rightarrow> opcode \<Rightarrow> bytes \<Rightarrow> unit go \<times> 'c) \<Rightarrow> 'c \<Rightarrow> bytes list
       \<Rightarrow> (unit go \<times> 'c \<times> bytes list) option" where
  "Readloop rfr wfr c started =
     (case rfr c of
        (Fail e, c1) \<Rightarrow> Some (Fail e, c1, started)
      | (Panics m, c1) \<Rightarrow> Some (Panics m, c1, started)
      | (Ret fr, c1) \<Rightarrow>
          if GetOpCode fr = OpClose
          then Some (Fail (ErrMsg ''remote side close the channe''), c1, started)
          else if GetOpCode fr = OpPing then Readloop rfr wfr (snd (wfr c1 OpPong [])) started
          else if length (GetPayload fr) = 0 then Readloop rfr wfr c1 started
          else Readloop rfr wfr c1 (started @ [GetPayload fr]))"

text \<open>What a list of frames should cause: the frames up to the first close, without the pings.\<close>

definition before_close :: "frame list \<Rightarrow> frame list" where
  "before_close fs = takeWhile (\<lambda>f. OpCode f \<noteq> OpClose) fs"

definition deliveries :: "frame list \<Rightarrow> bytes list" where
  "deliveries fs = map Payload (filter (\<lambda>f. OpCode f \<noteq> OpPing \<and> Payload f \<noteq> []) (before_close fs))"

definition pongs :: "frame list \<Rightarrow> bytes" where
  "pongs fs = concat (map (\<lambda>_. frame_enc \<lparr>OpCode = OpPong, Payload = []\<rparr>)
     (filter (\<lambda>f. OpCode f = OpPing) (before_close fs)))"

definition loop_error :: "frame list \<Rightarrow> error \<Rightarrow> error" where
  "loop_error fs e = (if \<exists>f \<in> set fs. OpCode f = OpClose
     then ErrMsg ''remote side close the channe'' else e)"

definition loop_rest :: "frame list \<Rightarrow> bytes" where
  "loop_rest fs = concat (map frame_enc (drop 1 (dropWhile (\<lambda>f. OpCode f \<noteq> OpClose) fs)))"

lemmas loop_spec_defs = before_close_def deliveries_def pongs_def loop_error_def loop_rest_def

lemma tcp_ReadFrame_enc:
  "frame_ok f \<Longrightarrow> avail (rd c) = frame_enc f @ rest \<Longrightarrow>
     tcp_ReadFrame c = (Ret f, c\<lparr>rd := (rd c)\<lparr>avail := rest\<rparr>\<rparr>)"
  by (simp add: tcp_ReadFrame_def fr.get_put)

lemma tcp_ReadFrame_end:
  "avail (rd c) = [] \<Longrightarrow> tcp_ReadFrame c = (Fail (rerr (rd c)), c)"
  by (simp add: tcp_ReadFrame_def ReadFrame_def ReadUint8_def read_full_def)

lemma tcp_WriteFrame_healthy:
  "room (wr c) = None \<Longrightarrow> tcp_WriteFrame c code p =
     (Ret (), c\<lparr>wr := (wr c)\<lparr>written := written (wr c) @ frame_enc \<lparr>OpCode = code, Payload = p\<rparr>\<rparr>\<rparr>)"
  by (simp add: tcp_WriteFrame_def WriteFrame_eq io_write_None)

lemma Readloop_frames:
  assumes "\<forall>f \<in> set fs. frame_ok f" and "room (wr c) = None"
    and "avail (rd c) = concat (map frame_enc fs)"
  shows "Readloop tcp_ReadFrame tcp_WriteFrame c started =
    Some (Fail (loop_error fs (rerr (rd c))),
          c\<lparr>rd := (rd c)\<lparr>avail := loop_rest fs\<rparr>, wr := (wr c)\<lparr>written := written (wr c) @ pongs fs\<rparr>\<rparr>,
          started @ deliveries fs)"
  using assms
proof (induction fs arbitrary: c started)
  case Nil
  then show ?case
    by (subst Readloop.simps) (simp add: tcp_ReadFrame_end loop_spec_defs)
next
  case (Cons f fs)
  let ?c1 = "c\<lparr>rd := (rd c)\<lparr>avail := concat (map frame_enc fs)\<rparr>\<rparr>"
  have rfr: "tcp_ReadFrame c = (Ret f, ?c1)"
    using Cons.prems by (intro tcp_ReadFrame_enc) simp_all
  have ok: "\<forall>f \<in> set fs. frame_ok f" using Cons.prems(1) by simp
  consider "OpCode f = 8" | "OpCode f = 9" | "OpCode f \<noteq> 8" "OpCode f \<noteq> 9" by blast
  then show ?case
  proof cases
    case 1
    then show ?thesis using rfr
      by (subst Readloop.simps) (simp add: loop_spec_defs)
  next
    case 2
    let ?c2 = "?c1\<lparr>wr := (wr c)\<lparr>written := written (wr c) @ frame_enc \<lparr>OpCode = OpPong, Payload = []\<rparr>\<rparr>\<rparr>"
    have "tcp_WriteFrame ?c1 OpPong [] = (Ret (), ?c2)"
      using Cons.prems(2) by (subst tcp_WriteFrame_healthy) simp_all
    moreover have "Readloop tcp_ReadFrame tcp_WriteFrame ?c2 started =
      Some (Fail (loop_error fs (rerr (rd ?c2))),
          ?c2\<lparr>rd := (rd ?c2)\<lparr>avail := loop_rest fs\<rparr>, wr := (wr ?c2)\<lparr>written := written (wr ?c2) @ pongs fs\<rparr>\<rparr>,
          started @ deliveries fs)"
      using Cons.prems(2) by (intro Cons.IH ok) simp_all
    ultimately show ?thesis using 2 rfr
      by (subst Readloop.simps) (simp add: loop_spec_defs)
  next
    case 3
    have "Readloop tcp_ReadFrame tcp_WriteFrame ?c1 s =
      Some (Fail (loop_error fs (rerr (rd ?c1))),
          ?c1\<lparr>rd := (rd ?c1)\<lparr>avail := loop_rest fs\<rparr>, wr := (wr ?c1)\<lparr>written := written (wr ?c1) @ pongs fs\<rparr>\<rparr>,
          s @ deliveries fs)" for s
      using Cons.prems(2) by (intro Cons.IH ok) simp_all
    with 3 rfr show ?thesis
      by (subst Readloop.simps) (simp add: loop_spec_defs)
  qed
qed

text \<open>
  The contract of a connection that the read loop needs to come to an end: every frame read makes
  what is left to read smaller, and writing does not add to it.
\<close>

locale frame_conn =
  fixes rfr :: "'c \<Rightarrow> frame go \<times> 'c"
    and wfr :: "'c \<Rightarrow> opcode \<Rightarrow> bytes \<Rightarrow> unit go \<times> 'c"
    and left :: "'c \<Rightarrow> nat"
  assumes rfr_shrinks: "rfr c = (Ret f, c1) \<Longrightarrow> left c1 < left c"
    and rfr_no_panic: "rfr c \<noteq> (Panics m, c1)"
    and wfr_left: "left (snd (wfr c code p)) = left c"
begin

lemma Readloop_returns: "\<exists>e c' ds. Readloop rfr wfr c s = Some (Fail e, c', s @ ds)"
proof (induction "left c" arbitrary: c s rule: less_induct)
  case less
  obtain x c1 where r: "rfr c = (x, c1)" by force
  show ?case
  proof (cases x)
    case (Fail e)
    then show ?thesis using r by (subst Readloop.simps) simp
  next
    case (Panics m)
    then show ?thesis using r rfr_no_panic by blast
  next
    case (Ret f)
    with r have lt: "left c1 < left c" by (simp add: rfr_shrinks)
    have "\<exists>e c' ds. Readloop rfr wfr (snd (wfr c1 OpPong [])) s = Some (Fail e, c', s @ ds)"
      using lt by (intro less) (simp add: wfr_left)
    moreover have "\<exists>e c' ds. Readloop rfr wfr c1 s = Some (Fail e, c', s @ ds)"
      using lt by (rule less)
    moreover have "\<exists>e c' ds. Readloop rfr wfr c1 (s @ [Payload f]) = Some (Fail e, c', s @ ds)"
      using less [OF lt, of "s @ [Payload f]"] by fastforce
    ultimately show ?thesis using r Ret
      by (subst Readloop.simps) simp
  qed
qed

end

interpretation tcpc: frame_conn tcp_ReadFrame tcp_WriteFrame "\<lambda>c. length (avail (rd c))"
proof
  fix c f c1
  assume "tcp_ReadFrame c = (Ret f, c1)"
  then show "length (avail (rd c1)) < length (avail (rd c))"
    by (auto simp: tcp_ReadFrame_def dest: ReadFrame_shrinks split: prod.splits)
next
  fix c m c1
  show "tcp_ReadFrame c \<noteq> (Panics m, c1)"
    using fr.get_no_panic by (auto simp: tcp_ReadFrame_def split: prod.splits)
next
  fix c code p
  show "length (avail (rd (snd (tcp_WriteFrame c code p)))) = length (avail (rd c))"
    by (simp add: tcp_WriteFrame_def split: prod.splits)
qed

text \<open>C37: Whatever bytes a peer sends on a TCP connection before it ends, the read loop of the channel
  comes to an end, with a non-nil error and without a panic.\<close>

theorem readloop_terminates:
  "\<exists>e c' ds. Readloop tcp_ReadFrame tcp_WriteFrame c [] = Some (Fail e, c', ds)"
  using tcpc.Readloop_returns [of c "[]"] by simp

text \<open>C25: The frames a peer writes with \<open>WriteFrame\<close> reach the listener as sent: the read loop starts
  \<open>Receive\<close> once for every non-empty frame that is not a ping, up to the first close, in order;
  it answers each ping with one pong; and it returns the close error, or the connection's own.\<close>

theorem readloop_delivers:
  assumes "\<forall>f \<in> set fs. frame_ok f" and "write_frames fs buffer = (Ret (), w)"
    and "rd c = \<lparr>avail = written w, rerr = e\<rparr>" and "room (wr c) = None"
  shows "\<exists>c'. Readloop tcp_ReadFrame tcp_WriteFrame c [] = Some (Fail (loop_error fs e), c', deliveries fs)
    \<and> written (wr c') = written (wr c) @ pongs fs
    \<and> avail (rd c') = loop_rest fs"
proof -
  have "avail (rd c) = concat (map frame_enc fs)"
    using assms(2,3) write_frames_eq [of buffer fs] by (auto simp: buffer_def)
  from Readloop_frames [OF assms(1,4) this, of "[]"] assms(3) show ?thesis by simp
qed

theorem readloop_delivers_witness:
  "\<exists>c'. Readloop tcp_ReadFrame tcp_WriteFrame
       \<lparr>rd = \<lparr>avail = [9, 0, 0, 0, 0, 2, 1, 0, 0, 0, 65], rerr = ErrEOF\<rparr>, wr = buffer\<rparr> []
     = Some (Fail ErrEOF, c', [[65]]) \<and> written (wr c') = [10, 0, 0, 0, 0] \<and> avail (rd c') = []"
proof -
  let ?fs = "[\<lparr>OpCode = 9, Payload = []\<rparr>, \<lparr>OpCode = 2, Payload = [65]\<rparr>]"
  let ?w = "\<lparr>written = [9, 0, 0, 0, 0, 2, 1, 0, 0, 0, 65], room = None\<rparr>"
  let ?c = "\<lparr>rd = \<lparr>avail = written ?w, rerr = ErrEOF\<rparr>, wr = buffer\<rparr>"
  have w: "write_frames ?fs buffer = (Ret (), ?w)"
    by (simp only: write_frames_eq buffer_def writer.simps) (simp add: frame_enc_def bytes_enc_def le_put_4)
  have ok: "\<forall>f \<in> set ?fs. frame_ok f" by (simp add: frame_ok_def)
  from readloop_delivers [OF ok w, of ?c ErrEOF] show ?thesis
    by (simp add: buffer_def loop_spec_defs frame_enc_def bytes_enc_def le_put_4)
qed

section \<open>The write loop against Close\<close>

text \<open>
  \<open>wirteloop\<close> runs in its own goroutine from \<open>NewChannel\<close> on.  Its steps are the arms of the
  \<open>select\<close>, the draining of what is queued, and the flush; \<open>Close\<close> is two steps inside its once,
  \<open>close(ch.writechan)\<close> and then \<open>ch.closed.Fire()\<close>.  No code sends on \<open>writechan\<close>.  A receive
  takes the oldest queued payload, yields a nil payload when the queue is empty and closed, and
  blocks otherwise; a write to the connection may succeed or fail.
\<close>

datatype wl_pc = WSelect | WDrain nat | WFlush | WReturned "error option"
datatype close_pc = COpen | CMid | CClosed

record wl_state =
  wl_queue :: "bytes list"
  wl_queue_closed :: bool
  wl_fired :: bool
  wl_at :: wl_pc
  wl_close :: close_pc
  wl_out :: "frame list"

definition wl_init :: wl_state where
  "wl_init = \<lparr>wl_queue = [], wl_queue_closed = False, wl_fired = False, wl_at = WSelect,
     wl_close = COpen, wl_out = []\<rparr>"

fun wl_recv :: "bytes list \<Rightarrow> bool \<Rightarrow> (bytes \<times> bytes list) option" where
  "wl_recv (p # q) _ = Some (p, q)"
| "wl_recv [] True = Some ([], [])"
| "wl_recv [] False = None"

inductive wl_step :: "wl_state \<Rightarrow> wl_state \<Rightarrow> bool" where
  sel_recv: "wl_at s = WSelect \<Longrightarrow> wl_recv (wl_queue s) (wl_queue_closed s) = Some (p, q) \<Longrightarrow>
    wl_step s (s\<lparr>wl_queue := q, wl_out := wl_out s @ [\<lparr>OpCode = OpBinary, Payload = p\<rparr>],
      wl_at := WDrain (length q)\<rparr>)"
| sel_recv_fail: "wl_at s = WSelect \<Longrightarrow> wl_recv (wl_queue s) (wl_queue_closed s) = Some (p, q) \<Longrightarrow>
    wl_step s (s\<lparr>wl_queue := q, wl_at := WReturned (Some e)\<rparr>)"
| sel_done: "wl_at s = WSelect \<Longrightarrow> wl_fired s \<Longrightarrow> wl_step s (s\<lparr>wl_at := WReturned None\<rparr>)"
| drain: "wl_at s = WDrain (Suc n) \<Longrightarrow> wl_recv (wl_queue s) (wl_queue_closed s) = Some (p, q) \<Longrightarrow>
    wl_step s (s\<lparr>wl_queue := q, wl_out := wl_out s @ [\<lparr>OpCode = OpBinary, Payload = p\<rparr>],
      wl_at := WDrain n\<rparr>)"
| drain_fail: "wl_at s = WDrain (Suc n) \<Longrightarrow> wl_recv (wl_queue s) (wl_queue_closed s) = Some (p, q) \<Longrightarrow>
    wl_step s (s\<lparr>wl_queue := q, wl_at := WReturned (Some e)\<rparr>)"
| drained: "wl_at s = WDrain 0 \<Longrightarrow> wl_step s (s\<lparr>wl_at := WFlush\<rparr>)"
| flush: "wl_at s = WFlush \<Longrightarrow> wl_step s (s\<lparr>wl_at := WSelect\<rparr>)"
| flush_fail: "wl_at s = WFlush \<Longrightarrow> wl_step s (s\<lparr>wl_at := WReturned (Some e)\<rparr>)"
| close_queue: "wl_close s = COpen \<Longrightarrow> wl_step s (s\<lparr>wl_queue_closed := True, wl_close := CMid\<rparr>)"
| close_fire: "wl_close s = CMid \<Longrightarrow> wl_step s (s\<lparr>wl_fired := True, wl_close := CClosed\<rparr>)"

inductive wl_reachable :: "wl_state \<Rightarrow> bool" where
  start: "wl_reachable wl_init"
| step: "wl_reachable s \<Longrightarrow> wl_step s t \<Longrightarrow> wl_reachable t"

definition wl_inv :: "wl_state \<Rightarrow> bool" where
  "wl_inv s \<longleftrightarrow> wl_queue s = [] \<and> (wl_queue_closed s \<longleftrightarrow> wl_close s \<noteq> COpen)
     \<and> (wl_fired s \<longleftrightarrow> wl_close s = CClosed)
     \<and> (\<forall>f \<in> set (wl_out s). f = \<lparr>OpCode = OpBinary, Payload = []\<rparr>)
     \<and> (wl_close s = COpen \<longrightarrow> wl_out s = [] \<and> wl_at s = WSelect)
     \<and> (\<forall>n. wl_at s = WDrain n \<longrightarrow> n = 0)"

lemma wl_recv_Nil [simp]: "wl_recv [] b = Some (p, q) \<longleftrightarrow> b \<and> p = [] \<and> q = []"
  by (cases b) auto

lemma wl_inv_step: "wl_step s t \<Longrightarrow> wl_inv s \<Longrightarrow> wl_inv t"
  by (induction rule: wl_step.induct) (auto simp: wl_inv_def)

lemma wl_reachable_inv: "wl_reachable s \<Longrightarrow> wl_inv s"
proof (induction rule: wl_reachable.induct)
  case start
  show ?case by (simp add: wl_inv_def wl_init_def)
next
  case (step s t)
  then show ?case by (blast intro: wl_inv_step)
qed

text \<open>The write loop never carries a message: in every reachable state each frame it has put on the
  connection is an empty binary frame, and it has put none before \<open>Close\<close> began.\<close>

lemma writeloop_only_empty:
  assumes "wl_reachable s"
  shows "(\<forall>f \<in> set (wl_out s). OpCode f = OpBinary \<and> Payload f = [])
    \<and> (wl_close s = COpen \<longrightarrow> wl_out s = [] \<and> wl_at s = WSelect)"
  using wl_reachable_inv [OF assms] by (auto simp: wl_inv_def)

text \<open>The loop in the middle of a \<open>Close\<close>: the queue is closed, the event has not fired yet.\<close>

definition wl_spinning :: "nat \<Rightarrow> wl_state" where
  "wl_spinning n = \<lparr>wl_queue = [], wl_queue_closed = True, wl_fired = False, wl_at = WSelect,
     wl_close = CMid, wl_out = replicate n \<lparr>OpCode = OpBinary, Payload = []\<rparr>\<rparr>"

lemma wl_spinning_reachable: "wl_reachable (wl_spinning n)"
proof (induction n)
  case 0
  show ?case
    using wl_reachable.step [OF wl_reachable.start wl_step.close_queue [of wl_init]]
    by (simp add: wl_spinning_def wl_init_def)
next
  case (Suc n)
  from wl_reachable.step [OF Suc wl_step.sel_recv [of _ "[]" "[]"]]
  have "wl_reachable (wl_spinning (Suc n)\<lparr>wl_at := WDrain 0\<rparr>)"
    by (simp add: wl_spinning_def replicate_append_same)
  from wl_reachable.step [OF this wl_step.drained]
  have "wl_reachable (wl_spinning (Suc n)\<lparr>wl_at := WFlush\<rparr>)" by simp
  from wl_reachable.step [OF this wl_step.flush]
  show ?case by (simp add: wl_spinning_def)
qed

lemma writeloop_only_empty_example:
  "OpCode (hd (wl_out (wl_spinning 1))) = OpBinary \<and> Payload (hd (wl_out (wl_spinning 1))) = []
    \<and> wl_out (wl_spinning 1) \<noteq> []"
  using writeloop_only_empty [OF wl_spinning_reachable [of 1]] by (simp add: wl_spinning_def)

text \<open>Between the two steps of \<open>Close\<close> the write loop can spin: for every number \<open>n\<close> there is a run in
  which it puts \<open>n\<close> empty binary frames on the connection before the close event fires, and from
  there it can stop as soon as the event has fired.\<close>

lemma writeloop_spins:
  "\<exists>s t. wl_reachable s \<and> wl_close s = CMid \<and> length (wl_out s) = n
     \<and> wl_reachable t \<and> wl_close t = CClosed \<and> wl_at t = WReturned None \<and> wl_out t = wl_out s"
proof -
  let ?s = "wl_spinning n"
  from wl_reachable.step [OF wl_spinning_reachable wl_step.close_fire [of ?s]]
  have "wl_reachable (?s\<lparr>wl_fired := True, wl_close := CClosed\<rparr>)" by (simp add: wl_spinning_def)
  from wl_reachable.step [OF this wl_step.sel_done]
  have "wl_reachable (?s\<lparr>wl_fired := True, wl_close := CClosed, wl_at := WReturned None\<rparr>)"
    by (simp add: wl_spinning_def)
  with wl_spinning_reachable [of n] show ?thesis
    by (intro exI [of _ ?s] exI [of _ "?s\<lparr>wl_fired := True, wl_close := CClosed, wl_at := WReturned None\<rparr>"])
       (simp add: wl_spinning_def)
qed

end
