(* ===== verification/WsFrame.thy ===== *)
theory WsFrame
  imports Channel
begin

text \<open>
  \<open>websocket/frame.go\<close> and \<open>websocket/connection.go\<close>: the frame and the connection the WebSocket
  server gives to a channel.  The library that reads, writes and masks frames is a parameter; a
  frame of a client arrives masked and is unmasked when its payload is first asked for.
\<close>

section \<open>Frame\<close>

text \<open>What the wrapper uses of a \<open>ws.Frame\<close> and its header; the library's calls it makes.\<close>

record ws_frame =
  raw_OpCode :: opcode
  raw_Masked :: bool
  raw_Mask :: bytes
  raw_Payload :: bytes

record 'n ws_lib =
  wl_Cipher :: "bytes \<Rightarrow> bytes \<Rightarrow> nat \<Rightarrow> bytes"   \<comment> \<open>payload, mask, offset\<close>
  wl_NewFrame :: "opcode \<Rightarrow> bool \<Rightarrow> bytes \<Rightarrow> ws_frame"
  wl_ReadFrame :: "'n \<Rightarrow> (error + ws_frame) \<times> 'n"
  wl_WriteFrame :: "'n \<Rightarrow> ws_frame \<Rightarrow> error option \<times> 'n"

definition ws_SetOpCode :: "opcode \<Rightarrow> ws_frame \<Rightarrow> ws_frame" where
  "ws_SetOpCode code f = f\<lparr>raw_OpCode := code\<rparr>"

definition ws_GetOpCode :: "ws_frame \<Rightarrow> opcode" where
  "ws_GetOpCode f = raw_OpCode f"

definition ws_SetPayload :: "bytes \<Rightarrow> ws_frame \<Rightarrow> ws_frame" where
  "ws_SetPayload payload f = f\<lparr>raw_Payload := payload\<rparr>"

text \<open>\<open>Cipher\<close> works in place; the flag is cleared, so the second call finds the payload in clear.\<close>

definition ws_GetPayload :: "'n ws_lib \<Rightarrow> ws_frame \<Rightarrow> bytes \<times> ws_frame" where
  "ws_GetPayload W f =
     (let f1 = (if raw_Masked f then f\<lparr>raw_Payload := wl_Cipher W (raw_Payload f) (raw_Mask f) 0\<rparr> else f);
          f2 = f1\<lparr>raw_Masked := False\<rparr>
      in (raw_Payload f2, f2))"

section \<open>WsConn\<close>

definition WsConn_ReadFrame :: "'n ws_lib \<Rightarrow> 'n \<Rightarrow> ws_frame go \<times> 'n" where
  "WsConn_ReadFrame W c =
     (case wl_ReadFrame W c of
        (Inl e, c1) \<Rightarrow> (Fail e, c1)
      | (Inr f, c1) \<Rightarrow> (Ret f, c1))"

definition WsConn_WriteFrame :: "'n ws_lib \<Rightarrow> 'n \<Rightarrow> opcode \<Rightarrow> bytes \<Rightarrow> unit go \<times> 'n" where
  "WsConn_WriteFrame W c code data =
     (case wl_WriteFrame W c (wl_NewFrame W code True data) of
        (Some e, c1) \<Rightarrow> (Fail e, c1)
      | (None, c1) \<Rightarrow> (Ret (), c1))"

definition WsConn_Flush :: "'n \<Rightarrow> unit go \<times> 'n" where
  "WsConn_Flush c = (Ret (), c)"

text \<open>
  The frame as the interface shows it.  A reader asks for the payload at most once for each frame it
  reads, so the view can be taken when the frame is read.
\<close>

definition ws_view :: "'n ws_lib \<Rightarrow> ws_frame \<Rightarrow> frame" where
  "ws_view W f = \<lparr>OpCode = ws_GetOpCode f, Payload = fst (ws_GetPayload W f)\<rparr>"

definition ws_conn_read :: "'n ws_lib \<Rightarrow> 'n \<Rightarrow> frame go \<times> 'n" where
  "ws_conn_read W c =
     (case WsConn_ReadFrame W c of
        (Fail e, c1) \<Rightarrow> (Fail e, c1)
      | (Panics m, c1) \<Rightarrow> (Panics m, c1)
      | (Ret f, c1) \<Rightarrow> (Ret (ws_view W f), c1))"

section \<open>Masking\<close>

text \<open>Ciphering with a mask twice gives the payload back.\<close>

definition cipher_law :: "'n ws_lib \<Rightarrow> bool" where
  "cipher_law W \<longleftrightarrow> (\<forall>p m. wl_Cipher W (wl_Cipher W p m 0) m 0 = p)"

text \<open>The frame a client makes of a payload: it masks what it sends.\<close>

definition masked_frame :: "'n ws_lib \<Rightarrow> opcode \<Rightarrow> bytes \<Rightarrow> bytes \<Rightarrow> ws_frame" where
  "masked_frame W code mk payload =
     \<lparr>raw_OpCode = code, raw_Masked = True, raw_Mask = mk, raw_Payload = wl_Cipher W payload mk 0\<rparr>"

fun get_times :: "'n ws_lib \<Rightarrow> nat \<Rightarrow> ws_frame \<Rightarrow> bytes list" where
  "get_times W 0 f = []"
| "get_times W (Suc n) f = (let (p, f1) = ws_GetPayload W f in p # get_times W n f1)"

lemma get_times_clear: "\<not> raw_Masked f \<Longrightarrow> get_times W n f = replicate n (raw_Payload f)"
  by (induction n arbitrary: f) (simp_all add: ws_GetPayload_def)

lemma get_times_masked:
  assumes "cipher_law W"
  shows "get_times W n (masked_frame W code mk payload) = replicate n payload"
proof (cases n)
  case (Suc m)
  then show ?thesis using assms
    by (simp add: ws_GetPayload_def masked_frame_def cipher_law_def get_times_clear)
qed simp

lemma ws_view_masked:
  "cipher_law W \<Longrightarrow> ws_view W (masked_frame W code mk payload) = \<lparr>OpCode = code, Payload = payload\<rparr>"
  by (simp add: ws_view_def ws_GetPayload_def ws_GetOpCode_def masked_frame_def cipher_law_def)

section \<open>The read loop over a stream of frames\<close>

text \<open>
  What a connection has to keep for the read loop to deliver its frames: \<open>carries c fs\<close> says that the
  frames still to be read from \<open>c\<close> are \<open>fs\<close>.
\<close>

locale frame_stream =
  fixes rfr :: "'c \<Rightarrow> frame go \<times> 'c"
    and wfr :: "'c \<Rightarrow> opcode \<Rightarrow> bytes \<Rightarrow> unit go \<times> 'c"
    and carries :: "'c \<Rightarrow> frame list \<Rightarrow> bool"
  assumes read_next: "carries c (f # fs) \<Longrightarrow> \<exists>c1. rfr c = (Ret f, c1) \<and> carries c1 fs"
    and read_end: "carries c [] \<Longrightarrow> \<exists>e c1. rfr c = (Fail e, c1) \<and> carries c1 []"
    and write_keeps: "carries c fs \<Longrightarrow> carries (snd (wfr c code p)) fs"
begin

lemma Readloop_stream:
  "carries c fs \<Longrightarrow> \<exists>e c1. Readloop rfr wfr c s = Some (Fail (loop_error fs e), c1, s @ deliveries fs)"
proof (induction fs arbitrary: c s)
  case Nil
  then obtain e c1 where "rfr c = (Fail e, c1)" using read_end by blast
  then show ?case by (subst Readloop.simps) (auto simp: loop_spec_defs)
next
  case (Cons f fs)
  then obtain c1 where c1: "rfr c = (Ret f, c1)" "carries c1 fs" using read_next by blast
  have pong: "\<exists>e c2. Readloop rfr wfr (snd (wfr c1 OpPong [])) s = Some (Fail (loop_error fs e), c2, s @ deliveries fs)"
    by (rule Cons.IH [OF write_keeps [OF c1(2)]])
  have go: "\<exists>e c2. Readloop rfr wfr c1 t = Some (Fail (loop_error fs e), c2, t @ deliveries fs)" for t
    by (rule Cons.IH [OF c1(2)])
  consider "OpCode f = 8" | "OpCode f = 9" | "OpCode f \<noteq> 8" "OpCode f \<noteq> 9" by blast
  then show ?case
  proof cases
    case 1
    with c1(1) show ?thesis by (subst Readloop.simps) (simp add: loop_spec_defs)
  next
    case 2
    with c1(1) pong show ?thesis by (subst Readloop.simps) (simp add: loop_spec_defs)
  next
    case 3
    with c1(1) go [of s] go [of "s @ [Payload f]"] show ?thesis
      by (subst Readloop.simps) (auto simp: loop_spec_defs)
  qed
qed

end

interpretation tcpst: frame_stream tcp_ReadFrame tcp_WriteFrame
    "\<lambda>c fs. (\<forall>f \<in> set fs. frame_ok f) \<and> avail (rd c) = concat (map frame_enc fs)"
proof
  fix c :: tcp_conn and f fs
  assume "(\<forall>x \<in> set (f # fs). frame_ok x) \<and> avail (rd c) = concat (map frame_enc (f # fs))"
  then show "\<exists>c1. tcp_ReadFrame c = (Ret f, c1) \<and> (\<forall>x \<in> set fs. frame_ok x) \<and> avail (rd c1) = concat (map frame_enc fs)"
    using tcp_ReadFrame_enc [of f c "concat (map frame_enc fs)"] by simp
next
  fix c :: tcp_conn
  assume "(\<forall>x \<in> set []. frame_ok x) \<and> avail (rd c) = concat (map frame_enc [])"
  then show "\<exists>e c1. tcp_ReadFrame c = (Fail e, c1) \<and> (\<forall>x \<in> set []. frame_ok x) \<and> avail (rd c1) = concat (map frame_enc [])"
    by (simp add: tcp_ReadFrame_end)
next
  fix c :: tcp_conn and fs code p
  assume "(\<forall>x \<in> set fs. frame_ok x) \<and> avail (rd c) = concat (map frame_enc fs)"
  then show "(\<forall>x \<in> set fs. frame_ok x) \<and> avail (rd (snd (tcp_WriteFrame c code p))) = concat (map frame_enc fs)"
    by (simp add: tcp_WriteFrame_def split: prod.splits)
qed

text \<open>
  The library as far as reading goes: it hands over the frames the peer sent (\<open>pending\<close>), one at a
  time, fails when there is none left, and writing does not touch them.
\<close>

definition ws_stream_law :: "'n ws_lib \<Rightarrow> ('n \<Rightarrow> ws_frame list) \<Rightarrow> bool" where
  "ws_stream_law W pending \<longleftrightarrow>
     (\<forall>c f fs. pending c = f # fs \<longrightarrow> (\<exists>c1. wl_ReadFrame W c = (Inr f, c1) \<and> pending c1 = fs))
     \<and> (\<forall>c. pending c = [] \<longrightarrow> (\<exists>e c1. wl_ReadFrame W c = (Inl e, c1) \<and> pending c1 = []))
     \<and> (\<forall>c f. pending (snd (wl_WriteFrame W c f)) = pending c)"

interpretation wsst: frame_stream "ws_conn_read W" "WsConn_WriteFrame W"
    "\<lambda>c fs. ws_stream_law W pending \<and> map (ws_view W) (pending c) = fs"
  for W :: "'n ws_lib" and pending
proof
  fix c f fs
  assume a: "ws_stream_law W pending \<and> map (ws_view W) (pending c) = f # fs"
  then obtain g gs where g: "pending c = g # gs" "ws_view W g = f" "map (ws_view W) gs = fs" by auto
  then obtain c1 where "wl_ReadFrame W c = (Inr g, c1)" "pending c1 = gs"
    using a unfolding ws_stream_law_def by blast
  with a g show "\<exists>c1. ws_conn_read W c = (Ret f, c1) \<and> ws_stream_law W pending \<and> map (ws_view W) (pending c1) = fs"
    by (simp add: ws_conn_read_def WsConn_ReadFrame_def)
next
  fix c
  assume a: "ws_stream_law W pending \<and> map (ws_view W) (pending c) = []"
  then obtain e c1 where "wl_ReadFrame W c = (Inl e, c1)" "pending c1 = []" unfolding ws_stream_law_def by auto
  with a show "\<exists>e c1. ws_conn_read W c = (Fail e, c1) \<and> ws_stream_law W pending \<and> map (ws_view W) (pending c1) = []"
    by (simp add: ws_conn_read_def WsConn_ReadFrame_def)
next
  fix c fs code p
  assume a: "ws_stream_law W pending \<and> map (ws_view W) (pending c) = fs"
  have "snd (WsConn_WriteFrame W c code p) = snd (wl_WriteFrame W c (wl_NewFrame W code True p))"
    by (simp add: WsConn_WriteFrame_def split: prod.splits option.splits)
  with a show "ws_stream_law W pending \<and> map (ws_view W) (pending (snd (WsConn_WriteFrame W c code p))) = fs"
    by (simp add: ws_stream_law_def)
qed


text \<open>A library whose connection is the list of frames to come, with the cipher of the standard.\<close>

definition xor_cipher :: "bytes \<Rightarrow> bytes \<Rightarrow> nat \<Rightarrow> bytes" where
  "xor_cipher p m off = map2 (\<lambda>i b. if length m = 4 then xor b (m ! ((off + i) mod 4)) else b) [0..<length p] p"

definition demo_ws :: "ws_frame list ws_lib" where
  "demo_ws = \<lparr>wl_Cipher = xor_cipher,
     wl_NewFrame = (\<lambda>code fin p. \<lparr>raw_OpCode = code, raw_Masked = False, raw_Mask = [], raw_Payload = p\<rparr>),
     wl_ReadFrame = (\<lambda>c. case c of [] \<Rightarrow> (Inl ErrEOF, []) | f # fs \<Rightarrow> (Inr f, fs)),
     wl_WriteFrame = (\<lambda>c f. (None, c))\<rparr>"

lemma demo_cipher: "cipher_law demo_ws"
  by (auto simp: cipher_law_def demo_ws_def xor_cipher_def xor.assoc intro!: nth_equalityI)

lemma demo_ws_stream: "ws_stream_law demo_ws (\<lambda>c. c)"
  by (auto simp: ws_stream_law_def demo_ws_def split: list.splits)


end
