(* ===== verification/IdMap.thy ===== *)
theory IdMap
  imports Prelude
begin

text \<open>
  The registries keyed by identifier: \<open>core/channel_manager.go\<close> (\<open>ChannelMannager\<close>, the channels
  of a server) and \<open>container/clients.go\<close> (\<open>Clients\<close>, the connections to a service).  Both wrap a
  \<open>sync.Map\<close>, here an association list with distinct keys; \<open>Range\<close> visits it in an order given as
  an argument.  The locale \<open>id_map\<close> is the contract the servers and the container rely on, and both
  registries are interpretations of it.
\<close>

section \<open>sync.Map\<close>

type_synonym 'v sync_map = "(string \<times> 'v) list"

definition sm_Store :: "string \<Rightarrow> 'v \<Rightarrow> 'v sync_map \<Rightarrow> 'v sync_map" where
  "sm_Store k v m = AList.update k v m"

definition sm_Delete :: "string \<Rightarrow> 'v sync_map \<Rightarrow> 'v sync_map" where
  "sm_Delete k m = AList.delete k m"

definition sm_Load :: "string \<Rightarrow> 'v sync_map \<Rightarrow> 'v option" where
  "sm_Load k m = map_of m k"

definition sm_Range :: "('v sync_map \<Rightarrow> 'v sync_map) \<Rightarrow> 'v sync_map \<Rightarrow> 'v list" where
  "sm_Range \<pi> m = map snd (\<pi> m)"

lemmas sm_defs [go_defs] = sm_Store_def sm_Delete_def sm_Load_def sm_Range_def

section \<open>The contract\<close>

locale id_map =
  fixes empty :: "'m"
    and add :: "'v \<Rightarrow> 'm \<Rightarrow> 'm"
    and remove :: "string \<Rightarrow> 'm \<Rightarrow> 'm"
    and get :: "string \<Rightarrow> 'm \<Rightarrow> 'v option"
    and vid :: "'v \<Rightarrow> string"
    and inv :: "'m \<Rightarrow> bool"
  assumes inv_empty: "inv empty"
    and inv_add: "inv m \<Longrightarrow> inv (add v m)"
    and inv_remove: "inv m \<Longrightarrow> inv (remove i m)"
    and get_empty: "get i empty = None"
    and get_add: "inv m \<Longrightarrow> get i (add v m) = (if i = vid v then Some v else get i m)"
    and get_remove: "inv m \<Longrightarrow> get i (remove j m) = (if i = j then None else get i m)"
    and get_vid: "inv m \<Longrightarrow> get i m = Some v \<Longrightarrow> vid v = i"

datatype 'v map_op = OpAdd 'v | OpRemove string

fun run_ops :: "('v \<Rightarrow> 'm \<Rightarrow> 'm) \<Rightarrow> (string \<Rightarrow> 'm \<Rightarrow> 'm) \<Rightarrow> 'v map_op list \<Rightarrow> 'm \<Rightarrow> 'm" where
  "run_ops add remove [] m = m"
| "run_ops add remove (OpAdd v # ops) m = run_ops add remove ops (add v m)"
| "run_ops add remove (OpRemove i # ops) m = run_ops add remove ops (remove i m)"

text \<open>What a history of operations leaves under an identifier: the last one decides.\<close>

fun last_op :: "('v \<Rightarrow> string) \<Rightarrow> string \<Rightarrow> 'v map_op list \<Rightarrow> 'v option \<Rightarrow> 'v option" where
  "last_op vid i [] acc = acc"
| "last_op vid i (OpAdd v # ops) acc = last_op vid i ops (if vid v = i then Some v else acc)"
| "last_op vid i (OpRemove j # ops) acc = last_op vid i ops (if j = i then None else acc)"

context id_map begin

lemma inv_run: "inv m \<Longrightarrow> inv (run_ops add remove ops m)"
proof (induction ops arbitrary: m)
  case (Cons a ops)
  then show ?case by (cases a) (simp_all add: inv_add inv_remove)
qed simp

lemma get_run: "inv m \<Longrightarrow> get i (run_ops add remove ops m) = last_op vid i ops (get i m)"
proof (induction ops arbitrary: m)
  case (Cons a ops)
  then show ?case by (cases a) (auto simp: inv_add inv_remove get_add get_remove)
qed simp

lemma get_run_empty: "get i (run_ops add remove ops empty) = last_op vid i ops None"
  by (simp add: get_run inv_empty get_empty)

end

section \<open>Both registries rest on the same facts about sync.Map\<close>

definition keyed :: "('v \<Rightarrow> string) \<Rightarrow> 'v sync_map \<Rightarrow> bool" where
  "keyed vid m \<longleftrightarrow> distinct (map fst m) \<and> (\<forall>(k, v) \<in> set m. vid v = k)"

lemma keyed_Nil [simp]: "keyed vid []"
  by (simp add: keyed_def)

lemma keyed_Store: "keyed vid m \<Longrightarrow> keyed vid (sm_Store (vid v) v m)"
proof -
  assume k: "keyed vid m"
  have "set (AList.update (vid v) v m) \<subseteq> insert (vid v, v) (set m)"
    by (induction m) auto
  with k show ?thesis by (auto simp: keyed_def sm_Store_def distinct_update)
qed

lemma keyed_Delete: "keyed vid m \<Longrightarrow> keyed vid (sm_Delete i m)"
  unfolding keyed_def sm_Delete_def
  by (auto simp: distinct_delete) (auto simp: AList.delete_eq)

lemma keyed_Load: "keyed vid m \<Longrightarrow> sm_Load i m = Some v \<Longrightarrow> vid v = i"
  by (auto simp: keyed_def sm_Load_def dest: map_of_SomeD)

lemma Load_Store: "sm_Load i (sm_Store k v m) = (if i = k then Some v else sm_Load i m)"
  by (simp add: go_defs update_conv')

lemma Load_Delete: "sm_Load i (sm_Delete k m) = (if i = k then None else sm_Load i m)"
  by (simp add: go_defs delete_conv')

lemma Range_set:
  "is_order \<pi> \<Longrightarrow> keyed vid m \<Longrightarrow> set (sm_Range \<pi> m) = {v. sm_Load (vid v) m = Some v}"
  by (force simp: go_defs is_order_set keyed_def image_iff dest: map_of_SomeD
      intro!: map_of_is_SomeI)

lemma Range_distinct: "is_order \<pi> \<Longrightarrow> keyed vid m \<Longrightarrow> distinct (map vid (sm_Range \<pi> m))"
proof -
  assume o: "is_order \<pi>" and k: "keyed vid m"
  have "map vid (sm_Range \<pi> m) = map fst (\<pi> m)"
    using k is_order_set [OF o, of m] by (auto simp: go_defs keyed_def)
  moreover have "mset (map fst (\<pi> m)) = mset (map fst m)" using o by (rule is_order_mset_map)
  ultimately show ?thesis using k by (metis keyed_def mset_eq_imp_distinct_iff)
qed

lemma id_map_sync:
  "id_map [] (\<lambda>v. sm_Store (vid v) v) sm_Delete sm_Load vid (keyed vid)"
  by unfold_locales (auto simp: keyed_Store keyed_Delete Load_Store Load_Delete keyed_Load, simp add: sm_Load_def)

section \<open>core.ChannelMannager\<close>

text \<open>
  A registered channel is a reference: its identifier and the number of the connection it wraps.
  \<open>checkID\<close> only logs an empty identifier and the operation goes on, so an empty identifier is
  stored, looked up and deleted like any other; the log line itself is not modelled.
\<close>

record chan_ref =
  ref_id :: string
  ref_conn :: nat

type_synonym channel_map = "chan_ref sync_map"

definition NewChannels :: channel_map where "NewChannels = []"

definition cm_Add :: "chan_ref \<Rightarrow> channel_map \<Rightarrow> channel_map" where
  "cm_Add channel cm = sm_Store (ref_id channel) channel cm"

definition cm_Remove :: "string \<Rightarrow> channel_map \<Rightarrow> channel_map" where
  "cm_Remove i cm = sm_Delete i cm"

definition cm_Get :: "string \<Rightarrow> channel_map \<Rightarrow> chan_ref option" where
  "cm_Get i cm = (case sm_Load i cm of None \<Rightarrow> None | Some ch \<Rightarrow> Some ch)"

definition cm_All :: "(channel_map \<Rightarrow> channel_map) \<Rightarrow> channel_map \<Rightarrow> chan_ref list" where
  "cm_All \<pi> cm = sm_Range \<pi> cm"

interpretation cm: id_map NewChannels cm_Add cm_Remove cm_Get ref_id "keyed ref_id"
proof -
  have "NewChannels = []" "cm_Add = (\<lambda>v. sm_Store (ref_id v) v)" "cm_Remove = sm_Delete" "cm_Get = sm_Load"
    by (auto simp: NewChannels_def cm_Add_def cm_Remove_def cm_Get_def fun_eq_iff split: option.splits)
  then show "id_map NewChannels cm_Add cm_Remove cm_Get ref_id (keyed ref_id)"
    using id_map_sync [of "ref_id :: chan_ref \<Rightarrow> string"] by (simp only:)
qed

text \<open>C35: After any history of \<open>Add\<close> and \<open>Remove\<close> on a fresh channel registry, \<open>Get\<close> answers with the
  channel of the last \<open>Add\<close> for that identifier unless a \<open>Remove\<close> came after it, and \<open>All\<close>, in
  whatever order the runtime iterates, lists exactly the registered channels, each identifier
  once.\<close>

theorem channel_map_history:
  assumes "is_order \<pi>" and "cm = run_ops cm_Add cm_Remove ops NewChannels"
  shows "(\<forall>i. cm_Get i cm = last_op ref_id i ops None)
    \<and> set (cm_All \<pi> cm) = {ch. cm_Get (ref_id ch) cm = Some ch}
    \<and> distinct (map ref_id (cm_All \<pi> cm))"
proof -
  have k: "keyed ref_id cm" unfolding assms(2) by (rule cm.inv_run) (rule cm.inv_empty)
  have "cm_Get = sm_Load" by (auto simp: cm_Get_def fun_eq_iff split: option.splits)
  then show ?thesis
    using Range_set [OF assms(1) k] Range_distinct [OF assms(1) k] cm.get_run_empty [of _ ops]
    by (simp add: cm_All_def assms(2))
qed

theorem channel_map_history_witness:
  "let cm = run_ops cm_Add cm_Remove
     [OpAdd \<lparr>ref_id = ''a'', ref_conn = 0\<rparr>, OpAdd \<lparr>ref_id = ''a'', ref_conn = 1\<rparr>,
      OpAdd \<lparr>ref_id = ''b'', ref_conn = 2\<rparr>, OpRemove ''b''] NewChannels
   in cm_Get ''a'' cm = Some \<lparr>ref_id = ''a'', ref_conn = 1\<rparr> \<and> cm_Get ''b'' cm = None"
  using channel_map_history [OF is_order_rev refl, of "[OpAdd \<lparr>ref_id = ''a'', ref_conn = 0\<rparr>,
      OpAdd \<lparr>ref_id = ''a'', ref_conn = 1\<rparr>, OpAdd \<lparr>ref_id = ''b'', ref_conn = 2\<rparr>, OpRemove ''b'']"]
  by (simp only: Let_def) simp

end
