(* ===== verification/Client.thy ===== *)
theory Client
  imports Channel
begin

text \<open>
  The two clients, \<open>tcp/client.go\<close> and \<open>websocket/client.go\<close>.  They keep the same state and differ
  in how they set deadlines and write.  The connection is of any type \<open>'c\<close>; the operations the
  clients perform on it are a record of functions, instantiated for TCP by the frame layer and left
  open for WebSocket, whose frames are written by a library.  The contract the two share is the
  locale \<open>conn_client\<close>.
\<close>

section \<open>State\<close>

record client_options =
  Heartbeat :: int
  ReadWait :: int
  WriteWait :: int

record dialer_context =
  dc_Id :: string
  dc_Name :: string
  dc_Address :: string
  dc_Timeout :: int

text \<open>
  \<open>DialAndHandshake\<close> returns a \<open>net.Conn\<close>, which may be nil (\<open>None\<close>), or an error.
\<close>

type_synonym 'c dialer = "dialer_context \<Rightarrow> 'c option go"

text \<open>
  \<open>c_meta\<close> is the address of the metadata map, which is shared with the service entry it came
  from; \<open>c_beats\<close> counts the heartbeat goroutines started.
\<close>

record 'c client =
  c_dialer :: "'c dialer option"
  c_once :: bool
  c_id :: string
  c_name :: string
  c_conn :: "'c option"
  c_state :: "32 word"
  c_options :: client_options
  c_meta :: "nat option"
  c_beats :: nat

record 'c conn_ops =
  op_read :: "'c \<Rightarrow> frame go \<times> 'c"
  op_write :: "'c \<Rightarrow> opcode \<Rightarrow> bytes \<Rightarrow> unit go \<times> 'c"
  op_close :: "'c \<Rightarrow> 'c"
  op_read_deadline :: "int \<Rightarrow> 'c \<Rightarrow> 'c"
  op_write_deadline :: "int \<Rightarrow> 'c \<Rightarrow> unit go \<times> 'c"

definition minute :: int where "minute = 60 * second"
definition DefaultWriteWait :: int where "DefaultWriteWait = 3 * second"
definition DefaultLoginWait :: int where "DefaultLoginWait = second * 3"
definition DefaultReadWait :: int where "DefaultReadWait = minute * 3"

definition with_defaults :: "client_options \<Rightarrow> client_options" where
  "with_defaults opts =
     (let o1 = (if WriteWait opts = 0 then opts\<lparr>WriteWait := DefaultWriteWait\<rparr> else opts)
      in if ReadWait o1 = 0 then o1\<lparr>ReadWait := DefaultReadWait\<rparr> else o1)"

section \<open>tcp.Client\<close>

definition tcp_NewClientWithProps ::
    "string \<Rightarrow> string \<Rightarrow> nat option \<Rightarrow> client_options \<Rightarrow> 'c client" where
  "tcp_NewClientWithProps i name meta opts =
     \<lparr>c_dialer = None, c_once = False, c_id = i, c_name = name, c_conn = None, c_state = 0,
      c_options = with_defaults opts, c_meta = meta, c_beats = 0\<rparr>"

text \<open>\<open>NewClient\<close> makes a map of its own, at an address given by the caller's allocator.\<close>

definition tcp_NewClient :: "string \<Rightarrow> string \<Rightarrow> nat \<Rightarrow> client_options \<Rightarrow> 'c client" where
  "tcp_NewClient i name fresh opts = tcp_NewClientWithProps i name (Some fresh) opts"

definition SetDialer :: "'c dialer \<Rightarrow> 'c client \<Rightarrow> 'c client" where
  "SetDialer d c = c\<lparr>c_dialer := Some d\<rparr>"

definition dial_context :: "'c client \<Rightarrow> string \<Rightarrow> dialer_context" where
  "dial_context c addr =
     \<lparr>dc_Id = c_id c, dc_Name = c_name c, dc_Address = addr, dc_Timeout = DefaultLoginWait\<rparr>"

text \<open>
  \<open>Connect\<close> in the two steps another goroutine can see: the compare-and-swap of \<open>state\<close>, and what
  follows the dial.  \<open>url_parse\<close> stands for \<open>url.Parse\<close>, of which only the error is used.
\<close>

definition connect_begin :: "string \<Rightarrow> (string \<Rightarrow> error option) \<Rightarrow> string \<Rightarrow> 'c client \<Rightarrow> unit go \<times> 'c client" where
  "connect_begin busy url_parse addr c =
     (case url_parse addr of
        Some e \<Rightarrow> (Fail e, c)
      | None \<Rightarrow>
          if c_state c \<noteq> 0 then (Fail (ErrMsg busy), c)
          else (Ret (), c\<lparr>c_state := 1\<rparr>))"

definition connect_end :: "string \<Rightarrow> 'c client \<Rightarrow> unit go \<times> 'c client" where
  "connect_end addr c =
     (case c_dialer c of
        None \<Rightarrow> (Panics ''nil IDialer'', c)
      | Some d \<Rightarrow>
          (case d (dial_context c addr) of
             Fail e \<Rightarrow> (Fail e, if c_state c = 1 then c\<lparr>c_state := 0\<rparr> else c)
           | Panics m \<Rightarrow> (Panics m, c)
           | Ret None \<Rightarrow> (Fail (ErrMsg ''conn is nil''), c)
           | Ret (Some k) \<Rightarrow>
               (Ret (), c\<lparr>c_conn := Some k,
                  c_beats := (if Heartbeat (c_options c) > 0 then Suc (c_beats c) else c_beats c)\<rparr>)))"

definition tcp_Connect :: "(string \<Rightarrow> error option) \<Rightarrow> string \<Rightarrow> 'c client \<Rightarrow> unit go \<times> 'c client" where
  "tcp_Connect url_parse addr c =
     go_bind (connect_begin ''connection is connected'' url_parse addr c) (\<lambda>_ c1. connect_end addr c1)"

text \<open>The frame returned beside the error of a closed connection is dropped here: no caller uses it.\<close>

definition tcp_Read :: "'c conn_ops \<Rightarrow> 'c client \<Rightarrow> frame go \<times> 'c client" where
  "tcp_Read ops c =
     (case c_conn c of
        None \<Rightarrow> (Fail (ErrMsg ''conn is nil''), c)
      | Some k \<Rightarrow>
          let k1 = (if Heartbeat (c_options c) > 0
                    then op_read_deadline ops (ReadWait (c_options c)) k else k);
              (r, k2) = op_read ops k1
          in case r of
               Ret f \<Rightarrow> (if GetOpCode f = OpClose then Fail (ErrMsg ''conn is closed'') else Ret f,
                         c\<lparr>c_conn := Some k2\<rparr>)
             | _ \<Rightarrow> (r, c\<lparr>c_conn := Some k2\<rparr>))"

text \<open>The call of a method on a nil \<open>conn\<close> is a nil dereference.\<close>

definition deadline_then_write ::
    "'c conn_ops \<Rightarrow> opcode \<Rightarrow> bytes \<Rightarrow> 'c client \<Rightarrow> unit go \<times> 'c client" where
  "deadline_then_write ops code payload c =
     (case c_conn c of
        None \<Rightarrow> (Panics ''nil conn'', c)
      | Some k \<Rightarrow>
          let (e, k1) = op_write_deadline ops (WriteWait (c_options c)) k
          in case e of
               Ret _ \<Rightarrow> (let (r, k2) = op_write ops k1 code payload in (r, c\<lparr>c_conn := Some k2\<rparr>))
             | _ \<Rightarrow> (e, c\<lparr>c_conn := Some k1\<rparr>))"

definition tcp_Send :: "'c conn_ops \<Rightarrow> bytes \<Rightarrow> 'c client \<Rightarrow> unit go \<times> 'c client" where
  "tcp_Send ops payload c =
     (if c_state c = 0 then (Fail (ErrMsg ''conn is nil''), c)
      else deadline_then_write ops OpBinary payload c)"

definition tcp_ping :: "'c conn_ops \<Rightarrow> 'c client \<Rightarrow> unit go \<times> 'c client" where
  "tcp_ping ops c = deadline_then_write ops OpPing [] c"

definition client_Close :: "'c conn_ops \<Rightarrow> 'c client \<Rightarrow> unit go \<times> 'c client" where
  "client_Close ops c =
     (if c_once c then (Ret (), c)
      else
        let c1 = c\<lparr>c_once := True\<rparr>
        in case c_conn c1 of
             None \<Rightarrow> (Ret (), c1)
           | Some k \<Rightarrow>
               let (_, k1) = op_write ops k OpClose []; k2 = op_close ops k1
               in (Ret (), c1\<lparr>c_conn := Some k2, c_state := (if c_state c1 = 1 then 0 else c_state c1)\<rparr>))"

section \<open>websocket.Client\<close>

definition ws_NewClientWithProps ::
    "string \<Rightarrow> string \<Rightarrow> nat option \<Rightarrow> client_options \<Rightarrow> 'c client" where
  "ws_NewClientWithProps i name meta opts =
     \<lparr>c_dialer = None, c_once = False, c_id = i, c_name = name, c_conn = None, c_state = 0,
      c_options = with_defaults opts, c_meta = meta, c_beats = 0\<rparr>"

definition ws_NewClient :: "string \<Rightarrow> string \<Rightarrow> nat \<Rightarrow> client_options \<Rightarrow> 'c client" where
  "ws_NewClient i name fresh opts = ws_NewClientWithProps i name (Some fresh) opts"

definition ws_Connect :: "(string \<Rightarrow> error option) \<Rightarrow> string \<Rightarrow> 'c client \<Rightarrow> unit go \<times> 'c client" where
  "ws_Connect url_parse addr c =
     go_bind (connect_begin ''client has connected'' url_parse addr c) (\<lambda>_ c1. connect_end addr c1)"

definition ws_Read :: "'c conn_ops \<Rightarrow> 'c client \<Rightarrow> frame go \<times> 'c client" where
  "ws_Read ops c =
     (case c_conn c of
        None \<Rightarrow> (Fail (ErrMsg ''conn is nil ''), c)
      | Some k \<Rightarrow>
          let k1 = (if ReadWait (c_options c) > 0
                    then op_read_deadline ops (ReadWait (c_options c)) k else k);
              (r, k2) = op_read ops k1
          in case r of
               Ret f \<Rightarrow> (if GetOpCode f = OpClose then Fail (ErrMsg ''the connection is closed'') else Ret f,
                         c\<lparr>c_conn := Some k2\<rparr>)
             | _ \<Rightarrow> (r, c\<lparr>c_conn := Some k2\<rparr>))"

definition ws_Send :: "'c conn_ops \<Rightarrow> bytes \<Rightarrow> 'c client \<Rightarrow> unit go \<times> 'c client" where
  "ws_Send ops payload c =
     (if c_state c = 0 then (Fail (ErrMsg ''conn is nil''), c)
      else case c_conn c of
        None \<Rightarrow> (Panics ''nil conn'', c)
      | Some k \<Rightarrow>
          let k1 = (if WriteWait (c_options c) > 0
                    then snd (op_write_deadline ops (WriteWait (c_options c)) k) else k);
              (r, k2) = op_write ops k1 OpBinary payload
          in (r, c\<lparr>c_conn := Some k2\<rparr>))"

text \<open>
  The bodies of the heartbeat: the TCP client pings the connection it has at the time, without the lock
  that \<open>Send\<close> takes; the WebSocket client, under the lock, the one its loop was started with.
\<close>

definition ws_ping :: "'c conn_ops \<Rightarrow> int \<Rightarrow> 'c \<Rightarrow> unit go \<times> 'c" where
  "ws_ping ops wait k =
     (let (e, k1) = op_write_deadline ops wait k
      in case e of
           Ret _ \<Rightarrow> op_write ops k1 OpPing []
         | _ \<Rightarrow> (e, k1))"

text \<open>
  The loops after \<open>n\<close> ticks of their timer: \<open>None\<close> while they wait for the next tick, what they returned
  when a ping failed.
\<close>

fun tcp_heartbealoop :: "'c conn_ops \<Rightarrow> nat \<Rightarrow> 'c client \<Rightarrow> unit go option \<times> 'c client" where
  "tcp_heartbealoop ops 0 c = (None, c)"
| "tcp_heartbealoop ops (Suc n) c =
     (case tcp_ping ops c of
        (Ret _, c1) \<Rightarrow> tcp_heartbealoop ops n c1
      | (r, c1) \<Rightarrow> (Some r, c1))"

fun ws_heartloop :: "'c conn_ops \<Rightarrow> int \<Rightarrow> nat \<Rightarrow> 'c \<Rightarrow> unit go option \<times> 'c" where
  "ws_heartloop ops wait 0 k = (None, k)"
| "ws_heartloop ops wait (Suc n) k =
     (case ws_ping ops wait k of
        (Ret _, k1) \<Rightarrow> ws_heartloop ops wait n k1
      | (r, k1) \<Rightarrow> (Some r, k1))"

definition ws_Close :: "'c conn_ops \<Rightarrow> 'c client \<Rightarrow> unit go \<times> 'c client" where
  "ws_Close ops c =
     (if c_once c then (Ret (), c)
      else case c_conn c of
        None \<Rightarrow> (Ret (), c\<lparr>c_once := True\<rparr>)
      | Some k \<Rightarrow>
          (Ret (), c\<lparr>c_once := True, c_conn := Some (op_close ops (snd (op_write ops k OpClose []))),
             c_state := (if c_state c = 1 then 0 else c_state c)\<rparr>))"

lemma ws_Close_eq: "ws_Close ops c = client_Close ops c"
  by (simp add: ws_Close_def client_Close_def Let_def split_beta split: option.splits)

lemmas client_defs [go_defs] =
  tcp_Connect_def tcp_Read_def tcp_Send_def client_Close_def ws_Connect_def ws_Read_def ws_Send_def
  connect_begin_def connect_end_def deadline_then_write_def

section \<open>The shared contract\<close>

text \<open>The operations of a connection do not panic.\<close>

definition ops_safe :: "'c conn_ops \<Rightarrow> bool" where
  "ops_safe ops \<longleftrightarrow> (\<forall>k. \<not> is_panic (fst (op_read ops k)))
     \<and> (\<forall>k code p. \<not> is_panic (fst (op_write ops k code p)))
     \<and> (\<forall>d k. \<not> is_panic (fst (op_write_deadline ops d k)))"

lemma ops_safeD:
  assumes "ops_safe ops"
  shows "op_read ops k \<noteq> (Panics m, k')" "op_write ops k code p \<noteq> (Panics m, k')"
    "op_write_deadline ops d k \<noteq> (Panics m, k')"
proof -
  have no: "x \<noteq> (Panics m, k')" if "\<not> is_panic (fst x)" for x :: "'y go \<times> 'a" using that by auto
  from assms show "op_read ops k \<noteq> (Panics m, k')" "op_write ops k code p \<noteq> (Panics m, k')"
    "op_write_deadline ops d k \<noteq> (Panics m, k')"
    by (auto simp: ops_safe_def intro!: no)
qed

text \<open>A dialer that returns an error or a connection, never a nil connection without an error.\<close>

definition good_dialer :: "'c dialer \<Rightarrow> bool" where
  "good_dialer d \<longleftrightarrow> (\<forall>ctx. d ctx \<noteq> Ret None \<and> \<not> is_panic (d ctx))"

definition connected_inv :: "'c client \<Rightarrow> bool" where
  "connected_inv c \<longleftrightarrow> c_state c \<in> {0, 1} \<and> (c_state c = 1 \<longrightarrow> c_conn c \<noteq> None)
     \<and> (\<exists>d. c_dialer c = Some d \<and> good_dialer d)"

locale conn_client =
  fixes ok :: bool  \<comment> \<open>the connection operations do not panic\<close>
    and connect :: "string \<Rightarrow> 'c client \<Rightarrow> unit go \<times> 'c client"
    and send :: "bytes \<Rightarrow> 'c client \<Rightarrow> unit go \<times> 'c client"
    and read :: "'c client \<Rightarrow> frame go \<times> 'c client"
    and close :: "'c client \<Rightarrow> unit go \<times> 'c client"
  assumes connect_inv: "connected_inv c \<Longrightarrow>
      \<not> is_panic (fst (connect a c)) \<and> connected_inv (snd (connect a c))"
    and connect_busy: "c_state c \<noteq> 0 \<Longrightarrow> \<exists>e. connect a c = (Fail e, c)"
    and send_idle: "c_state c = 0 \<Longrightarrow> \<exists>e. send p c = (Fail e, c)"
    and send_nil: "c_state c \<noteq> 0 \<Longrightarrow> c_conn c = None \<Longrightarrow> \<exists>m. send p c = (Panics m, c)"
    and send_inv: "ok \<Longrightarrow> connected_inv c \<Longrightarrow>
      \<not> is_panic (fst (send p c)) \<and> connected_inv (snd (send p c))"
    and read_nil: "c_conn c = None \<Longrightarrow> \<exists>e. read c = (Fail e, c)"
    and read_inv: "ok \<Longrightarrow> connected_inv c \<Longrightarrow>
      \<not> is_panic (fst (read c)) \<and> connected_inv (snd (read c))"
    and close_inv: "connected_inv c \<Longrightarrow>
      \<not> is_panic (fst (close c)) \<and> connected_inv (snd (close c))"
    and close_nil: "c_conn c = None \<Longrightarrow> close c = (Ret (), c\<lparr>c_once := True\<rparr>)"

datatype client_op = DoConnect string | DoSend bytes | DoRead | DoClose

fun client_do ::
    "(string \<Rightarrow> 'c client \<Rightarrow> unit go \<times> 'c client) \<Rightarrow> (bytes \<Rightarrow> 'c client \<Rightarrow> unit go \<times> 'c client)
     \<Rightarrow> ('c client \<Rightarrow> frame go \<times> 'c client) \<Rightarrow> ('c client \<Rightarrow> unit go \<times> 'c client)
     \<Rightarrow> client_op \<Rightarrow> 'c client \<Rightarrow> bool \<times> 'c client" where
  "client_do con sn re cl (DoConnect a) c = (is_panic (fst (con a c)), snd (con a c))"
| "client_do con sn re cl (DoSend p) c = (is_panic (fst (sn p c)), snd (sn p c))"
| "client_do con sn re cl DoRead c = (is_panic (fst (re c)), snd (re c))"
| "client_do con sn re cl DoClose c = (is_panic (fst (cl c)), snd (cl c))"

text \<open>A run of calls, up to the first that panics.\<close>

fun client_run ::
    "(client_op \<Rightarrow> 'c client \<Rightarrow> bool \<times> 'c client) \<Rightarrow> client_op list \<Rightarrow> 'c client \<Rightarrow> bool \<times> 'c client" where
  "client_run do [] c = (False, c)"
| "client_run do (x # xs) c = (let (b, c1) = do x c in if b then (True, c1) else client_run do xs c1)"

context conn_client begin

abbreviation "run \<equiv> client_run (client_do connect send read close)"

lemma do_inv:
  "ok \<Longrightarrow> connected_inv c \<Longrightarrow> \<not> fst (client_do connect send read close x c)
     \<and> connected_inv (snd (client_do connect send read close x c))"
  by (cases x) (simp_all add: connect_inv send_inv read_inv close_inv)

lemma run_no_panic:
  "ok \<Longrightarrow> connected_inv c \<Longrightarrow> \<not> fst (run xs c) \<and> connected_inv (snd (run xs c))"
proof (induction xs arbitrary: c)
  case (Cons x xs)
  from do_inv [OF Cons.prems, of x] Cons.IH [OF Cons.prems(1)] show ?case
    by (simp add: split_beta)
qed simp

text \<open>A client wedged in state 1 without a connection stays wedged, whatever is called next.\<close>

lemma do_wedged:
  assumes "c_state c \<noteq> 0" "c_conn c = None"
  shows "(fst (client_do connect send read close x c) \<longleftrightarrow> (\<exists>p. x = DoSend p))
    \<and> c_state (snd (client_do connect send read close x c)) \<noteq> 0
    \<and> c_conn (snd (client_do connect send read close x c)) = None"
proof (cases x)
  case (DoConnect a)
  obtain e where "connect a c = (Fail e, c)" using connect_busy [OF assms(1)] by blast
  with DoConnect assms show ?thesis by simp
next
  case (DoSend p)
  obtain m where "send p c = (Panics m, c)" using send_nil [OF assms] by blast
  with DoSend assms show ?thesis by simp
next
  case DoRead
  obtain e where "read c = (Fail e, c)" using read_nil [OF assms(2)] by blast
  with DoRead assms show ?thesis by simp
next
  case DoClose
  then show ?thesis using assms by (simp add: close_nil)
qed

lemma run_wedged:
  "c_state c \<noteq> 0 \<Longrightarrow> c_conn c = None \<Longrightarrow>
     (fst (run xs c) \<longleftrightarrow> (\<exists>p. DoSend p \<in> set xs)) \<and> c_state (snd (run xs c)) \<noteq> 0
     \<and> c_conn (snd (run xs c)) = None"
proof (induction xs arbitrary: c)
  case (Cons x xs)
  obtain b c1 where d: "client_do connect send read close x c = (b, c1)" by fastforce
  from do_wedged [OF Cons.prems, of x] d
  have w: "b \<longleftrightarrow> (\<exists>p. x = DoSend p)" "c_state c1 \<noteq> 0" "c_conn c1 = None" by simp_all
  have "run (x # xs) c = (if b then (True, c1) else run xs c1)" using d by simp
  moreover have "(\<exists>p. DoSend p \<in> set (x # xs)) \<longleftrightarrow> b \<or> (\<exists>p. DoSend p \<in> set xs)"
    using w(1) by (metis list.set_intros(1,2) set_ConsD)
  ultimately show ?case using w(2,3) Cons.IH [OF w(2,3)] by (cases b) simp_all
qed simp

end

lemma connect_common_inv:
  "connected_inv c \<Longrightarrow> \<not> is_panic (fst (go_bind (connect_begin b u a c) (\<lambda>_ c1. connect_end a c1)))
     \<and> connected_inv (snd (go_bind (connect_begin b u a c) (\<lambda>_ c1. connect_end a c1)))"
proof -
  assume inv: "connected_inv c"
  then obtain d where d: "c_dialer c = Some d" "good_dialer d" by (auto simp: connected_inv_def)
  let ?ctx = "dial_context (c\<lparr>c_state := 1\<rparr>) a"
  show ?thesis
  proof (cases "u a = None \<and> c_state c = 0")
    case True
    then show ?thesis using inv d good_dialer_def [THEN iffD1, OF d(2), rule_format, of ?ctx]
      by (cases "d ?ctx") (auto simp: connect_begin_def connect_end_def connected_inv_def split: option.splits)
  next
    case False
    then show ?thesis using inv by (auto simp: connect_begin_def split: option.splits)
  qed
qed

lemma close_common_inv:
  "connected_inv c \<Longrightarrow> \<not> is_panic (fst (client_Close ops c)) \<and> connected_inv (snd (client_Close ops c))"
  by (auto simp: client_Close_def connected_inv_def Let_def split: option.splits prod.splits)

interpretation tcp_cli: conn_client "ops_safe ops" "tcp_Connect u" "tcp_Send ops" "tcp_Read ops" "client_Close ops"
  for u and ops :: "'c conn_ops"
proof
  fix c :: "'c client" and a p
  show "connected_inv c \<Longrightarrow> \<not> is_panic (fst (tcp_Connect u a c)) \<and> connected_inv (snd (tcp_Connect u a c))"
    unfolding tcp_Connect_def by (rule connect_common_inv)
  show "c_state c \<noteq> 0 \<Longrightarrow> \<exists>e. tcp_Connect u a c = (Fail e, c)"
    by (auto simp: tcp_Connect_def connect_begin_def split: option.splits)
  show "c_state c = 0 \<Longrightarrow> \<exists>e. tcp_Send ops p c = (Fail e, c)" by (simp add: tcp_Send_def)
  show "c_state c \<noteq> 0 \<Longrightarrow> c_conn c = None \<Longrightarrow> \<exists>m. tcp_Send ops p c = (Panics m, c)"
    by (simp add: tcp_Send_def deadline_then_write_def)
  show "ops_safe ops \<Longrightarrow> connected_inv c \<Longrightarrow>
      \<not> is_panic (fst (tcp_Send ops p c)) \<and> connected_inv (snd (tcp_Send ops p c))"
    by (auto simp: tcp_Send_def deadline_then_write_def connected_inv_def ops_safeD
        split: option.splits prod.splits go.splits elim!: is_panic.elims)
  show "c_conn c = None \<Longrightarrow> \<exists>e. tcp_Read ops c = (Fail e, c)" by (simp add: tcp_Read_def)
  show "ops_safe ops \<Longrightarrow> connected_inv c \<Longrightarrow>
      \<not> is_panic (fst (tcp_Read ops c)) \<and> connected_inv (snd (tcp_Read ops c))"
    by (auto simp: tcp_Read_def connected_inv_def ops_safeD Let_def
        split: option.splits prod.splits go.splits elim!: is_panic.elims)
  show "connected_inv c \<Longrightarrow> \<not> is_panic (fst (client_Close ops c)) \<and> connected_inv (snd (client_Close ops c))"
    by (rule close_common_inv)
  show "c_conn c = None \<Longrightarrow> client_Close ops c = (Ret (), c\<lparr>c_once := True\<rparr>)"
    by (simp add: client_Close_def)
qed

interpretation ws_cli: conn_client "ops_safe ops" "ws_Connect u" "ws_Send ops" "ws_Read ops" "ws_Close ops"
  for u and ops :: "'c conn_ops"
proof
  fix c :: "'c client" and a p
  show "connected_inv c \<Longrightarrow> \<not> is_panic (fst (ws_Connect u a c)) \<and> connected_inv (snd (ws_Connect u a c))"
    unfolding ws_Connect_def by (rule connect_common_inv)
  show "c_state c \<noteq> 0 \<Longrightarrow> \<exists>e. ws_Connect u a c = (Fail e, c)"
    by (auto simp: ws_Connect_def connect_begin_def split: option.splits)
  show "c_state c = 0 \<Longrightarrow> \<exists>e. ws_Send ops p c = (Fail e, c)" by (simp add: ws_Send_def)
  show "c_state c \<noteq> 0 \<Longrightarrow> c_conn c = None \<Longrightarrow> \<exists>m. ws_Send ops p c = (Panics m, c)"
    by (simp add: ws_Send_def)
  show "ops_safe ops \<Longrightarrow> connected_inv c \<Longrightarrow>
      \<not> is_panic (fst (ws_Send ops p c)) \<and> connected_inv (snd (ws_Send ops p c))"
    by (auto simp: ws_Send_def connected_inv_def ops_safeD Let_def
        split: option.splits prod.splits go.splits elim!: is_panic.elims)
  show "c_conn c = None \<Longrightarrow> \<exists>e. ws_Read ops c = (Fail e, c)" by (simp add: ws_Read_def)
  show "ops_safe ops \<Longrightarrow> connected_inv c \<Longrightarrow>
      \<not> is_panic (fst (ws_Read ops c)) \<and> connected_inv (snd (ws_Read ops c))"
    by (auto simp: ws_Read_def connected_inv_def ops_safeD Let_def
        split: option.splits prod.splits go.splits elim!: is_panic.elims)
  show "connected_inv c \<Longrightarrow> \<not> is_panic (fst (ws_Close ops c)) \<and> connected_inv (snd (ws_Close ops c))"
    unfolding ws_Close_eq by (rule close_common_inv)
  show "c_conn c = None \<Longrightarrow> ws_Close ops c = (Ret (), c\<lparr>c_once := True\<rparr>)"
    by (simp add: ws_Close_def)
qed

text \<open>The operations on a TCP connection; closing and deadlines do not touch the byte streams.\<close>

definition tcp_ops :: "tcp_conn conn_ops" where
  "tcp_ops = \<lparr>op_read = tcp_ReadFrame, op_write = tcp_WriteFrame, op_close = (\<lambda>k. k),
     op_read_deadline = (\<lambda>_ k. k), op_write_deadline = (\<lambda>_ k. (Ret (), k))\<rparr>"

lemma tcp_ops_safe: "ops_safe tcp_ops"
proof -
  have "\<not> is_panic (fst (tcp_ReadFrame k))" for k
    using tcpc.rfr_no_panic [of k] by (cases "fst (tcp_ReadFrame k)") (auto simp: prod_eq_iff)
  moreover have "\<not> is_panic (fst (tcp_WriteFrame k code p))" for k code p
    by (auto simp: tcp_WriteFrame_def WriteFrame_eq io_write_def split: option.splits)
  ultimately show ?thesis by (simp add: ops_safe_def tcp_ops_def)
qed

lemma connected_inv_new:
  "good_dialer d \<Longrightarrow> connected_inv (SetDialer d (tcp_NewClientWithProps i n m os))"
  "good_dialer d \<Longrightarrow> connected_inv (SetDialer d (ws_NewClientWithProps i n m os))"
  by (simp_all add: connected_inv_def SetDialer_def tcp_NewClientWithProps_def ws_NewClientWithProps_def)

definition demo_dialer :: "tcp_conn dialer" where
  "demo_dialer _ = Ret (Some \<lparr>rd = \<lparr>avail = [], rerr = ErrEOF\<rparr>, wr = buffer\<rparr>)"

definition demo_opts :: client_options where
  "demo_opts = \<lparr>Heartbeat = 0, ReadWait = 0, WriteWait = 0\<rparr>"

lemma demo_dialer_good: "good_dialer demo_dialer"
  by (simp add: good_dialer_def demo_dialer_def)

section \<open>Properties\<close>

text \<open>With a dialer that returns either an error or a connection, no sequence of \<open>Connect\<close>, \<open>Send\<close>,
  \<open>Read\<close> and \<open>Close\<close> on a new client, TCP or WebSocket, ends in a nil dereference.\<close>

lemma client_no_panic:
  assumes "ops_safe ops" and "good_dialer d"
  shows "\<not> fst (client_run (client_do (tcp_Connect u) (tcp_Send ops) (tcp_Read ops) (client_Close ops)) xs
           (SetDialer d (tcp_NewClientWithProps i n m opts)))
    \<and> \<not> fst (client_run (client_do (ws_Connect u) (ws_Send ops) (ws_Read ops) (ws_Close ops)) xs
           (SetDialer d (ws_NewClientWithProps i n m opts)))"
  using tcp_cli.run_no_panic [OF assms(1) connected_inv_new(1) [OF assms(2)]]
    ws_cli.run_no_panic [OF assms(1) connected_inv_new(2) [OF assms(2)]]
  by blast

lemma client_no_panic_example:
  "\<not> fst (client_run (client_do (tcp_Connect (\<lambda>_. None)) (tcp_Send tcp_ops) (tcp_Read tcp_ops) (client_Close tcp_ops))
      [DoSend [1], DoConnect ''a'', DoSend [1], DoRead, DoClose, DoSend [2], DoConnect ''b'', DoSend [3]]
      (SetDialer demo_dialer (tcp_NewClientWithProps ''i'' ''n'' None demo_opts)))"
  using client_no_panic [OF tcp_ops_safe demo_dialer_good] by blast

text \<open>A dialer that returns a nil connection without an error wedges the client for good: the
  \<open>Connect\<close> reports an error but leaves \<open>state\<close> at 1, so that afterwards every \<open>Connect\<close> is refused
  as already connected and a run of calls panics exactly when it contains a \<open>Send\<close>.\<close>

lemma nil_conn_wedges:
  assumes "u addr = None" and "\<forall>ctx. d ctx = Ret None"
    and "(r, c) = tcp_Connect u addr (SetDialer d (tcp_NewClientWithProps i n m opts))"
  shows "r = Fail (ErrMsg ''conn is nil'')
    \<and> (\<forall>a. u a = None \<longrightarrow> tcp_Connect u a c = (Fail (ErrMsg ''connection is connected''), c))
    \<and> (fst (client_run (client_do (tcp_Connect u) (tcp_Send ops) (tcp_Read ops) (client_Close ops)) xs c)
       \<longleftrightarrow> (\<exists>p. DoSend p \<in> set xs))"
proof -
  have c: "c_state c = 1" "c_conn c = None" and r: "r = Fail (ErrMsg ''conn is nil'')"
    using assms by (simp_all add: tcp_Connect_def connect_begin_def connect_end_def SetDialer_def
        tcp_NewClientWithProps_def)
  then show ?thesis using tcp_cli.run_wedged [of c u ops xs]
    by (simp add: tcp_Connect_def connect_begin_def)
qed

lemma nil_conn_wedges_example:
  "fst (client_run (client_do (tcp_Connect (\<lambda>_. None)) (tcp_Send tcp_ops) (tcp_Read tcp_ops) (client_Close tcp_ops))
     [DoConnect ''b'', DoRead, DoClose, DoSend [1]]
     (snd (tcp_Connect (\<lambda>_. None) ''a'' (SetDialer (\<lambda>_. Ret None) (tcp_NewClientWithProps ''i'' ''n'' None demo_opts)))))"
  using nil_conn_wedges [of "\<lambda>_. None" "''a''" "\<lambda>_. Ret None" _ _ "''i''" "''n''" None demo_opts tcp_ops
      "[DoConnect ''b'', DoRead, DoClose, DoSend [1]]", OF refl _ prod.collapse]
  by (simp del: client_run.simps client_do.simps)

text \<open>\<open>Close\<close> works once in the life of a client.  After a connection, a \<open>Close\<close> and a second
  successful \<open>Connect\<close>, \<open>Close\<close> changes nothing: the second connection stays open and in use.\<close>

lemma close_only_once:
  assumes "u a = None" and "u b = None"
    and "c1 = snd (tcp_Connect u a (SetDialer d (tcp_NewClientWithProps i n m opts)))"
    and "d (dial_context c1 a) = Ret (Some k1)"
    and "c2 = SetDialer d' (snd (client_Close ops c1))"
    and "d' (dial_context c2 b) = Ret (Some k2)"
    and "(r, c3) = tcp_Connect u b c2"
  shows "r = Ret () \<and> c_conn c3 = Some k2 \<and> c_state c3 = 1 \<and> client_Close ops c3 = (Ret (), c3)"
proof -
  let ?new = "SetDialer d (tcp_NewClientWithProps i n m opts)"
  have ctx: "dial_context (c\<lparr>c_state := st\<rparr>) x = dial_context c x"
       "dial_context (c\<lparr>c_conn := k, c_beats := h\<rparr>) x = dial_context c x" for c :: "'c client" and st k h x
    by (simp_all add: dial_context_def)
  have "dial_context c1 a = dial_context (?new\<lparr>c_state := 1\<rparr>) a"
    unfolding assms(3) tcp_Connect_def connect_begin_def connect_end_def
    by (auto simp: assms(1) dial_context_def split: option.splits go.splits)
  then have d1: "d (dial_context (?new\<lparr>c_state := 1\<rparr>) a) = Ret (Some k1)" using assms(4) by simp
  then have c1: "c_state c1 = 1" "c_conn c1 = Some k1" "c_once c1 = False"
    by (simp_all add: assms(1,3) tcp_Connect_def connect_begin_def connect_end_def SetDialer_def
        tcp_NewClientWithProps_def)
  then have c2: "c_state c2 = 0" "c_once c2" "c_dialer c2 = Some d'"
    by (simp_all add: assms(5) client_Close_def SetDialer_def Let_def split: prod.splits)
  then show ?thesis
    using assms(2,6,7) by (simp add: tcp_Connect_def connect_begin_def connect_end_def ctx client_Close_def)
qed

lemma close_only_once_example:
  "\<exists>c3. client_Close tcp_ops c3 = (Ret (), c3) \<and> c_state c3 = 1
    \<and> c3 = snd (tcp_Connect (\<lambda>_. None) ''b'' (SetDialer demo_dialer (snd (client_Close tcp_ops
        (snd (tcp_Connect (\<lambda>_. None) ''a'' (SetDialer demo_dialer (tcp_NewClientWithProps ''i'' ''n'' None demo_opts))))))))"
  using close_only_once [where u = "\<lambda>_. None" and a = "''a''" and b = "''b''" and d = demo_dialer
      and d' = demo_dialer and i = "''i''" and n = "''n''" and m = None and opts = demo_opts and ops = tcp_ops,
      OF refl refl refl demo_dialer_def refl demo_dialer_def prod.collapse]
  by blast

text \<open>\<open>Connect\<close> publishes \<open>state = 1\<close> before it dials: a \<open>Send\<close> from another goroutine between the
  two steps of a first \<open>Connect\<close> dereferences the nil connection, on both transports.\<close>

lemma send_while_dialing:
  assumes "u addr = None"
  shows "is_panic (fst (tcp_Send ops p (snd (connect_begin busy u addr (tcp_NewClientWithProps i n m opts)))))
    \<and> is_panic (fst (ws_Send ops p (snd (connect_begin busy u addr (ws_NewClientWithProps i n m opts)))))"
  using assms by (simp add: connect_begin_def tcp_Send_def ws_Send_def deadline_then_write_def
      tcp_NewClientWithProps_def ws_NewClientWithProps_def)

lemma send_while_dialing_example:
  "is_panic (fst (tcp_Send tcp_ops [1] (snd (connect_begin ''b'' (\<lambda>_. None) ''a''
     (tcp_NewClientWithProps ''i'' ''n'' None demo_opts)))))"
  using send_while_dialing [of "\<lambda>_. None" "''a''"] by blast

end
