(* ===== verification/Server.thy ===== *)
theory Server
  imports IdMap Channel Client Naming
begin

text \<open>
  \<open>tcp/server.go\<close> and \<open>websocket/server.go\<close>: construction and the checks of \<open>Start\<close>, then the goroutines
  that serve one connection each, as steps on a shared state, with \<open>Push\<close> and \<open>Shutdown\<close>.  The two
  servers differ in a few texts and in \<open>Push\<close>; the steps take the kind of server as an argument.
\<close>

section \<open>Construction and start\<close>

record server_conf =
  cf_listen :: string
  cf_service :: service
  cf_channels :: bool   \<comment> \<open>\<open>ChannelMap\<close> is not nil\<close>
  cf_acceptor :: bool   \<comment> \<open>an \<open>Acceptor\<close> is set\<close>
  cf_listener :: bool
  cf_state :: bool
  cf_loginwait :: int
  cf_readwait :: int
  cf_writewait :: int

definition tcp_NewServer :: "string \<Rightarrow> service \<Rightarrow> server_conf" where
  "tcp_NewServer addr service =
     \<lparr>cf_listen = addr, cf_service = service, cf_channels = True, cf_acceptor = False, cf_listener = False,
      cf_state = False, cf_loginwait = DefaultLoginWait, cf_readwait = DefaultReadWait,
      cf_writewait = DefaultWriteWait\<rparr>"

definition ws_NewServer :: "string \<Rightarrow> service \<Rightarrow> server_conf" where
  "ws_NewServer listen service =
     \<lparr>cf_listen = listen, cf_service = service, cf_channels = False, cf_acceptor = False, cf_listener = False,
      cf_state = False, cf_loginwait = DefaultLoginWait, cf_readwait = DefaultReadWait,
      cf_writewait = second * 10\<rparr>"

definition SetAcceptor :: "server_conf \<Rightarrow> server_conf" where "SetAcceptor s = s\<lparr>cf_acceptor := True\<rparr>"
definition SetMessageListener :: "server_conf \<Rightarrow> server_conf" where "SetMessageListener s = s\<lparr>cf_listener := True\<rparr>"
definition SetStateListener :: "server_conf \<Rightarrow> server_conf" where "SetStateListener s = s\<lparr>cf_state := True\<rparr>"
definition srv_SetReadWait :: "int \<Rightarrow> server_conf \<Rightarrow> server_conf" where "srv_SetReadWait t s = s\<lparr>cf_readwait := t\<rparr>"
definition SetChannelMap :: "server_conf \<Rightarrow> server_conf" where "SetChannelMap s = s\<lparr>cf_channels := True\<rparr>"

definition ws_SetAcceptor :: "server_conf \<Rightarrow> server_conf" where "ws_SetAcceptor s = s\<lparr>cf_acceptor := True\<rparr>"
definition ws_SetMessageListener :: "server_conf \<Rightarrow> server_conf" where "ws_SetMessageListener s = s\<lparr>cf_listener := True\<rparr>"
definition ws_SetStateListener :: "server_conf \<Rightarrow> server_conf" where "ws_SetStateListener s = s\<lparr>cf_state := True\<rparr>"
definition ws_SetReadWait :: "int \<Rightarrow> server_conf \<Rightarrow> server_conf" where "ws_SetReadWait t s = s\<lparr>cf_readwait := t\<rparr>"
definition ws_SetChannelMap :: "server_conf \<Rightarrow> server_conf" where "ws_SetChannelMap s = s\<lparr>cf_channels := True\<rparr>"

lemmas ws_setters = ws_SetAcceptor_def ws_SetMessageListener_def ws_SetStateListener_def ws_SetReadWait_def ws_SetChannelMap_def

text \<open>The acceptors of servers that were given none: \<open>ksuid\<close> is the next identifier of that library.\<close>

definition tcp_default_Accept :: "string \<Rightarrow> 'c \<Rightarrow> string go \<times> 'c" where "tcp_default_Accept ksuid conn = (Ret ksuid, conn)"
definition ws_default_Accept :: "string \<Rightarrow> 'c \<Rightarrow> string go \<times> 'c" where "ws_default_Accept ksuid conn = (Ret ksuid, conn)"

text \<open>\<open>Start\<close> up to the listening socket, whose own error is the argument.\<close>

definition tcp_Start :: "error option \<Rightarrow> server_conf \<Rightarrow> unit go \<times> server_conf" where
  "tcp_Start listen_err s =
     (if \<not> cf_state s then (Fail (ErrMsg ''statelistener is nil''), s)
      else
        let s1 = (if \<not> cf_acceptor s then s\<lparr>cf_acceptor := True\<rparr> else s)
        in case listen_err of Some e \<Rightarrow> (Fail e, s1) | None \<Rightarrow> (Ret (), s1))"

definition ws_Start :: "server_conf \<Rightarrow> unit go \<times> server_conf" where
  "ws_Start s =
     (let s1 = (if \<not> cf_acceptor s then s\<lparr>cf_acceptor := True\<rparr> else s)
      in if \<not> cf_state s1 then (Fail (ErrMsg ''StateListener is nil''), s1)
         else (Ret (), if \<not> cf_channels s1 then s1\<lparr>cf_channels := True\<rparr> else s1))"

section \<open>One turn of the read loop\<close>

datatype turn = LoopEnds "unit go" | LoopGoes "bytes list"

definition read_turn ::
    "('c \<Rightarrow> frame go \<times> 'c) \<Rightarrow> ('c \<Rightarrow> opcode \<Rightarrow> bytes \<Rightarrow> unit go \<times> 'c) \<Rightarrow> 'c \<Rightarrow> turn \<times> 'c" where
  "read_turn rfr wfr c =
     (case rfr c of
        (Fail e, c1) \<Rightarrow> (LoopEnds (Fail e), c1)
      | (Panics m, c1) \<Rightarrow> (LoopEnds (Panics m), c1)
      | (Ret fr, c1) \<Rightarrow>
          if GetOpCode fr = OpClose then (LoopEnds (Fail (ErrMsg ''remote side close the channe'')), c1)
          else if GetOpCode fr = OpPing then (LoopGoes [], snd (wfr c1 OpPong []))
          else if length (GetPayload fr) = 0 then (LoopGoes [], c1)
          else (LoopGoes [GetPayload fr], c1))"

lemma Readloop_turn:
  "Readloop rfr wfr c s = (case read_turn rfr wfr c of
      (LoopEnds r, c1) \<Rightarrow> Some (r, c1, s)
    | (LoopGoes ds, c1) \<Rightarrow> Readloop rfr wfr c1 (s @ ds))"
  by (subst Readloop.simps) (simp add: read_turn_def split: prod.splits go.splits)

section \<open>The state the connection goroutines share\<close>

datatype srv_kind = TcpServer | WsServer

text \<open>Where the goroutine of a connection is; the identifier is what the acceptor returned.\<close>

datatype handler_pc =
    HNone
  | HAuth             \<comment> \<open>in \<open>Acceptor.Accept\<close>\<close>
  | HAccepted string  \<comment> \<open>before \<open>ChannelMap.Get\<close>\<close>
  | HFresh string     \<comment> \<open>the identifier was not registered\<close>
  | HServing string   \<comment> \<open>registered, in \<open>Readloop\<close>\<close>
  | HEnded string     \<comment> \<open>out of \<open>Readloop\<close> and of the registry\<close>
  | HRejected
  | HDone

text \<open>
  Connections are numbered.  \<open>sv_conn\<close> holds a connection until its channel exists, then the channel
  (\<open>sv_chan\<close>) holds it; \<open>sv_open\<close> says that nobody on this side has closed it.
\<close>

record 'c server =
  sv_map :: channel_map
  sv_conn :: "nat \<Rightarrow> 'c"
  sv_chan :: "nat \<Rightarrow> 'c channel option"
  sv_open :: "nat \<Rightarrow> bool"
  sv_pc :: "nat \<Rightarrow> handler_pc"
  sv_received :: "(string \<times> bytes) list"
  sv_left :: "string list"
  sv_quit :: event
  sv_shut :: bool

definition srv_init :: "(nat \<Rightarrow> 'c) \<Rightarrow> 'c server" where
  "srv_init conns = \<lparr>sv_map = NewChannels, sv_conn = conns, sv_chan = (\<lambda>_. None), sv_open = (\<lambda>_. True),
     sv_pc = (\<lambda>_. HNone), sv_received = [], sv_left = [], sv_quit = NewEvent, sv_shut = False\<rparr>"

section \<open>Push and Shutdown\<close>

text \<open>A push on a channel the registry gave out.\<close>

definition push_ref ::
    "('c \<Rightarrow> opcode \<Rightarrow> bytes \<Rightarrow> unit go \<times> 'c) \<Rightarrow> chan_ref \<Rightarrow> bytes \<Rightarrow> 'c server \<Rightarrow> unit go \<times> 'c server" where
  "push_ref wfr ch payload s =
     (case sv_chan s (ref_conn ch) of
        None \<Rightarrow> (Panics ''nil channel'', s)
      | Some c \<Rightarrow> (let (r, c1) = ch_Push wfr c payload in (r, s\<lparr>sv_chan := (sv_chan s)(ref_conn ch \<mapsto> c1)\<rparr>)))"

text \<open>The TCP server builds its error text from the channel it did not find, which is nil.\<close>

definition tcp_srv_Push ::
    "('c \<Rightarrow> opcode \<Rightarrow> bytes \<Rightarrow> unit go \<times> 'c) \<Rightarrow> string \<Rightarrow> bytes \<Rightarrow> 'c server \<Rightarrow> unit go \<times> 'c server" where
  "tcp_srv_Push wfr i payload s =
     (case cm_Get i (sv_map s) of
        None \<Rightarrow> (Panics ''nil channel'', s)
      | Some ch \<Rightarrow> push_ref wfr ch payload s)"

definition ws_srv_Push ::
    "('c \<Rightarrow> opcode \<Rightarrow> bytes \<Rightarrow> unit go \<times> 'c) \<Rightarrow> string \<Rightarrow> bytes \<Rightarrow> 'c server \<Rightarrow> unit go \<times> 'c server" where
  "ws_srv_Push wfr i data s =
     (case cm_Get i (sv_map s) of
        None \<Rightarrow> (Fail (ErrMsg (''push to channel [ID]:'' @ i @ '' , channel not found'')), s)
      | Some ch \<Rightarrow> push_ref wfr ch data s)"

text \<open>Closing the channels in the order \<open>All\<close> lists them, at most as many as the context allows.\<close>

fun close_refs :: "chan_ref list \<Rightarrow> 'c server \<Rightarrow> unit go \<times> 'c server" where
  "close_refs [] s = (Ret (), s)"
| "close_refs (ch # chs) s =
     (case sv_chan s (ref_conn ch) of
        None \<Rightarrow> (Panics ''nil channel'', s)
      | Some c \<Rightarrow>
          (case ch_Close c of
             (Panics m, c1) \<Rightarrow> (Panics m, s\<lparr>sv_chan := (sv_chan s)(ref_conn ch \<mapsto> c1)\<rparr>)
           | (_, c1) \<Rightarrow> close_refs chs (s\<lparr>sv_chan := (sv_chan s)(ref_conn ch \<mapsto> c1)\<rparr>)))"

definition srv_Shutdown :: "(channel_map \<Rightarrow> channel_map) \<Rightarrow> nat \<Rightarrow> 'c server \<Rightarrow> unit go \<times> 'c server" where
  "srv_Shutdown \<pi> n s =
     (if sv_shut s then (Ret (), s)
      else close_refs (take (Suc n) (cm_All \<pi> (sv_map s))) (s\<lparr>sv_shut := True\<rparr>))"

section \<open>The steps of a connection\<close>

datatype srv_event =
    EvAccept nat
  | EvAcceptError error
  | EvAuthFailed nat error
  | EvAuthRead nat
  | EvAuthWrite nat opcode bytes
  | EvAuthOk nat string
  | EvCheck nat
  | EvAdd nat
  | EvTurn nat
  | EvDisconnect nat
  | EvPush string bytes
  | EvShutdown nat

definition srv_goto :: "nat \<Rightarrow> handler_pc \<Rightarrow> 'c server \<Rightarrow> 'c server" where
  "srv_goto k p s = s\<lparr>sv_pc := (sv_pc s)(k := p)\<rparr>"

text \<open>Refusing a connection: a close frame with the reason, whose error is ignored, then \<open>Close\<close>.\<close>

definition reject ::
    "('c \<Rightarrow> opcode \<Rightarrow> bytes \<Rightarrow> unit go \<times> 'c) \<Rightarrow> nat \<Rightarrow> string \<Rightarrow> 'c server \<Rightarrow> 'c server" where
  "reject wfr k why s = srv_goto k HRejected
     (s\<lparr>sv_conn := (sv_conn s)(k := snd (wfr (sv_conn s k) OpClose (to_bytes why))),
        sv_open := (sv_open s)(k := False)\<rparr>)"

definition repeated_text :: "srv_kind \<Rightarrow> string" where
  "repeated_text kind = (case kind of TcpServer \<Rightarrow> ''channel id is connected'' | WsServer \<Rightarrow> ''channelId is repeated'')"

text \<open>
  \<open>srv_do\<close> is one step; \<open>None\<close> means that the step is not enabled in the state.  A failed
  \<open>lis.Accept\<close> of the TCP server closes the nil connection it returned; the HTTP server deals with
  its own.  Between \<open>EvAccept\<close> and the acceptor's result, \<open>EvAuthRead\<close> and \<open>EvAuthWrite\<close> are the calls the
  acceptor makes on the connection, whose errors it sees.  The read loop always ends with an error, so
  the TCP server's test of it is always true.
\<close>

fun srv_do ::
    "srv_kind \<Rightarrow> ('c \<Rightarrow> frame go \<times> 'c) \<Rightarrow> ('c \<Rightarrow> opcode \<Rightarrow> bytes \<Rightarrow> unit go \<times> 'c) \<Rightarrow> (channel_map \<Rightarrow> channel_map)
       \<Rightarrow> int \<times> int \<Rightarrow> srv_event \<Rightarrow> 'c server \<Rightarrow> (unit go \<times> 'c server) option" where
  "srv_do kind rfr wfr \<pi> w (EvAccept k) s =
     (if sv_pc s k = HNone \<and> \<not> Done_ready (sv_quit s) then Some (Ret (), srv_goto k HAuth s) else None)"
| "srv_do kind rfr wfr \<pi> w (EvAcceptError e) s =
     (case kind of TcpServer \<Rightarrow> Some (Panics ''nil rawconn'', s) | WsServer \<Rightarrow> Some (Ret (), s))"
| "srv_do kind rfr wfr \<pi> w (EvAuthFailed k e) s =
     (if sv_pc s k = HAuth then Some (Ret (), reject wfr k (err_text e) s) else None)"
| "srv_do kind rfr wfr \<pi> w (EvAuthRead k) s =
     (if sv_pc s k = HAuth
      then let (r, c) = rfr (sv_conn s k)
           in Some (case r of Panics m \<Rightarrow> Panics m | _ \<Rightarrow> Ret (), s\<lparr>sv_conn := (sv_conn s)(k := c)\<rparr>)
      else None)"
| "srv_do kind rfr wfr \<pi> w (EvAuthWrite k code p) s =
     (if sv_pc s k = HAuth
      then let (r, c) = wfr (sv_conn s k) code p
           in Some (case r of Panics m \<Rightarrow> Panics m | _ \<Rightarrow> Ret (), s\<lparr>sv_conn := (sv_conn s)(k := c)\<rparr>)
      else None)"
| "srv_do kind rfr wfr \<pi> w (EvAuthOk k i) s =
     (if sv_pc s k = HAuth then Some (Ret (), srv_goto k (HAccepted i) s) else None)"
| "srv_do kind rfr wfr \<pi> w (EvCheck k) s =
     (case sv_pc s k of
        HAccepted i \<Rightarrow>
          (case cm_Get i (sv_map s) of
             Some _ \<Rightarrow> Some (Ret (), reject wfr k (repeated_text kind) s)
           | None \<Rightarrow> Some (Ret (), srv_goto k (HFresh i) s))
      | _ \<Rightarrow> None)"
| "srv_do kind rfr wfr \<pi> w (EvAdd k) s =
     (case sv_pc s k of
        HFresh i \<Rightarrow>
          let ch = SetWriteWait (snd w) (SetReadWait (fst w) (NewChannel i (sv_conn s k)))
          in Some (Ret (), srv_goto k (HServing i)
               (s\<lparr>sv_chan := (sv_chan s)(k \<mapsto> ch), sv_map := cm_Add \<lparr>ref_id = i, ref_conn = k\<rparr> (sv_map s)\<rparr>))
      | _ \<Rightarrow> None)"
| "srv_do kind rfr wfr \<pi> w (EvTurn k) s =
     (case (sv_pc s k, sv_chan s k) of
        (HServing i, Some ch) \<Rightarrow>
          (case read_turn rfr wfr (IConn ch) of
             (LoopGoes ds, c1) \<Rightarrow>
               Some (Ret (), s\<lparr>sv_chan := (sv_chan s)(k \<mapsto> ch\<lparr>IConn := c1\<rparr>),
                               sv_received := sv_received s @ map (Pair (ch_id ch)) ds\<rparr>)
           | (LoopEnds (Panics m), c1) \<Rightarrow> Some (Panics m, s\<lparr>sv_chan := (sv_chan s)(k \<mapsto> ch\<lparr>IConn := c1\<rparr>)\<rparr>)
           | (LoopEnds _, c1) \<Rightarrow>
               Some (Ret (), srv_goto k (HEnded i) (s\<lparr>sv_chan := (sv_chan s)(k \<mapsto> ch\<lparr>IConn := c1\<rparr>),
                               sv_map := cm_Remove (ch_id ch) (sv_map s)\<rparr>)))
      | _ \<Rightarrow> None)"
| "srv_do kind rfr wfr \<pi> w (EvDisconnect k) s =
     (case (sv_pc s k, sv_chan s k) of
        (HEnded i, Some ch) \<Rightarrow>
          let (r, ch1) = ch_Close ch
          in Some (r, srv_goto k HDone (s\<lparr>sv_left := sv_left s @ [ch_id ch], sv_chan := (sv_chan s)(k \<mapsto> ch1)\<rparr>))
      | _ \<Rightarrow> None)"
| "srv_do kind rfr wfr \<pi> w (EvPush i payload) s =
     Some (case kind of TcpServer \<Rightarrow> tcp_srv_Push wfr i payload s | WsServer \<Rightarrow> ws_srv_Push wfr i payload s)"
| "srv_do kind rfr wfr \<pi> w (EvShutdown n) s = Some (srv_Shutdown \<pi> n s)"

text \<open>A run: every step enabled, and none after a panic, which ends the process.\<close>

fun srv_run ::
    "srv_kind \<Rightarrow> ('c \<Rightarrow> frame go \<times> 'c) \<Rightarrow> ('c \<Rightarrow> opcode \<Rightarrow> bytes \<Rightarrow> unit go \<times> 'c) \<Rightarrow> (channel_map \<Rightarrow> channel_map)
       \<Rightarrow> int \<times> int \<Rightarrow> srv_event list \<Rightarrow> 'c server \<Rightarrow> (unit go \<times> 'c server) option" where
  "srv_run kind rfr wfr \<pi> w [] s = Some (Ret (), s)"
| "srv_run kind rfr wfr \<pi> w (ev # evs) s =
     (case srv_do kind rfr wfr \<pi> w ev s of
        None \<Rightarrow> None
      | Some (Panics m, s1) \<Rightarrow> (if evs = [] then Some (Panics m, s1) else None)
      | Some (_, s1) \<Rightarrow> srv_run kind rfr wfr \<pi> w evs s1)"

section \<open>Soundness of the shared state\<close>

definition srv_target :: "string \<Rightarrow> 'c server \<Rightarrow> nat option" where
  "srv_target i s = map_option ref_conn (cm_Get i (sv_map s))"

text \<open>A registered identifier belongs to a connection that is being served under it.\<close>

definition srv_inv :: "'c server \<Rightarrow> bool" where
  "srv_inv s \<longleftrightarrow> keyed ref_id (sv_map s)
     \<and> (\<forall>i k. srv_target i s = Some k \<longrightarrow> sv_pc s k = HServing i)
     \<and> (\<forall>k i. sv_pc s k \<in> {HServing i, HEnded i} \<longrightarrow>
          (\<exists>ch. sv_chan s k = Some ch \<and> ch_id ch = i \<and> closing_inv ch))
     \<and> (\<forall>k. sv_open s k \<longleftrightarrow> sv_pc s k \<noteq> HRejected)
     \<and> \<not> Done_ready (sv_quit s)"

lemma srv_inv_init [simp]: "srv_inv (srv_init conns)"
  by (simp add: srv_inv_def srv_init_def srv_target_def cm.get_empty cm.inv_empty Done_ready_def NewEvent_def)

lemma srv_goto_simps [simp]:
  "sv_map (srv_goto k p s) = sv_map s" "sv_conn (srv_goto k p s) = sv_conn s"
  "sv_chan (srv_goto k p s) = sv_chan s" "sv_open (srv_goto k p s) = sv_open s"
  "sv_quit (srv_goto k p s) = sv_quit s" "sv_received (srv_goto k p s) = sv_received s"
  "sv_left (srv_goto k p s) = sv_left s" "sv_shut (srv_goto k p s) = sv_shut s"
  "sv_pc (srv_goto k p s) = (sv_pc s)(k := p)"
  by (simp_all add: srv_goto_def)

lemma srv_target_map: "sv_map s = sv_map t \<Longrightarrow> srv_target i s = srv_target i t"
  by (simp add: srv_target_def)

lemma srv_invD:
  assumes "srv_inv s"
  shows "srv_target i s = Some k \<Longrightarrow> sv_pc s k = HServing i"
    and "sv_pc s k = HServing i \<Longrightarrow> \<exists>ch. sv_chan s k = Some ch \<and> ch_id ch = i \<and> closing_inv ch"
    and "sv_pc s k = HEnded i \<Longrightarrow> \<exists>ch. sv_chan s k = Some ch \<and> ch_id ch = i \<and> closing_inv ch"
    and "sv_open s k \<longleftrightarrow> sv_pc s k \<noteq> HRejected"
    and "keyed ref_id (sv_map s)" and "\<not> Done_ready (sv_quit s)"
  using assms by (auto simp: srv_inv_def)

text \<open>A step of the goroutine of \<open>k\<close> outside the registry and the channels.\<close>

lemma srv_inv_goto:
  assumes "srv_inv s" "\<forall>i. sv_pc s k \<noteq> HServing i" "\<forall>i. p \<noteq> HServing i" "\<forall>i. p \<noteq> HEnded i" "p \<noteq> HRejected"
    "sv_pc s k \<noteq> HRejected"
  shows "srv_inv (srv_goto k p s)"
proof -
  have "k' \<noteq> k" if "srv_target i s = Some k'" for i k'
    using srv_invD(1) [OF assms(1) that] assms(2) by blast
  then show ?thesis using assms by (auto simp: srv_inv_def srv_target_def split: if_splits)
qed

lemma srv_inv_reject:
  assumes "srv_inv s" "\<forall>i. sv_pc s k \<noteq> HServing i"
  shows "srv_inv (reject wfr k why s)"
proof -
  have "k' \<noteq> k" if "srv_target i s = Some k'" for i k'
    using srv_invD(1) [OF assms(1) that] assms(2) by blast
  then show ?thesis using assms by (auto simp: srv_inv_def srv_target_def reject_def split: if_splits)
qed

text \<open>Replacing the channel of a connection by one with the same identifier.\<close>

lemma srv_inv_chan:
  assumes "srv_inv s" "sv_chan s k = Some ch" "ch_id ch' = ch_id ch" "closing_inv ch'"
  shows "srv_inv (s\<lparr>sv_chan := (sv_chan s)(k \<mapsto> ch')\<rparr>)"
proof -
  have "ch_id ch = i" if "sv_pc s k = HServing i \<or> sv_pc s k = HEnded i" for i
    using that srv_invD(2,3) [OF assms(1), of k] assms(2) by fastforce
  then show ?thesis using assms by (auto simp: srv_inv_def srv_target_def split: if_splits)
qed

lemma ch_Push_fields:
  "ch_id (snd (ch_Push wfr ch p)) = ch_id ch"
  by (simp add: ch_Push_def split: prod.splits)

lemma ch_Close_fields:
  assumes "closing_inv ch"
  shows "fst (ch_Close ch) = Ret ()" "ch_id (snd (ch_Close ch)) = ch_id ch" "closing_inv (snd (ch_Close ch))"
    "IConn (snd (ch_Close ch)) = IConn ch"
  using assms by (cases "ch_once ch"; simp add: ch_Close_once ch_Close_first; simp add: closing_inv_def)+

lemma push_ref_inv:
  assumes "srv_inv s" "cm_Get i (sv_map s) = Some r"
  shows "srv_inv (snd (push_ref wfr r p s))"
proof -
  have "srv_target i s = Some (ref_conn r)" using assms(2) by (simp add: srv_target_def)
  then obtain ch where ch: "sv_chan s (ref_conn r) = Some ch" "closing_inv ch"
    using srv_invD(1,2) [OF assms(1)] by blast
  then have "srv_inv (s\<lparr>sv_chan := (sv_chan s)(ref_conn r \<mapsto> snd (ch_Push wfr ch p))\<rparr>)"
    by (intro srv_inv_chan [OF assms(1)]) (simp_all add: ch_Push_fields)
  then show ?thesis using ch by (simp add: push_ref_def split_beta)
qed

lemma Push_inv:
  assumes "srv_inv s"
  shows "srv_inv (snd (tcp_srv_Push wfr i p s))" "srv_inv (snd (ws_srv_Push wfr i p s))"
  using assms push_ref_inv [OF assms]
  by (auto simp: tcp_srv_Push_def ws_srv_Push_def split: option.splits)

lemma close_refs_inv:
  "srv_inv s \<Longrightarrow> \<forall>r \<in> set rs. srv_target (ref_id r) s = Some (ref_conn r)
     \<Longrightarrow> srv_inv (snd (close_refs rs s)) \<and> fst (close_refs rs s) = Ret ()
       \<and> sv_map (snd (close_refs rs s)) = sv_map s \<and> sv_pc (snd (close_refs rs s)) = sv_pc s
       \<and> (\<forall>k. map_option IConn (sv_chan (snd (close_refs rs s)) k) = map_option IConn (sv_chan s k))"
proof (induction rs arbitrary: s)
  case (Cons r rs)
  obtain ch where ch: "sv_chan s (ref_conn r) = Some ch" "closing_inv ch"
    using srv_invD(1,2) [OF Cons.prems(1)] Cons.prems(2) by (meson list.set_intros(1))
  note close = ch_Close_fields [OF ch(2)]
  let ?s = "s\<lparr>sv_chan := (sv_chan s)(ref_conn r \<mapsto> snd (ch_Close ch))\<rparr>"
  have inv: "srv_inv ?s" by (rule srv_inv_chan [OF Cons.prems(1) ch(1)]) (simp_all add: close)
  have eq: "close_refs (r # rs) s = close_refs rs ?s"
    using ch(1) close(1) by (cases "ch_Close ch") simp
  have "\<forall>r \<in> set rs. srv_target (ref_id r) ?s = Some (ref_conn r)"
    using Cons.prems(2) by (simp add: srv_target_def)
  from Cons.IH [OF inv this] show ?case unfolding eq using ch(1) close(4) by auto
qed simp

lemma cm_All_targets:
  assumes "is_order \<pi>" "srv_inv s"
  shows "\<forall>r \<in> set (cm_All \<pi> (sv_map s)). srv_target (ref_id r) s = Some (ref_conn r)"
proof -
  have "cm_Get = sm_Load" by (auto simp: cm_Get_def fun_eq_iff split: option.splits)
  then show ?thesis using Range_set [OF assms(1) srv_invD(5) [OF assms(2)]]
    by (auto simp: cm_All_def srv_target_def)
qed

lemma Shutdown_inv:
  assumes "srv_inv s" "is_order \<pi>"
  shows "srv_inv (snd (srv_Shutdown \<pi> n s)) \<and> fst (srv_Shutdown \<pi> n s) = Ret ()
    \<and> sv_map (snd (srv_Shutdown \<pi> n s)) = sv_map s \<and> sv_pc (snd (srv_Shutdown \<pi> n s)) = sv_pc s
    \<and> (\<forall>k. map_option IConn (sv_chan (snd (srv_Shutdown \<pi> n s)) k) = map_option IConn (sv_chan s k))"
proof (cases "sv_shut s")
  case False
  let ?s = "s\<lparr>sv_shut := True\<rparr>"
  have "srv_inv ?s" using assms(1) by (simp add: srv_inv_def srv_target_def)
  moreover have "\<forall>r \<in> set (take (Suc n) (cm_All \<pi> (sv_map s))). srv_target (ref_id r) ?s = Some (ref_conn r)"
    using cm_All_targets [OF assms(2,1)] by (auto simp: srv_target_def dest: in_set_takeD)
  ultimately show ?thesis using close_refs_inv [of ?s] False by (simp add: srv_Shutdown_def)
qed (use assms in \<open>simp add: srv_Shutdown_def\<close>)

lemma srv_inv_add:
  assumes "srv_inv s" "sv_pc s k = HFresh i" "ch_id ch = i" "closing_inv ch"
  shows "srv_inv (srv_goto k (HServing i)
    (s\<lparr>sv_chan := (sv_chan s)(k \<mapsto> ch), sv_map := cm_Add \<lparr>ref_id = i, ref_conn = k\<rparr> (sv_map s)\<rparr>))"
proof -
  have km: "keyed ref_id (sv_map s)" by (rule srv_invD(5) [OF assms(1)])
  have "k' \<noteq> k" if "srv_target j s = Some k'" for j k'
    using srv_invD(1) [OF assms(1) that] assms(2) by auto
  then show ?thesis
    using assms by (auto simp: srv_inv_def srv_target_def cm.inv_add [OF km] cm.get_add [OF km] split: if_splits)
qed

lemma srv_inv_end:
  assumes "srv_inv s" "sv_pc s k = HServing i" "sv_chan s k = Some ch"
  shows "srv_inv (srv_goto k (HEnded i) (s\<lparr>sv_chan := (sv_chan s)(k \<mapsto> ch\<lparr>IConn := c\<rparr>),
    sv_map := cm_Remove (ch_id ch) (sv_map s)\<rparr>))"
proof -
  have km: "keyed ref_id (sv_map s)" by (rule srv_invD(5) [OF assms(1)])
  have i: "ch_id ch = i" "closing_inv ch" using srv_invD(2) [OF assms(1,2)] assms(3) by auto
  have "k' \<noteq> k" if "srv_target j s = Some k'" "j \<noteq> i" for j k'
    using srv_invD(1) [OF assms(1) that(1)] assms(2) that(2) by auto
  moreover have "closing_inv (ch\<lparr>IConn := c\<rparr>)" using i(2) by (simp add: closing_inv_def)
  ultimately show ?thesis
    using assms i by (auto simp: srv_inv_def srv_target_def cm.inv_remove [OF km] cm.get_remove [OF km] split: if_splits)
qed

lemma srv_inv_turn:
  assumes "srv_inv s" "sv_chan s k = Some ch"
  shows "srv_inv (s\<lparr>sv_chan := (sv_chan s)(k \<mapsto> ch\<lparr>IConn := c\<rparr>), sv_received := l\<rparr>)"
    and "srv_inv (s\<lparr>sv_chan := (sv_chan s)(k \<mapsto> ch\<lparr>IConn := c\<rparr>)\<rparr>)"
proof -
  have *: "ch_id ch = i \<and> closing_inv ch" if "sv_pc s k = HServing i \<or> sv_pc s k = HEnded i" for i
    using that srv_invD(2,3) [OF assms(1), of k] assms(2) by fastforce
  have "closing_inv (ch\<lparr>IConn := c\<rparr>) = closing_inv ch" by (simp add: closing_inv_def)
  with * assms show "srv_inv (s\<lparr>sv_chan := (sv_chan s)(k \<mapsto> ch\<lparr>IConn := c\<rparr>), sv_received := l\<rparr>)"
    "srv_inv (s\<lparr>sv_chan := (sv_chan s)(k \<mapsto> ch\<lparr>IConn := c\<rparr>)\<rparr>)"
    by (auto simp: srv_inv_def srv_target_def split: if_splits)
qed

lemma srv_inv_disconnect:
  assumes "srv_inv s" "sv_pc s k = HEnded i" "sv_chan s k = Some ch"
  shows "srv_inv (srv_goto k HDone (s\<lparr>sv_left := l, sv_chan := (sv_chan s)(k \<mapsto> snd (ch_Close ch))\<rparr>))"
proof -
  have "k' \<noteq> k" if "srv_target j s = Some k'" for j k'
    using srv_invD(1) [OF assms(1) that] assms(2) by auto
  then show ?thesis using assms by (auto simp: srv_inv_def srv_target_def split: if_splits)
qed

text \<open>The calls of an acceptor change nothing but the connection.\<close>

lemma srv_auth_io:
  assumes "ev = EvAuthRead k \<or> ev = EvAuthWrite k code p" "srv_do kind rfr wfr \<pi> w ev s = Some (r, t)"
  shows "sv_pc s k = HAuth \<and> (\<exists>c. t = s\<lparr>sv_conn := (sv_conn s)(k := c)\<rparr>
    \<and> c = (if ev = EvAuthRead k then snd (rfr (sv_conn s k)) else snd (wfr (sv_conn s k) code p)))"
  using assms by (auto simp: Let_def split_beta split: if_splits)

lemma srv_inv_conn: "srv_inv (s\<lparr>sv_conn := f\<rparr>) = srv_inv s"
  by (simp add: srv_inv_def srv_target_def)

lemma srv_do_inv:
  assumes "srv_inv s" "is_order \<pi>" "srv_do kind rfr wfr \<pi> w ev s = Some (r, t)"
  shows "srv_inv t"
proof (cases ev)
  case (EvAccept k)
  then show ?thesis using assms by (auto split: if_splits intro!: srv_inv_goto)
next
  case (EvAcceptError e)
  then show ?thesis using assms by (auto split: srv_kind.splits)
next
  case (EvAuthFailed k e)
  then show ?thesis using assms by (auto split: if_splits intro!: srv_inv_reject)
next
  case (EvAuthOk k i)
  then show ?thesis using assms by (auto split: if_splits intro!: srv_inv_goto)
next
  case (EvCheck k)
  then show ?thesis using assms
    by (auto split: handler_pc.splits option.splits intro!: srv_inv_reject srv_inv_goto)
next
  case (EvAdd k)
  then show ?thesis using assms
    by (auto simp: Let_def split: handler_pc.splits)
       (rule srv_inv_add; simp add: SetReadWait_def SetWriteWait_def NewChannel_def closing_inv_def NewEvent_def)
next
  case (EvTurn k)
  then show ?thesis using assms
    by (auto split: handler_pc.splits option.splits prod.splits turn.splits go.splits
        intro: srv_inv_turn srv_inv_end)
next
  case (EvDisconnect k)
  obtain i ch where "sv_pc s k = HEnded i" "sv_chan s k = Some ch"
    using assms(3) EvDisconnect by (auto split: handler_pc.splits option.splits)
  then show ?thesis using assms EvDisconnect srv_inv_disconnect [OF assms(1)]
    by (auto simp: Let_def split_beta)
next
  case (EvPush i p)
  then show ?thesis using assms Push_inv [OF assms(1), of wfr i p]
    by (auto split: srv_kind.splits)
next
  case (EvShutdown n)
  then show ?thesis using assms Shutdown_inv [OF assms(1,2), of n] by auto
next
  case (EvAuthRead k)
  then show ?thesis using srv_auth_io [OF disjI1 assms(3)] assms(1) by (auto simp: srv_inv_conn)
next
  case (EvAuthWrite k code p)
  then show ?thesis using srv_auth_io [OF disjI2 assms(3)] assms(1) by (auto simp: srv_inv_conn)
qed

lemma srv_run_inv:
  "srv_run kind rfr wfr \<pi> w evs s = Some (r, t) \<Longrightarrow> is_order \<pi> \<Longrightarrow> srv_inv s \<Longrightarrow> srv_inv t"
proof (induction evs arbitrary: s)
  case (Cons ev evs)
  then obtain r1 s1 where d: "srv_do kind rfr wfr \<pi> w ev s = Some (r1, s1)"
    by (auto split: option.splits)
  have inv: "srv_inv s1" by (rule srv_do_inv [OF Cons.prems(3,2) d])
  show ?case
  proof (cases "is_panic r1")
    case True
    then show ?thesis using Cons.prems(1) d inv by (cases r1) (auto split: if_splits)
  next
    case False
    then have "srv_run kind rfr wfr \<pi> w evs s1 = Some (r, t)"
      using Cons.prems(1) d by (cases r1) auto
    from Cons.IH [OF this Cons.prems(2) inv] show ?thesis .
  qed
qed simp

section \<open>Distinct identifiers\<close>

fun auth_id :: "srv_event \<Rightarrow> string list" where
  "auth_id (EvAuthOk k i) = [i]"
| "auth_id _ = []"

definition holds :: "'c server \<Rightarrow> nat \<Rightarrow> string \<Rightarrow> bool" where
  "holds s k i \<longleftrightarrow> sv_pc s k = HAccepted i \<or> sv_pc s k = HFresh i \<or> sv_pc s k = HServing i"

definition uniq :: "string set \<Rightarrow> 'c server \<Rightarrow> bool" where
  "uniq U s \<longleftrightarrow> (\<forall>k i. holds s k i \<longrightarrow> i \<in> U) \<and> (\<forall>k j i. holds s k i \<longrightarrow> holds s j i \<longrightarrow> k = j)
     \<and> (\<forall>k i. sv_pc s k = HServing i \<longrightarrow> srv_target i s = Some k)"

lemma uniq_init: "uniq {} (srv_init conns)"
  by (simp add: uniq_def holds_def srv_init_def)

lemma uniq_same: "sv_pc t = sv_pc s \<Longrightarrow> sv_map t = sv_map s \<Longrightarrow> uniq U s \<Longrightarrow> uniq U t"
  by (simp add: uniq_def holds_def srv_target_def)

text \<open>A goroutine that leaves an identifier, or moves on with the one it has.\<close>

lemma uniq_goto:
  assumes "uniq U s" "sv_pc t = (sv_pc s)(k := p)" "sv_map t = sv_map s" "\<forall>i. p \<noteq> HServing i"
    "\<forall>i. p = HAccepted i \<or> p = HFresh i \<longrightarrow> holds s k i"
  shows "uniq U t"
proof -
  have "holds s j i" if "holds t j i" for j i
    using that assms(2,4,5) by (cases "j = k") (auto simp: holds_def)
  moreover have "sv_pc s j = HServing i" if "sv_pc t j = HServing i" for j i
    using that assms(2,4) by (cases "j = k") auto
  ultimately show ?thesis using assms(1,3) unfolding uniq_def srv_target_def by metis
qed

lemma push_ref_keeps:
  "sv_pc (snd (push_ref wfr r p s)) = sv_pc s" "sv_map (snd (push_ref wfr r p s)) = sv_map s"
  by (simp_all add: push_ref_def split: option.splits prod.splits)

lemma Push_keeps:
  "sv_pc (snd (tcp_srv_Push wfr i p s)) = sv_pc s" "sv_map (snd (tcp_srv_Push wfr i p s)) = sv_map s"
  "sv_pc (snd (ws_srv_Push wfr i p s)) = sv_pc s" "sv_map (snd (ws_srv_Push wfr i p s)) = sv_map s"
  by (simp_all add: tcp_srv_Push_def ws_srv_Push_def push_ref_keeps split: option.splits)

lemma uniq_do:
  assumes "srv_inv s" "is_order \<pi>" "uniq U s" "set (auth_id ev) \<inter> U = {}"
    "srv_do kind rfr wfr \<pi> w ev s = Some (r, t)"
  shows "uniq (U \<union> set (auth_id ev)) t"
proof (cases ev)
  case (EvAuthOk k i)
  then have "sv_pc s k = HAuth" "t = srv_goto k (HAccepted i) s" "i \<notin> U" using assms by (auto split: if_splits)
  then show ?thesis using assms(3) EvAuthOk by (auto simp: uniq_def holds_def srv_target_def split: if_splits)
next
  case (EvAdd k)
  then obtain i ch where i: "sv_pc s k = HFresh i" and t: "t = srv_goto k (HServing i)
      (s\<lparr>sv_chan := (sv_chan s)(k \<mapsto> ch), sv_map := cm_Add \<lparr>ref_id = i, ref_conn = k\<rparr> (sv_map s)\<rparr>)"
    using assms(5) by (auto simp: Let_def split: handler_pc.splits)
  have "j = k" if "sv_pc s j = HServing i" for j
    using assms(3) i that by (auto simp: uniq_def holds_def)
  then show ?thesis using assms(3) i EvAdd
    by (auto simp: t uniq_def holds_def srv_target_def cm.get_add [OF srv_invD(5) [OF assms(1)]] split: if_splits)
next
  case (EvTurn k)
  then obtain i ch where i: "sv_pc s k = HServing i" and ch: "sv_chan s k = Some ch"
    using assms(5) by (auto split: handler_pc.splits option.splits)
  then have id: "ch_id ch = i" using srv_invD(2) [OF assms(1) i] by auto
  have other: "j = k" if "sv_pc s j = HServing i" for j
    using assms(3) i that by (auto simp: uniq_def holds_def)
  from assms(5) EvTurn i ch have "(sv_pc t = sv_pc s \<and> sv_map t = sv_map s)
      \<or> (sv_pc t = (sv_pc s)(k := HEnded i) \<and> sv_map t = cm_Remove i (sv_map s))"
    by (auto simp: id split: prod.splits turn.splits go.splits)
  then show ?thesis
  proof (elim disjE conjE)
    assume "sv_pc t = (sv_pc s)(k := HEnded i)" "sv_map t = cm_Remove i (sv_map s)"
    note t = this
    have "holds s j x" if "holds t j x" for j x
      using that t(1) by (cases "j = k") (auto simp: holds_def)
    moreover have "sv_pc s j = HServing x \<and> x \<noteq> i" if "sv_pc t j = HServing x" for j x
      using that t(1) other by (cases "j = k") auto
    moreover have "srv_target x t = srv_target x s" if "x \<noteq> i" for x
      using that t(2) by (simp add: srv_target_def cm.get_remove [OF srv_invD(5) [OF assms(1)]])
    ultimately have "uniq U t" using assms(3) unfolding uniq_def by metis
    then show ?thesis using EvTurn by simp
  qed (use assms(3) EvTurn in \<open>simp add: uniq_same\<close>)
next
  case (EvPush i p)
  then have "sv_pc t = sv_pc s" "sv_map t = sv_map s"
    using assms(5) Push_keeps [of wfr i p s] by (auto split: srv_kind.splits)
  then show ?thesis using assms(3) EvPush by (simp add: uniq_same)
next
  case (EvShutdown n)
  then have "sv_pc t = sv_pc s" "sv_map t = sv_map s"
    using assms(5) Shutdown_inv [OF assms(1,2), of n] by auto
  then show ?thesis using assms(3) EvShutdown by (simp add: uniq_same)
next
  case (EvCheck k)
  then obtain i where i: "sv_pc s k = HAccepted i" using assms(5) by (auto split: handler_pc.splits)
  with EvCheck assms(5) have "sv_map t = sv_map s \<and> (sv_pc t = (sv_pc s)(k := HRejected) \<or> sv_pc t = (sv_pc s)(k := HFresh i))"
    by (auto simp: reject_def split: option.splits)
  moreover have "holds s k i" using i by (simp add: holds_def)
  ultimately have "uniq U t"
    using uniq_goto [OF assms(3), of t k HRejected] uniq_goto [OF assms(3), of t k "HFresh i"] by auto
  then show ?thesis using EvCheck by simp
next
  case (EvAuthFailed k e)
  then have "sv_map t = sv_map s" "sv_pc t = (sv_pc s)(k := HRejected)"
    using assms(5) by (auto simp: reject_def split: if_splits)
  then show ?thesis using assms(3) EvAuthFailed by (auto intro: uniq_goto)
next
  case (EvAccept k)
  then have "sv_map t = sv_map s" "sv_pc t = (sv_pc s)(k := HAuth)"
    using assms(5) by (auto split: if_splits)
  then show ?thesis using assms(3) EvAccept by (auto intro: uniq_goto)
next
  case (EvAcceptError e)
  then show ?thesis using assms(3,5) by (auto split: srv_kind.splits)
next
  case (EvDisconnect k)
  then have "sv_map t = sv_map s" "sv_pc t = (sv_pc s)(k := HDone)"
    using assms(5) by (auto simp: Let_def split_beta split: handler_pc.splits option.splits)
  then show ?thesis using assms(3) EvDisconnect by (auto intro: uniq_goto)
next
  case (EvAuthRead k)
  then show ?thesis using srv_auth_io [OF disjI1 assms(5)] assms(3) by (auto intro: uniq_same [of _ s])
next
  case (EvAuthWrite k code p)
  then show ?thesis using srv_auth_io [OF disjI2 assms(5)] assms(3) by (auto intro: uniq_same [of _ s])
qed

lemma uniq_run:
  "srv_run kind rfr wfr \<pi> w evs s = Some (r, t) \<Longrightarrow> is_order \<pi> \<Longrightarrow> srv_inv s \<Longrightarrow> uniq U s
     \<Longrightarrow> distinct (concat (map auth_id evs)) \<Longrightarrow> U \<inter> set (concat (map auth_id evs)) = {}
     \<Longrightarrow> \<exists>V. uniq V t"
proof (induction evs arbitrary: s U)
  case (Cons ev evs)
  then obtain r1 s1 where d: "srv_do kind rfr wfr \<pi> w ev s = Some (r1, s1)"
    by (auto split: option.splits)
  have inv: "srv_inv s1" by (rule srv_do_inv [OF Cons.prems(3,2) d])
  have u: "uniq (U \<union> set (auth_id ev)) s1"
    using Cons.prems(6) by (intro uniq_do [OF Cons.prems(3,2,4) _ d]) auto
  show ?case
  proof (cases "is_panic r1")
    case True
    then show ?thesis using Cons.prems(1) d u by (cases r1) (auto split: if_splits)
  next
    case False
    then have "srv_run kind rfr wfr \<pi> w evs s1 = Some (r, t)"
      using Cons.prems(1) d by (cases r1) auto
    from Cons.IH [OF this Cons.prems(2) inv u] Cons.prems(5,6) show ?thesis by auto
  qed
qed auto

text \<open>When the acceptor never gives the same identifier twice, then in every run of a server, TCP or
  WebSocket, an identifier is registered for a connection exactly while that connection is being
  read: no live channel is lost and no dead one is kept.\<close>

lemma registry_exact:
  assumes "srv_run kind rfr wfr \<pi> w evs (srv_init conns) = Some (r, s)" and "is_order \<pi>"
    and "distinct (concat (map auth_id evs))"
  shows "srv_target i s = Some k \<longleftrightarrow> sv_pc s k = HServing i"
proof
  assume "srv_target i s = Some k"
  then show "sv_pc s k = HServing i"
    by (rule srv_invD(1) [OF srv_run_inv [OF assms(1,2) srv_inv_init]])
next
  assume "sv_pc s k = HServing i"
  moreover obtain V where "uniq V s" using uniq_run [OF assms(1,2) srv_inv_init uniq_init assms(3)] by auto
  ultimately show "srv_target i s = Some k" by (simp add: uniq_def)
qed

text \<open>Connections for examples: a closed input, an output that takes everything.\<close>

definition demo_conns :: "nat \<Rightarrow> tcp_conn" where
  "demo_conns _ = \<lparr>rd = \<lparr>avail = [], rerr = ErrEOF\<rparr>, wr = buffer\<rparr>"

abbreviation "tcp_run \<equiv> srv_run TcpServer tcp_ReadFrame tcp_WriteFrame rev (3, 3)"

lemma cm_Get_simps [simp]:
  "cm_Get i NewChannels = None"
  "cm_Get i (cm_Add c m) = (if i = ref_id c then Some c else cm_Get i m)"
  "cm_Get i (cm_Remove j m) = (if i = j then None else cm_Get i m)"
proof -
  have "cm_Get = sm_Load" by (auto simp: cm_Get_def fun_eq_iff split: option.splits)
  then show "cm_Get i NewChannels = None"
    "cm_Get i (cm_Add c m) = (if i = ref_id c then Some c else cm_Get i m)"
    "cm_Get i (cm_Remove j m) = (if i = j then None else cm_Get i m)"
    by (simp_all add: NewChannels_def cm_Add_def cm_Remove_def Load_Store Load_Delete, simp add: sm_Load_def)
qed

lemma demo_turn: "read_turn tcp_ReadFrame tcp_WriteFrame (demo_conns k) = (LoopEnds (Fail ErrEOF), demo_conns k)"
  by (simp add: read_turn_def demo_conns_def tcp_ReadFrame_end)

definition served_run :: "nat \<Rightarrow> string \<Rightarrow> srv_event list" where
  "served_run k i = [EvAccept k, EvAuthOk k i, EvCheck k, EvAdd k]"

lemma served_run_result:
  "\<exists>s. tcp_run (served_run 0 i) (srv_init demo_conns) = Some (Ret (), s) \<and> sv_pc s 0 = HServing i"
  by (simp add: served_run_def srv_init_def srv_goto_def Done_ready_def NewEvent_def Let_def)

lemma registry_exact_example:
  "\<exists>s. tcp_run (served_run 0 ''u1'') (srv_init demo_conns) = Some (Ret (), s)
     \<and> srv_target ''u1'' s = Some 0 \<and> sv_pc s 0 = HServing ''u1''"
proof -
  obtain s where s: "tcp_run (served_run 0 ''u1'') (srv_init demo_conns) = Some (Ret (), s)"
    "sv_pc s 0 = HServing ''u1''" using served_run_result by blast
  have "distinct (concat (map auth_id (served_run 0 ''u1'')))" by (simp add: served_run_def)
  from registry_exact [OF s(1) is_order_rev this] s show ?thesis by blast
qed

section \<open>The race of two connections for one identifier\<close>

definition race_events :: "string \<Rightarrow> srv_event list" where
  "race_events i = [EvAccept 0, EvAccept 1, EvAuthOk 0 i, EvAuthOk 1 i, EvCheck 0, EvCheck 1, EvAdd 0, EvAdd 1, EvTurn 0]"

text \<open>\<open>Get\<close> and \<open>Add\<close> are two calls, so two connections that log in with one identifier can both pass
  the check; both are then served, and when the first one ends it takes the identifier out of the
  registry, after which the second, still open and read, cannot be reached by \<open>Push\<close>.\<close>

lemma duplicate_login_race:
  "\<exists>s. tcp_run (race_events i) (srv_init demo_conns) = Some (Ret (), s)
     \<and> sv_pc s 1 = HServing i \<and> sv_open s 1 \<and> srv_target i s = None
     \<and> is_panic (fst (tcp_srv_Push tcp_WriteFrame i payload s))"
  by (simp add: race_events_def srv_init_def srv_goto_def Done_ready_def NewEvent_def Let_def
      demo_turn SetWriteWait_def SetReadWait_def NewChannel_def srv_target_def tcp_srv_Push_def)

text \<open>A server closes only the connections it refuses: one that was served stays open on this side
  after its read loop has ended, after \<open>Disconnect\<close> was reported and after \<open>Shutdown\<close>.\<close>

lemma only_refused_closed:
  assumes "srv_run kind rfr wfr \<pi> w evs (srv_init conns) = Some (r, s)" and "is_order \<pi>"
  shows "sv_open s k \<longleftrightarrow> sv_pc s k \<noteq> HRejected"
  by (rule srv_invD(4) [OF srv_run_inv [OF assms srv_inv_init]])

lemma only_refused_closed_example:
  "\<exists>s. tcp_run (served_run 0 ''u1'' @ [EvTurn 0, EvDisconnect 0]) (srv_init demo_conns) = Some (Ret (), s)
     \<and> sv_pc s 0 = HDone \<and> sv_open s 0"
proof -
  obtain s where s: "tcp_run (served_run 0 ''u1'' @ [EvTurn 0, EvDisconnect 0]) (srv_init demo_conns) = Some (Ret (), s)"
    "sv_pc s 0 = HDone"
    by (simp add: served_run_def srv_init_def srv_goto_def Done_ready_def NewEvent_def Let_def demo_turn
        SetWriteWait_def SetReadWait_def NewChannel_def ch_Close_def Fire_def)
  with only_refused_closed [OF s(1) is_order_rev, of 0] show ?thesis by auto
qed

section \<open>What Push does\<close>

definition conn_of :: "'c server \<Rightarrow> nat \<Rightarrow> 'c" where
  "conn_of s k = (case sv_chan s k of None \<Rightarrow> sv_conn s k | Some ch \<Rightarrow> IConn ch)"

text \<open>What a payload does to the connection of its channel.\<close>

definition deliver ::
    "('c \<Rightarrow> opcode \<Rightarrow> bytes \<Rightarrow> unit go \<times> 'c) \<Rightarrow> bytes \<Rightarrow> 'c \<Rightarrow> unit go \<times> 'c" where
  "deliver wfr payload c = (if payload = [] then (Ret (), c) else wfr c OpBinary payload)"

text \<open>
  The contract of \<open>IServer.Push\<close> the container and the gateway rely on: a registered identifier gets
  the payload on its own connection, no other connection is touched, and a miss changes nothing.
\<close>

locale push_server =
  fixes push :: "string \<Rightarrow> bytes \<Rightarrow> 's \<Rightarrow> unit go \<times> 's"
    and target :: "string \<Rightarrow> 's \<Rightarrow> nat option"
    and conn :: "'s \<Rightarrow> nat \<Rightarrow> 'c"
    and give :: "bytes \<Rightarrow> 'c \<Rightarrow> unit go \<times> 'c"
    and inv :: "'s \<Rightarrow> bool"
  assumes push_hit: "inv s \<Longrightarrow> target i s = Some k \<Longrightarrow>
      fst (push i p s) = fst (give p (conn s k)) \<and> inv (snd (push i p s))
      \<and> (\<forall>j. target j (snd (push i p s)) = target j s)
      \<and> conn (snd (push i p s)) = (conn s)(k := snd (give p (conn s k)))"
    and push_miss: "target i s = None \<Longrightarrow> snd (push i p s) = s \<and> \<not> is_ret (fst (push i p s))"

lemma push_ref_hit:
  assumes "srv_inv s" "cm_Get i (sv_map s) = Some r"
  shows "fst (push_ref wfr r p s) = fst (deliver wfr p (conn_of s (ref_conn r)))
    \<and> conn_of (snd (push_ref wfr r p s)) = (conn_of s)(ref_conn r := snd (deliver wfr p (conn_of s (ref_conn r))))"
proof -
  have "srv_target i s = Some (ref_conn r)" using assms(2) by (simp add: srv_target_def)
  then obtain ch where "sv_chan s (ref_conn r) = Some ch"
    using srv_invD(1,2) [OF assms(1)] by blast
  then show ?thesis
    by (auto simp: push_ref_def conn_of_def deliver_def ch_Push_def fun_eq_iff split: prod.splits option.splits)
qed

interpretation tcps: push_server "tcp_srv_Push wfr" srv_target conn_of "deliver wfr" srv_inv
  for wfr :: "'c \<Rightarrow> opcode \<Rightarrow> bytes \<Rightarrow> unit go \<times> 'c"
proof
  fix s :: "'c server" and i k p
  assume "srv_inv s" "srv_target i s = Some k"
  then obtain r where r: "cm_Get i (sv_map s) = Some r" "ref_conn r = k" by (auto simp: srv_target_def)
  then have "tcp_srv_Push wfr i p s = push_ref wfr r p s" by (simp add: tcp_srv_Push_def)
  with push_ref_hit [OF \<open>srv_inv s\<close> r(1), of wfr p] push_ref_inv [OF \<open>srv_inv s\<close> r(1), of wfr p] r(2)
  show "fst (tcp_srv_Push wfr i p s) = fst (deliver wfr p (conn_of s k)) \<and> srv_inv (snd (tcp_srv_Push wfr i p s))
      \<and> (\<forall>j. srv_target j (snd (tcp_srv_Push wfr i p s)) = srv_target j s)
      \<and> conn_of (snd (tcp_srv_Push wfr i p s)) = (conn_of s)(k := snd (deliver wfr p (conn_of s k)))"
    by (simp add: push_ref_keeps srv_target_def)
qed (simp add: srv_target_def tcp_srv_Push_def)

interpretation wss: push_server "ws_srv_Push wfr" srv_target conn_of "deliver wfr" srv_inv
  for wfr :: "'c \<Rightarrow> opcode \<Rightarrow> bytes \<Rightarrow> unit go \<times> 'c"
proof
  fix s :: "'c server" and i k p
  assume "srv_inv s" "srv_target i s = Some k"
  then obtain r where r: "cm_Get i (sv_map s) = Some r" "ref_conn r = k" by (auto simp: srv_target_def)
  then have "ws_srv_Push wfr i p s = push_ref wfr r p s" by (simp add: ws_srv_Push_def)
  with push_ref_hit [OF \<open>srv_inv s\<close> r(1), of wfr p] push_ref_inv [OF \<open>srv_inv s\<close> r(1), of wfr p] r(2)
  show "fst (ws_srv_Push wfr i p s) = fst (deliver wfr p (conn_of s k)) \<and> srv_inv (snd (ws_srv_Push wfr i p s))
      \<and> (\<forall>j. srv_target j (snd (ws_srv_Push wfr i p s)) = srv_target j s)
      \<and> conn_of (snd (ws_srv_Push wfr i p s)) = (conn_of s)(k := snd (deliver wfr p (conn_of s k)))"
    by (simp add: push_ref_keeps srv_target_def)
qed (simp add: srv_target_def ws_srv_Push_def)

text \<open>In every run \<open>Shutdown\<close> stops nothing: it returns without an error, no connection loses its
  place in the registry or any byte of its streams, a push afterwards still goes out on the
  connection, and the server still accepts new ones.\<close>

lemma shutdown_keeps_serving:
  assumes "srv_run kind rfr wfr \<pi> w evs (srv_init conns) = Some (r, s)" and "is_order \<pi>"
    and "s' = snd (srv_Shutdown \<pi> n s)"
  shows "fst (srv_Shutdown \<pi> n s) = Ret ()
    \<and> (\<forall>i. srv_target i s' = srv_target i s) \<and> (\<forall>k. sv_chan s k \<noteq> None \<longrightarrow> conn_of s' k = conn_of s k)
    \<and> (\<forall>i k p. srv_target i s' = Some k \<longrightarrow>
         conn_of (snd (tcp_srv_Push wfr i p s')) k = snd (deliver wfr p (conn_of s k)))
    \<and> (\<forall>k. sv_pc s' k = HNone \<longrightarrow> srv_do kind rfr wfr \<pi> w (EvAccept k) s' = Some (Ret (), srv_goto k HAuth s'))"
proof -
  have inv: "srv_inv s" by (rule srv_run_inv [OF assms(1,2) srv_inv_init])
  note sd = Shutdown_inv [OF inv assms(2), of n, folded assms(3)]
  have conn: "conn_of s' k = conn_of s k" if some: "sv_chan s k \<noteq> None" for k
  proof -
    from some obtain ch where ch: "sv_chan s k = Some ch" by auto
    have "map_option IConn (sv_chan s' k) = map_option IConn (sv_chan s k)" using sd by blast
    with ch obtain ch' where "sv_chan s' k = Some ch'" "IConn ch' = IConn ch" by auto
    with ch show ?thesis by (simp add: conn_of_def)
  qed
  have hit: "conn_of (snd (tcp_srv_Push wfr i p s')) k = snd (deliver wfr p (conn_of s k))"
    if "srv_target i s' = Some k" for i k p
  proof -
    have "sv_pc s k = HServing i" using that sd srv_invD(1) [OF inv] by (simp add: srv_target_def)
    then have "conn_of s' k = conn_of s k" using srv_invD(2) [OF inv] conn by blast
    then show ?thesis using tcps.push_hit [of s' i k wfr p] sd that by simp
  qed
  have "srv_do kind rfr wfr \<pi> w (EvAccept k) s' = Some (Ret (), srv_goto k HAuth s')" if "sv_pc s' k = HNone" for k
    using that srv_invD(6) [of s'] sd by simp
  then show ?thesis using sd conn hit by (auto simp: srv_target_def)
qed

lemma shutdown_keeps_serving_example:
  "\<exists>s. tcp_run (served_run 0 ''u1'') (srv_init demo_conns) = Some (Ret (), s)
     \<and> srv_target ''u1'' (snd (srv_Shutdown rev 9 s)) = srv_target ''u1'' s"
proof -
  obtain s where s: "tcp_run (served_run 0 ''u1'') (srv_init demo_conns) = Some (Ret (), s)"
    using served_run_result by blast
  from shutdown_keeps_serving [OF s is_order_rev refl, of 9] s show ?thesis by blast
qed

end
