(* ===== verification/WsServer.thy ===== *)
theory WsServer
  imports Server
begin

text \<open>
  \<open>websocket/server.go\<close> translated on its own: the HTTP handler of a connection with the goroutine it
  starts, and \<open>Shutdown\<close>.  The two servers are separate code; that they behave alike is proved here,
  step by step and for whole runs.
\<close>

section \<open>The handler\<close>

text \<open>
  The body of \<open>Shutdown\<close>: each channel is closed and then the context is looked at, which is done
  after \<open>n\<close> more turns.
\<close>

fun ws_close_all :: "nat \<Rightarrow> chan_ref list \<Rightarrow> 'c server \<Rightarrow> unit go \<times> 'c server" where
  "ws_close_all n [] s = (Ret (), s)"
| "ws_close_all n (ch # channels) s =
     (case sv_chan s (ref_conn ch) of
        None \<Rightarrow> (Panics ''nil channel'', s)
      | Some c \<Rightarrow>
          (case ch_Close c of
             (Panics m, c1) \<Rightarrow> (Panics m, s\<lparr>sv_chan := (sv_chan s)(ref_conn ch \<mapsto> c1)\<rparr>)
           | (_, c1) \<Rightarrow>
               let s1 = s\<lparr>sv_chan := (sv_chan s)(ref_conn ch \<mapsto> c1)\<rparr>
               in case n of 0 \<Rightarrow> (Ret (), s1) | Suc m \<Rightarrow> ws_close_all m channels s1))"

definition ws_Shutdown :: "(channel_map \<Rightarrow> channel_map) \<Rightarrow> nat \<Rightarrow> 'c server \<Rightarrow> unit go \<times> 'c server" where
  "ws_Shutdown \<pi> n s =
     (if sv_shut s then (Ret (), s)
      else ws_close_all n (cm_All \<pi> (sv_map s)) (s\<lparr>sv_shut := True\<rparr>))"

text \<open>
  One step of the handler, with the events of the TCP server: \<open>EvAccept\<close> is a request that could be
  upgraded, \<open>EvAcceptError\<close> one that could not.  The server has no quit event.  The channel leaves the
  registry whatever the read loop returned.
\<close>

fun ws_do ::
    "('c \<Rightarrow> frame go \<times> 'c) \<Rightarrow> ('c \<Rightarrow> opcode \<Rightarrow> bytes \<Rightarrow> unit go \<times> 'c) \<Rightarrow> (channel_map \<Rightarrow> channel_map)
       \<Rightarrow> int \<times> int \<Rightarrow> srv_event \<Rightarrow> 'c server \<Rightarrow> (unit go \<times> 'c server) option" where
  "ws_do rfr wfr \<pi> w (EvAccept k) s = (if sv_pc s k = HNone then Some (Ret (), srv_goto k HAuth s) else None)"
| "ws_do rfr wfr \<pi> w (EvAcceptError e) s = Some (Ret (), s)"
| "ws_do rfr wfr \<pi> w (EvAuthFailed k e) s =
     (if sv_pc s k = HAuth
      then let c = snd (wfr (sv_conn s k) OpClose (to_bytes (err_text e)))
           in Some (Ret (), srv_goto k HRejected (s\<lparr>sv_conn := (sv_conn s)(k := c), sv_open := (sv_open s)(k := False)\<rparr>))
      else None)"
| "ws_do rfr wfr \<pi> w (EvAuthRead k) s =
     (if sv_pc s k = HAuth
      then (case rfr (sv_conn s k) of
              (Panics m, c) \<Rightarrow> Some (Panics m, s\<lparr>sv_conn := (sv_conn s)(k := c)\<rparr>)
            | (_, c) \<Rightarrow> Some (Ret (), s\<lparr>sv_conn := (sv_conn s)(k := c)\<rparr>))
      else None)"
| "ws_do rfr wfr \<pi> w (EvAuthWrite k code p) s =
     (if sv_pc s k = HAuth
      then (case wfr (sv_conn s k) code p of
              (Panics m, c) \<Rightarrow> Some (Panics m, s\<lparr>sv_conn := (sv_conn s)(k := c)\<rparr>)
            | (_, c) \<Rightarrow> Some (Ret (), s\<lparr>sv_conn := (sv_conn s)(k := c)\<rparr>))
      else None)"
| "ws_do rfr wfr \<pi> w (EvAuthOk k i) s = (if sv_pc s k = HAuth then Some (Ret (), srv_goto k (HAccepted i) s) else None)"
| "ws_do rfr wfr \<pi> w (EvCheck k) s =
     (case sv_pc s k of
        HAccepted i \<Rightarrow>
          if cm_Get i (sv_map s) \<noteq> None
          then let c = snd (wfr (sv_conn s k) OpClose (to_bytes ''channelId is repeated''))
               in Some (Ret (), srv_goto k HRejected (s\<lparr>sv_conn := (sv_conn s)(k := c), sv_open := (sv_open s)(k := False)\<rparr>))
          else Some (Ret (), srv_goto k (HFresh i) s)
      | _ \<Rightarrow> None)"
| "ws_do rfr wfr \<pi> w (EvAdd k) s =
     (case sv_pc s k of
        HFresh i \<Rightarrow>
          let channel = SetReadWait (fst w) (SetWriteWait (snd w) (NewChannel i (sv_conn s k)))
          in Some (Ret (), srv_goto k (HServing i)
               (s\<lparr>sv_map := cm_Add \<lparr>ref_id = i, ref_conn = k\<rparr> (sv_map s), sv_chan := (sv_chan s)(k \<mapsto> channel)\<rparr>))
      | _ \<Rightarrow> None)"
| "ws_do rfr wfr \<pi> w (EvTurn k) s =
     (case (sv_pc s k, sv_chan s k) of
        (HServing i, Some channel) \<Rightarrow>
          let (turn, c1) = read_turn rfr wfr (IConn channel);
              s1 = s\<lparr>sv_chan := (sv_chan s)(k \<mapsto> channel\<lparr>IConn := c1\<rparr>)\<rparr>
          in (case turn of
                LoopGoes ds \<Rightarrow> Some (Ret (), s1\<lparr>sv_received := sv_received s @ map (Pair (ch_id channel)) ds\<rparr>)
              | LoopEnds (Panics m) \<Rightarrow> Some (Panics m, s1)
              | LoopEnds _ \<Rightarrow> Some (Ret (), srv_goto k (HEnded i) (s1\<lparr>sv_map := cm_Remove (ch_id channel) (sv_map s)\<rparr>)))
      | _ \<Rightarrow> None)"
| "ws_do rfr wfr \<pi> w (EvDisconnect k) s =
     (case (sv_pc s k, sv_chan s k) of
        (HEnded i, Some channel) \<Rightarrow>
          let (r, channel1) = ch_Close channel
          in Some (r, srv_goto k HDone (s\<lparr>sv_left := sv_left s @ [ch_id channel], sv_chan := (sv_chan s)(k \<mapsto> channel1)\<rparr>))
      | _ \<Rightarrow> None)"
| "ws_do rfr wfr \<pi> w (EvPush i data) s = Some (ws_srv_Push wfr i data s)"
| "ws_do rfr wfr \<pi> w (EvShutdown n) s = Some (ws_Shutdown \<pi> n s)"

fun ws_run ::
    "('c \<Rightarrow> frame go \<times> 'c) \<Rightarrow> ('c \<Rightarrow> opcode \<Rightarrow> bytes \<Rightarrow> unit go \<times> 'c) \<Rightarrow> (channel_map \<Rightarrow> channel_map)
       \<Rightarrow> int \<times> int \<Rightarrow> srv_event list \<Rightarrow> 'c server \<Rightarrow> (unit go \<times> 'c server) option" where
  "ws_run rfr wfr \<pi> w [] s = Some (Ret (), s)"
| "ws_run rfr wfr \<pi> w (ev # evs) s =
     (case ws_do rfr wfr \<pi> w ev s of
        None \<Rightarrow> None
      | Some (Panics m, s1) \<Rightarrow> (if evs = [] then Some (Panics m, s1) else None)
      | Some (_, s1) \<Rightarrow> ws_run rfr wfr \<pi> w evs s1)"

section \<open>Agreement\<close>

lemma ws_close_all_refs: "ws_close_all n chs s = close_refs (take (Suc n) chs) s"
proof (induction chs arbitrary: n s)
  case (Cons ch chs)
  then show ?case
    by (cases n) (auto split: option.splits prod.splits go.splits)
qed simp

lemma ws_Shutdown_eq: "ws_Shutdown \<pi> n s = srv_Shutdown \<pi> n s"
  by (simp add: ws_Shutdown_def srv_Shutdown_def ws_close_all_refs del: take_Suc_Cons)

lemma wait_commute: "SetReadWait a (SetWriteWait b ch) = SetWriteWait b (SetReadWait a ch)"
  by (simp add: SetReadWait_def SetWriteWait_def)

lemma ws_do_eq:
  assumes "srv_inv s"
  shows "ws_do rfr wfr \<pi> w ev s = srv_do WsServer rfr wfr \<pi> w ev s"
  using srv_invD(6) [OF assms]
  by (cases ev) (auto simp: reject_def repeated_text_def wait_commute ws_Shutdown_eq Let_def
      split: handler_pc.splits option.splits prod.splits turn.splits go.splits)

lemma ws_run_eq:
  "is_order \<pi> \<Longrightarrow> srv_inv s \<Longrightarrow> ws_run rfr wfr \<pi> w evs s = srv_run WsServer rfr wfr \<pi> w evs s"
proof (induction evs arbitrary: s)
  case (Cons ev evs)
  show ?case
  proof (cases "srv_do WsServer rfr wfr \<pi> w ev s")
    case None
    then show ?thesis by (simp add: ws_do_eq [OF Cons.prems(2)])
  next
    case (Some x)
    obtain r t where x: "x = (r, t)" by fastforce
    have "srv_inv t" using srv_do_inv [OF Cons.prems(2,1)] Some x by blast
    then have IH: "ws_run rfr wfr \<pi> w evs t = srv_run WsServer rfr wfr \<pi> w evs t"
      by (rule Cons.IH [OF Cons.prems(1)])
    show ?thesis using Some x IH by (simp add: ws_do_eq [OF Cons.prems(2)] cong: go.case_cong)
  qed
qed simp

text \<open>A step of the TCP server that is not one of the three where the servers differ.\<close>

definition same_step :: "srv_event \<Rightarrow> 'c server \<Rightarrow> bool" where
  "same_step ev s \<longleftrightarrow> (case ev of
      EvAcceptError _ \<Rightarrow> False
    | EvPush i _ \<Rightarrow> srv_target i s \<noteq> None
    | EvCheck k \<Rightarrow> (\<forall>i. sv_pc s k = HAccepted i \<longrightarrow> srv_target i s = None)
    | _ \<Rightarrow> True)"

lemma tcp_ws_step:
  assumes "same_step ev s"
  shows "srv_do TcpServer rfr wfr \<pi> w ev s = srv_do WsServer rfr wfr \<pi> w ev s"
  using assms
  by (cases ev) (auto simp: same_step_def srv_target_def tcp_srv_Push_def ws_srv_Push_def split: handler_pc.splits)

text \<open>With an identifier that nobody else holds a check never refuses.\<close>

lemma uniq_check:
  assumes "srv_inv s" "uniq U s" "sv_pc s k = HAccepted i"
  shows "srv_target i s = None"
proof (rule ccontr)
  assume "srv_target i s \<noteq> None"
  then obtain j where "srv_target i s = Some j" by blast
  with srv_invD(1) [OF assms(1)] have j: "sv_pc s j = HServing i" by blast
  have "holds s j i" "holds s k i" using j assms(3) by (simp_all add: holds_def)
  with assms(2) have "j = k" unfolding uniq_def by blast
  with j assms(3) show False by simp
qed

lemma tcp_step_same:
  assumes "srv_inv s" "uniq U s" "srv_do TcpServer rfr wfr \<pi> w ev s = Some (r, t)" "\<not> is_panic r"
  shows "same_step ev s"
  using assms uniq_check [OF assms(1,2)]
  by (cases ev) (auto simp: same_step_def tcp_srv_Push_def srv_target_def split: option.splits)

lemma tcp_run_is_ws_run:
  "srv_run TcpServer rfr wfr \<pi> w evs s = Some (r, t) \<Longrightarrow> \<not> is_panic r \<Longrightarrow> is_order \<pi> \<Longrightarrow> srv_inv s \<Longrightarrow> uniq U s
     \<Longrightarrow> distinct (concat (map auth_id evs)) \<Longrightarrow> U \<inter> set (concat (map auth_id evs)) = {}
     \<Longrightarrow> srv_run WsServer rfr wfr \<pi> w evs s = Some (r, t)"
proof (induction evs arbitrary: s U)
  case (Cons ev evs)
  then obtain r1 s1 where d: "srv_do TcpServer rfr wfr \<pi> w ev s = Some (r1, s1)"
    by (auto split: option.splits)
  then have np: "\<not> is_panic r1" using Cons.prems(1,2) by (cases r1) (auto split: if_splits)
  have step: "srv_do WsServer rfr wfr \<pi> w ev s = Some (r1, s1)"
    using tcp_ws_step [OF tcp_step_same [OF Cons.prems(4,5) d np]] d by simp
  have "srv_inv s1" by (rule srv_do_inv [OF Cons.prems(4,3) d])
  moreover have "uniq (U \<union> set (auth_id ev)) s1"
    using Cons.prems(7) by (intro uniq_do [OF Cons.prems(4,3,5) _ d]) auto
  moreover have "srv_run TcpServer rfr wfr \<pi> w evs s1 = Some (r, t)"
    using Cons.prems(1) d np by (cases r1) auto
  ultimately have "srv_run WsServer rfr wfr \<pi> w evs s1 = Some (r, t)"
    using Cons.prems(2,3,6,7) by (intro Cons.IH) auto
  then show ?case using step np by (cases r1) auto
qed simp

text \<open>C18: The WebSocket server is the TCP server up to three cases.  When identifiers are given out once,
  every run of the TCP server that does not panic is, event for event and with the same resulting
  state, a run of the WebSocket server's own code; and a step in which nothing fails to be accepted,
  nothing is pushed to an identifier that is not registered and no repeated identifier is refused
  has the same result in both.\<close>

theorem servers_agree:
  assumes "is_order \<pi>"
  shows "(srv_run TcpServer rfr wfr \<pi> w evs (srv_init conns) = Some (r, t) \<and> \<not> is_panic r
       \<and> distinct (concat (map auth_id evs)) \<longrightarrow> ws_run rfr wfr \<pi> w evs (srv_init conns) = Some (r, t))
    \<and> (srv_inv s \<and> same_step ev s \<longrightarrow> ws_do rfr wfr \<pi> w ev s = srv_do TcpServer rfr wfr \<pi> w ev s)"
proof -
  have "ws_run rfr wfr \<pi> w evs (srv_init conns) = Some (r, t)"
    if "srv_run TcpServer rfr wfr \<pi> w evs (srv_init conns) = Some (r, t)" "\<not> is_panic r" "distinct (concat (map auth_id evs))"
    using tcp_run_is_ws_run [OF that(1,2) assms srv_inv_init uniq_init that(3)]
    by (simp add: ws_run_eq [OF assms srv_inv_init])
  then show ?thesis by (auto simp: ws_do_eq tcp_ws_step)
qed

theorem servers_agree_witness:
  "\<exists>s. ws_run tcp_ReadFrame tcp_WriteFrame rev (3, 3) (served_run 0 ''u1'') (srv_init demo_conns) = Some (Ret (), s)
     \<and> sv_pc s 0 = HServing ''u1''"
proof -
  obtain s where s: "tcp_run (served_run 0 ''u1'') (srv_init demo_conns) = Some (Ret (), s)"
    "sv_pc s 0 = HServing ''u1''" using served_run_result by blast
  have "distinct (concat (map auth_id (served_run 0 ''u1'')))" by (simp add: served_run_def)
  with s servers_agree [OF is_order_rev, of tcp_ReadFrame tcp_WriteFrame "(3, 3)" "served_run 0 ''u1''" demo_conns "Ret ()" s]
  show ?thesis by auto
qed

end
