(* ===== verification/Serving.thy ===== *)
theory Serving
  imports WsFrame WsServer
begin

text \<open>
  What a message listener gets from a server that serves many connections at once: the read loops of
  \<open>core/channel.go\<close> as the turns of \<open>tcp/server.go\<close> and \<open>websocket/server.go\<close>, in any interleaving with
  logins, pushes, refusals and a shutdown.
\<close>

section \<open>What was received under an identifier\<close>

definition received :: "string \<Rightarrow> 'c server \<Rightarrow> bytes list" where
  "received i s = map snd (filter (\<lambda>x. fst x = i) (sv_received s))"

lemma received_append:
  "sv_received t = sv_received s @ map (Pair j) ds \<Longrightarrow> received i t = received i s @ (if i = j then ds else [])"
  by (auto simp: received_def filter_map o_def)

lemma received_same: "sv_received t = sv_received s \<Longrightarrow> received i t = received i s"
  by (simp add: received_def)

definition no_close :: "frame list \<Rightarrow> bool" where
  "no_close fs \<longleftrightarrow> (\<forall>f \<in> set fs. OpCode f \<noteq> OpClose)"

lemma deliveries_append: "no_close done \<Longrightarrow> deliveries (done @ rest) = deliveries done @ deliveries rest"
  by (induction "done") (auto simp: loop_spec_defs no_close_def)

lemma deliveries_Nil [simp]: "deliveries [] = []"
  by (simp add: loop_spec_defs)

lemma deliveries_close: "OpCode f = OpClose \<Longrightarrow> deliveries (f # fs) = []"
  by (simp add: loop_spec_defs)

fun pc_id :: "handler_pc \<Rightarrow> string option" where
  "pc_id (HAccepted i) = Some i"
| "pc_id (HFresh i) = Some i"
| "pc_id (HServing i) = Some i"
| "pc_id (HEnded i) = Some i"
| "pc_id _ = None"

text \<open>The invariant of one connection whose peer sends the frames \<open>fs\<close>.\<close>

fun conn_ok :: "('c \<Rightarrow> frame list \<Rightarrow> bool) \<Rightarrow> frame list \<Rightarrow> 'c server \<Rightarrow> nat \<Rightarrow> handler_pc \<Rightarrow> bool" where
  "conn_ok carries fs s k (HServing i) \<longleftrightarrow> (\<exists>ch done rest. sv_chan s k = Some ch \<and> carries (IConn ch) rest
     \<and> fs = done @ rest \<and> no_close done \<and> received i s = deliveries done)"
| "conn_ok carries fs s k (HEnded i) \<longleftrightarrow> received i s = deliveries fs"
| "conn_ok carries fs s k (HAccepted i) \<longleftrightarrow> carries (sv_conn s k) fs \<and> received i s = []"
| "conn_ok carries fs s k (HFresh i) \<longleftrightarrow> carries (sv_conn s k) fs \<and> received i s = []"
| "conn_ok carries fs s k HNone \<longleftrightarrow> carries (sv_conn s k) fs"
| "conn_ok carries fs s k HAuth \<longleftrightarrow> carries (sv_conn s k) fs"
| "conn_ok carries fs s k HRejected \<longleftrightarrow> True"
| "conn_ok carries fs s k HDone \<longleftrightarrow> True"

definition ids_ok :: "string set \<Rightarrow> 'c server \<Rightarrow> bool" where
  "ids_ok U s \<longleftrightarrow> fst ` set (sv_received s) \<subseteq> U \<and> (\<forall>k i. pc_id (sv_pc s k) = Some i \<longrightarrow> i \<in> U)
     \<and> (\<forall>k j i. pc_id (sv_pc s k) = Some i \<longrightarrow> pc_id (sv_pc s j) = Some i \<longrightarrow> k = j)"

definition serving_ok :: "('c \<Rightarrow> frame list \<Rightarrow> bool) \<Rightarrow> (nat \<Rightarrow> frame list) \<Rightarrow> 'c server \<Rightarrow> bool" where
  "serving_ok carries sent s \<longleftrightarrow> (\<forall>k. conn_ok carries (sent k) s k (sv_pc s k))"

text \<open>How many frames the acceptor of a connection has read.\<close>

definition auth_reads :: "nat \<Rightarrow> srv_event list \<Rightarrow> nat" where
  "auth_reads k evs = length (filter ((=) (EvAuthRead k)) evs)"

text \<open>A step leaves a connection alone when its channel still carries what it carried.\<close>

lemma conn_ok_keep:
  assumes "conn_ok carries fs s k p" and "sv_conn t k = sv_conn s k"
    and "\<And>ch. sv_chan s k = Some ch \<Longrightarrow> \<exists>ch'. sv_chan t k = Some ch' \<and> (\<forall>rest. carries (IConn ch) rest \<longrightarrow> carries (IConn ch') rest)"
    and "\<And>i. pc_id p = Some i \<Longrightarrow> received i t = received i s"
  shows "conn_ok carries fs t k p"
  using assms(1,2,4) assms(3) by (cases p) fastforce+

section \<open>Identifiers\<close>

lemma received_fresh: "ids_ok U s \<Longrightarrow> i \<notin> U \<Longrightarrow> received i s = []"
  by (force simp: ids_ok_def received_def filter_empty_conv)

lemma ids_ok_step:
  assumes "ids_ok U s" and "sv_pc t = sv_pc s \<or> (\<exists>k p. sv_pc t = (sv_pc s)(k := p)
      \<and> (pc_id p = None \<or> pc_id p = pc_id (sv_pc s k) \<or> (\<exists>i. pc_id p = Some i \<and> ev = EvAuthOk k i)))"
    and "fst ` set (sv_received t) \<subseteq> U" and "set (auth_id ev) \<inter> U = {}"
  shows "ids_ok (U \<union> set (auth_id ev)) t"
  using assms(2)
proof (elim disjE exE conjE)
  assume "sv_pc t = sv_pc s"
  then show ?thesis using assms(1,3) by (auto simp: ids_ok_def)
next
  fix k p assume t: "sv_pc t = (sv_pc s)(k := p)" "pc_id p = None"
  then show ?thesis using assms(1,3) by (auto simp: ids_ok_def)
next
  fix k p assume t: "sv_pc t = (sv_pc s)(k := p)" "pc_id p = pc_id (sv_pc s k)"
  then have "pc_id (sv_pc t j) = pc_id (sv_pc s j)" for j by simp
  then show ?thesis using assms(1,3) unfolding ids_ok_def by auto
next
  fix k p i assume t: "sv_pc t = (sv_pc s)(k := p)" "pc_id p = Some i" "ev = EvAuthOk k i"
  then show ?thesis using assms(1,3,4) by (auto simp: ids_ok_def)
qed

section \<open>Steps\<close>

lemma push_ref_frame:
  "sv_received (snd (push_ref wfr r p s)) = sv_received s" "sv_conn (snd (push_ref wfr r p s)) = sv_conn s"
  by (simp_all add: push_ref_def split: option.splits prod.splits)

lemma Push_frame:
  "sv_received (snd (tcp_srv_Push wfr i p s)) = sv_received s" "sv_conn (snd (tcp_srv_Push wfr i p s)) = sv_conn s"
  "sv_received (snd (ws_srv_Push wfr i p s)) = sv_received s" "sv_conn (snd (ws_srv_Push wfr i p s)) = sv_conn s"
  by (simp_all add: tcp_srv_Push_def ws_srv_Push_def push_ref_frame split: option.splits)

lemma close_refs_frame:
  "sv_received (snd (close_refs rs s)) = sv_received s \<and> sv_conn (snd (close_refs rs s)) = sv_conn s"
proof (induction rs arbitrary: s)
  case (Cons r rs)
  then show ?case by (auto split: option.splits prod.splits go.splits)
qed simp

lemma Shutdown_frame:
  "sv_received (snd (srv_Shutdown \<pi> n s)) = sv_received s" "sv_conn (snd (srv_Shutdown \<pi> n s)) = sv_conn s"
  using close_refs_frame [of "take (Suc n) (cm_All \<pi> (sv_map s))" "s\<lparr>sv_shut := True\<rparr>"]
  by (simp_all add: srv_Shutdown_def)

lemma step_pc:
  assumes "srv_inv s" "is_order \<pi>" "srv_do kind rfr wfr \<pi> w ev s = Some (r, t)"
  shows "sv_pc t = sv_pc s \<or> (\<exists>k p. sv_pc t = (sv_pc s)(k := p)
    \<and> (pc_id p = None \<or> pc_id p = pc_id (sv_pc s k) \<or> (\<exists>i. pc_id p = Some i \<and> ev = EvAuthOk k i)))"
proof (cases ev)
  case (EvPush i p)
  then show ?thesis using assms(3) Push_keeps [of wfr i p s] by (auto split: srv_kind.splits)
next
  case (EvShutdown n)
  then show ?thesis using assms(3) Shutdown_inv [OF assms(1,2), of n] by auto
next
  case (EvTurn k)
  then obtain i ch where i: "sv_pc s k = HServing i" "sv_chan s k = Some ch"
    using assms(3) by (auto split: handler_pc.splits option.splits)
  with EvTurn assms(3) have "sv_pc t = sv_pc s \<or> sv_pc t = (sv_pc s)(k := HEnded i)"
    by (auto split: prod.splits turn.splits go.splits)
  then show ?thesis using i(1) by (metis pc_id.simps(3,4))
next
  case (EvCheck k)
  then obtain i where i: "sv_pc s k = HAccepted i" using assms(3) by (auto split: handler_pc.splits)
  with EvCheck assms(3) have "sv_pc t = (sv_pc s)(k := HRejected) \<or> sv_pc t = (sv_pc s)(k := HFresh i)"
    by (auto simp: reject_def split: option.splits)
  then show ?thesis using i by (metis pc_id.simps(1,2,7))
next
  case (EvAdd k)
  then obtain i where i: "sv_pc s k = HFresh i" using assms(3) by (auto split: handler_pc.splits)
  with EvAdd assms(3) have "sv_pc t = (sv_pc s)(k := HServing i)" by (auto simp: Let_def)
  then show ?thesis using i by (metis pc_id.simps(2,3))
next
  case (EvDisconnect k)
  with assms(3) have "sv_pc t = (sv_pc s)(k := HDone)"
    by (auto split: handler_pc.splits option.splits prod.splits)
  then show ?thesis by (metis pc_id.simps(8))
next
  case (EvAccept k)
  with assms(3) have "sv_pc t = (sv_pc s)(k := HAuth)" by (auto split: if_splits)
  then show ?thesis by (metis pc_id.simps(6))
next
  case (EvAuthFailed k e)
  with assms(3) have "sv_pc t = (sv_pc s)(k := HRejected)" by (auto simp: reject_def split: if_splits)
  then show ?thesis by (metis pc_id.simps(7))
next
  case (EvAuthOk k i)
  with assms(3) have "sv_pc t = (sv_pc s)(k := HAccepted i)" by (auto split: if_splits)
  then show ?thesis using EvAuthOk by (metis pc_id.simps(1))
next
  case (EvAcceptError e)
  then show ?thesis using assms(3) by (auto split: srv_kind.splits)
next
  case (EvAuthRead k)
  then show ?thesis using srv_auth_io [OF disjI1 assms(3)] by auto
next
  case (EvAuthWrite k code p)
  then show ?thesis using srv_auth_io [OF disjI2 assms(3)] by auto
qed

lemma step_received:
  assumes "srv_inv s" "srv_do kind rfr wfr \<pi> w ev s = Some (r, t)"
  shows "sv_received t = sv_received s
    \<or> (\<exists>k i ds. ev = EvTurn k \<and> sv_pc s k = HServing i \<and> sv_received t = sv_received s @ map (Pair i) ds)"
proof (cases ev)
  case (EvPush i p)
  then show ?thesis using assms(2) Push_frame [of wfr i p s] by (auto split: srv_kind.splits)
next
  case (EvShutdown n)
  then show ?thesis using assms(2) Shutdown_frame [of \<pi> n s] by auto
next
  case (EvTurn k)
  then obtain i ch where i: "sv_pc s k = HServing i" "sv_chan s k = Some ch"
    using assms(2) by (auto split: handler_pc.splits option.splits)
  moreover have "ch_id ch = i" using srv_invD(2) [OF assms(1) i(1)] i(2) by auto
  ultimately show ?thesis using EvTurn assms(2) by (auto split: prod.splits turn.splits go.splits)
qed (use assms(2) in \<open>auto simp: reject_def Let_def split: if_splits srv_kind.splits handler_pc.splits option.splits prod.splits\<close>)

lemma ids_ok_do:
  assumes "srv_inv s" "is_order \<pi>" "srv_do kind rfr wfr \<pi> w ev s = Some (r, t)" "ids_ok U s" "set (auth_id ev) \<inter> U = {}"
  shows "ids_ok (U \<union> set (auth_id ev)) t"
proof (rule ids_ok_step [OF assms(4) step_pc [OF assms(1-3)] _ assms(5)])
  show "fst ` set (sv_received t) \<subseteq> U"
    using step_received [OF assms(1,3)]
  proof (elim disjE exE conjE)
    assume "sv_received t = sv_received s"
    then show ?thesis using assms(4) by (simp add: ids_ok_def)
  next
    fix k i ds assume "sv_pc s k = HServing i" "sv_received t = sv_received s @ map (Pair i) ds"
    moreover from this(1) have "i \<in> U" using assms(4) by (metis ids_ok_def pc_id.simps(3))
    ultimately show ?thesis using assms(4) by (auto simp: ids_ok_def)
  qed
qed

lemma received_other:
  assumes "srv_inv s" "srv_do kind rfr wfr \<pi> w ev s = Some (r, t)" "ids_ok U s" "pc_id (sv_pc s j) = Some i" "ev \<noteq> EvTurn j"
  shows "received i t = received i s"
  using step_received [OF assms(1,2)]
proof (elim disjE exE conjE)
  fix k x ds assume t: "ev = EvTurn k" "sv_pc s k = HServing x" "sv_received t = sv_received s @ map (Pair x) ds"
  then have "x \<noteq> i" using assms(3-5) unfolding ids_ok_def by (metis pc_id.simps(3))
  then show ?thesis using received_append [OF t(3), of i] by simp
qed (rule received_same)

text \<open>Whose goroutine makes a step.\<close>

fun acts_on :: "srv_event \<Rightarrow> nat option" where
  "acts_on (EvAccept k) = Some k"
| "acts_on (EvAuthFailed k e) = Some k"
| "acts_on (EvAuthRead k) = Some k"
| "acts_on (EvAuthWrite k code p) = Some k"
| "acts_on (EvAuthOk k i) = Some k"
| "acts_on (EvCheck k) = Some k"
| "acts_on (EvAdd k) = Some k"
| "acts_on (EvTurn k) = Some k"
| "acts_on (EvDisconnect k) = Some k"
| "acts_on _ = None"

section \<open>The invariant\<close>

context frame_stream begin

lemma deliver_carries: "carries c fs \<Longrightarrow> carries (snd (deliver wfr p c)) fs"
  by (simp add: deliver_def write_keeps)

lemma read_turn_end: "carries c [] \<Longrightarrow> \<exists>e c1. read_turn rfr wfr c = (LoopEnds (Fail e), c1)"
  using read_end [of c] by (auto simp: read_turn_def)

lemma read_turn_next:
  assumes "carries c (f # fs)"
  shows "if OpCode f = OpClose then \<exists>e c1. read_turn rfr wfr c = (LoopEnds (Fail e), c1)
    else \<exists>c1. read_turn rfr wfr c = (LoopGoes (deliveries [f]), c1) \<and> carries c1 fs"
proof -
  obtain c1 where "rfr c = (Ret f, c1)" "carries c1 fs" using read_next [OF assms] by blast
  then show ?thesis using write_keeps [of c1 fs OpPong "[]"]
    by (auto simp: read_turn_def loop_spec_defs)
qed

lemma push_ref_chan:
  assumes "sv_chan s k = Some ch"
  shows "\<exists>ch'. sv_chan (snd (push_ref wfr r p s)) k = Some ch' \<and> (\<forall>fs. carries (IConn ch) fs \<longrightarrow> carries (IConn ch') fs)"
  using assms write_keeps
  by (auto simp: push_ref_def ch_Push_def split: option.splits prod.splits) (metis snd_conv)+

lemma step_others:
  assumes "srv_inv s" "is_order \<pi>" "srv_do kind rfr wfr \<pi> w ev s = Some (r, t)" "acts_on ev \<noteq> Some j"
  shows "sv_pc t j = sv_pc s j \<and> sv_conn t j = sv_conn s j
    \<and> (\<forall>ch. sv_chan s j = Some ch \<longrightarrow> (\<exists>ch'. sv_chan t j = Some ch' \<and> (\<forall>fs. carries (IConn ch) fs \<longrightarrow> carries (IConn ch') fs)))"
proof (cases ev)
  case (EvPush i p)
  then have t: "t = snd (tcp_srv_Push wfr i p s) \<or> t = snd (ws_srv_Push wfr i p s)" using assms(3) by (auto split: srv_kind.splits)
  then have "t = s \<or> (\<exists>r. t = snd (push_ref wfr r p s))"
    by (auto simp: tcp_srv_Push_def ws_srv_Push_def split: option.splits)
  then show ?thesis using push_ref_chan [of s j] by (auto simp: push_ref_keeps push_ref_frame)
next
  case (EvShutdown n)
  then have t: "t = snd (srv_Shutdown \<pi> n s)" using assms(3) by auto
  have "\<exists>ch'. sv_chan t j = Some ch' \<and> IConn ch' = IConn ch" if "sv_chan s j = Some ch" for ch
    using Shutdown_inv [OF assms(1,2), of n] that t by (metis map_option_eq_Some)
  moreover have "sv_pc t j = sv_pc s j" using Shutdown_inv [OF assms(1,2), of n] t by simp
  ultimately show ?thesis using t by (simp add: Shutdown_frame) metis
qed (use assms(3,4) in \<open>auto simp: reject_def Let_def split: if_splits srv_kind.splits handler_pc.splits option.splits prod.splits turn.splits go.splits\<close>)

lemma read_drop: "carries c fs \<Longrightarrow> carries (snd (rfr c)) (drop 1 fs)"
  using read_next [of c "hd fs" "tl fs"] read_end [of c] by (cases fs) auto

text \<open>One turn of the read loop of a connection being served.\<close>

lemma turn_ok:
  assumes "srv_inv s" "srv_do kind rfr wfr \<pi> w (EvTurn k) s = Some (r, t)" "conn_ok carries fs s k (sv_pc s k)"
  shows "conn_ok carries fs t k (sv_pc t k)"
proof -
  obtain i ch where i: "sv_pc s k = HServing i" and ch: "sv_chan s k = Some ch"
    using assms(2) by (auto split: handler_pc.splits option.splits)
  have id: "ch_id ch = i" using srv_invD(2) [OF assms(1) i] ch by auto
  obtain d rest where d: "carries (IConn ch) rest" "fs = d @ rest" "no_close d" "received i s = deliveries d"
    using assms(3) i ch by auto
  have ended: ?thesis if "read_turn rfr wfr (IConn ch) = (LoopEnds (Fail e), c1)" "deliveries rest = []" for e c1
  proof -
    have "sv_pc t k = HEnded i" "sv_received t = sv_received s" using assms(2) that(1) i ch by auto
    then show ?thesis using d that(2) by (simp add: received_same [of t s] deliveries_append)
  qed
  show ?thesis
  proof (cases rest)
    case Nil
    with d(1) read_turn_end ended show ?thesis by fastforce
  next
    case (Cons f rest')
    show ?thesis
    proof (cases "OpCode f = OpClose")
      case True
      then obtain e c1 where "read_turn rfr wfr (IConn ch) = (LoopEnds (Fail e), c1)"
        using read_turn_next [of "IConn ch" f rest'] d(1) Cons by auto
      then show ?thesis by (rule ended) (simp add: Cons deliveries_close [OF True])
    next
      case False
      then obtain c1 where c1: "read_turn rfr wfr (IConn ch) = (LoopGoes (deliveries [f]), c1)" "carries c1 rest'"
        using read_turn_next [of "IConn ch" f rest'] d(1) Cons by auto
      have t: "sv_pc t k = HServing i" "sv_chan t k = Some (ch\<lparr>IConn := c1\<rparr>)"
        "sv_received t = sv_received s @ map (Pair i) (deliveries [f])"
        using assms(2) c1(1) i ch id by auto
      have "received i t = deliveries (d @ [f])"
        using received_append [OF t(3), of i] d(3,4) by (simp add: deliveries_append)
      moreover have "no_close (d @ [f])" using d(3) False by (simp add: no_close_def)
      moreover have "fs = (d @ [f]) @ rest'" using d(2) Cons by simp
      ultimately show ?thesis unfolding t(1) conn_ok.simps using t(2) c1(2)
        by (intro exI [of _ "ch\<lparr>IConn := c1\<rparr>"] exI [of _ "d @ [f]"] exI [of _ rest']) simp
    qed
  qed
qed

lemma acting_ok:
  assumes "srv_inv s" "ids_ok U s" "set (auth_id ev) \<inter> U = {}" "srv_do kind rfr wfr \<pi> w ev s = Some (r, t)"
    and "acts_on ev = Some k" "conn_ok carries fs s k (sv_pc s k)"
  shows "conn_ok carries (drop (length (filter ((=) (EvAuthRead k)) [ev])) fs) t k (sv_pc t k)"
proof (cases "ev = EvTurn k")
  case True
  with turn_ok [OF assms(1) _ assms(6)] assms(4) show ?thesis by simp
next
  case False
  show ?thesis
  proof (cases ev)
    case (EvAuthRead j)
    then have j: "j = k" using assms(5) by simp
    from srv_auth_io [OF disjI1 assms(4), OF EvAuthRead] assms(6) j EvAuthRead
    show ?thesis using read_drop [of "sv_conn s k" fs] by (auto simp: received_def)
  next
    case (EvAuthWrite j code p)
    then have j: "j = k" using assms(5) by simp
    from srv_auth_io [OF disjI2 assms(4), OF EvAuthWrite] assms(6) j EvAuthWrite
    show ?thesis using write_keeps [of "sv_conn s k" fs code p] by (auto simp: received_def)
  next
    case (EvAuthOk j i)
    then have j: "j = k" "sv_pc s k = HAuth" "t = srv_goto k (HAccepted i) s" using assms(4,5) by (auto split: if_splits)
    have "received i s = []" using received_fresh [OF assms(2)] assms(3) EvAuthOk by simp
    then show ?thesis using assms(6) j EvAuthOk by (simp add: received_def)
  next
    case (EvCheck j)
    then obtain i where j: "j = k" "sv_pc s k = HAccepted i" using assms(4,5) by (auto split: handler_pc.splits)
    with EvCheck assms(4,6) show ?thesis by (auto simp: reject_def received_def split: option.splits)
  next
    case (EvAdd j)
    then obtain i where j: "j = k" "sv_pc s k = HFresh i" using assms(4,5) by (auto split: handler_pc.splits)
    then obtain ch where t: "sv_pc t k = HServing i" "sv_chan t k = Some ch" "IConn ch = sv_conn s k" "sv_received t = sv_received s"
      using EvAdd assms(4) by (auto simp: Let_def SetWriteWait_def SetReadWait_def NewChannel_def)
    have "carries (sv_conn s k) fs" "received i t = []"
      using assms(6) j t(4) by (simp_all add: received_same [of t s])
    then show ?thesis unfolding t(1) conn_ok.simps using t(2,3) EvAdd
      by (intro exI [of _ ch] exI [of _ "[]"] exI [of _ fs]) (simp add: no_close_def)
  qed (use False assms(4-6) in \<open>auto simp: reject_def split: if_splits handler_pc.splits option.splits prod.splits\<close>)
qed

lemma serving_do:
  assumes "srv_inv s" "is_order \<pi>" "ids_ok U s" "set (auth_id ev) \<inter> U = {}" "srv_do kind rfr wfr \<pi> w ev s = Some (r, t)"
    and "serving_ok carries sent s"
  shows "serving_ok carries (\<lambda>k. drop (auth_reads k [ev]) (sent k)) t"
  unfolding serving_ok_def
proof
  fix j
  have j: "conn_ok carries (sent j) s j (sv_pc s j)" using assms(6) by (simp add: serving_ok_def)
  show "conn_ok carries (drop (auth_reads j [ev]) (sent j)) t j (sv_pc t j)"
  proof (cases "acts_on ev = Some j")
    case True
    then show ?thesis unfolding auth_reads_def by (rule acting_ok [OF assms(1,3,4,5) _ j])
  next
    case False
    note o = step_others [OF assms(1,2,5) False]
    have ne: "ev \<noteq> EvTurn j" "EvAuthRead j \<noteq> ev" using False by auto
    then have "\<And>i. pc_id (sv_pc s j) = Some i \<Longrightarrow> received i t = received i s"
      using received_other [OF assms(1,5,3)] by blast
    then have "conn_ok carries (sent j) t j (sv_pc s j)" using o by (intro conn_ok_keep [OF j]) blast+
    then show ?thesis using o ne(2) by (simp add: auth_reads_def)
  qed
qed

lemma serving_run:
  "srv_run kind rfr wfr \<pi> w evs s = Some (r, t) \<Longrightarrow> is_order \<pi> \<Longrightarrow> srv_inv s \<Longrightarrow> ids_ok U s
     \<Longrightarrow> distinct (concat (map auth_id evs)) \<Longrightarrow> U \<inter> set (concat (map auth_id evs)) = {}
     \<Longrightarrow> serving_ok carries sent s \<Longrightarrow> serving_ok carries (\<lambda>k. drop (auth_reads k evs) (sent k)) t"
proof (induction evs arbitrary: s U sent)
  case (Cons ev evs)
  obtain r1 s1 where d: "srv_do kind rfr wfr \<pi> w ev s = Some (r1, s1)"
    using Cons.prems(1) by (auto split: option.splits)
  have fresh: "set (auth_id ev) \<inter> U = {}" using Cons.prems(6) by auto
  have s1: "srv_inv s1" "ids_ok (U \<union> set (auth_id ev)) s1" "serving_ok carries (\<lambda>k. drop (auth_reads k [ev]) (sent k)) s1"
    by (rule srv_do_inv [OF Cons.prems(3,2) d], rule ids_ok_do [OF Cons.prems(3,2) d Cons.prems(4) fresh],
        rule serving_do [OF Cons.prems(3,2,4) fresh d Cons.prems(7)])
  have split: "auth_reads k (ev # evs) = auth_reads k evs + auth_reads k [ev]" for k by (simp add: auth_reads_def)
  have "srv_run kind rfr wfr \<pi> w evs s1 = Some (r, t) \<or> t = s1 \<and> evs = []"
    using Cons.prems(1) d by (cases r1) (auto split: if_splits)
  then show ?case
  proof
    assume "srv_run kind rfr wfr \<pi> w evs s1 = Some (r, t)"
    then have "serving_ok carries (\<lambda>k. drop (auth_reads k evs) (drop (auth_reads k [ev]) (sent k))) t"
      using Cons.prems(2,5,6) s1 by (intro Cons.IH [of s1 "U \<union> set (auth_id ev)"]) auto
    then show ?thesis by (simp only: split drop_drop)
  qed (use s1 in simp)
qed (simp add: auth_reads_def)

lemma serving_init: "\<forall>k. carries (conns k) (sent k) \<Longrightarrow> serving_ok carries sent (srv_init conns) \<and> ids_ok {} (srv_init conns)"
  by (simp add: serving_ok_def ids_ok_def srv_init_def)

lemma listener_prefix:
  assumes "srv_run kind rfr wfr \<pi> w evs (srv_init conns) = Some (r, s)" "is_order \<pi>"
    "distinct (concat (map auth_id evs))" "\<forall>k. carries (conns k) (sent k)"
  shows "(sv_pc s k = HServing i \<longrightarrow> (\<exists>d rest. drop (auth_reads k evs) (sent k) = d @ rest \<and> no_close d \<and> received i s = deliveries d))
    \<and> (sv_pc s k = HEnded i \<longrightarrow> received i s = deliveries (drop (auth_reads k evs) (sent k)))"
proof -
  have "serving_ok carries (\<lambda>k. drop (auth_reads k evs) (sent k)) s"
    using serving_run [OF assms(1,2) srv_inv_init _ assms(3), of "{}"] serving_init [OF assms(4)] by simp
  then have "conn_ok carries (drop (auth_reads k evs) (sent k)) s k (sv_pc s k)" by (simp add: serving_ok_def)
  then show ?thesis by (intro conjI impI) (simp; blast)+
qed

end

section \<open>Both servers\<close>

text \<open>
  What the listener has under the identifier of a connection whose peer sends \<open>fs\<close>: while it is served,
  the deliveries of a part of \<open>fs\<close> without a close; once it has ended, those of all of \<open>fs\<close>.
\<close>

definition listened :: "frame list \<Rightarrow> nat \<Rightarrow> string \<Rightarrow> 'c server \<Rightarrow> bool" where
  "listened fs k i s \<longleftrightarrow>
     (sv_pc s k = HServing i \<longrightarrow> (\<exists>d rest. fs = d @ rest \<and> no_close d \<and> received i s = deliveries d))
     \<and> (sv_pc s k = HEnded i \<longrightarrow> received i s = deliveries fs)"


text \<open>A peer that sends a handshake, which the acceptor reads, and one message.\<close>

definition shake :: frame where
  "shake = \<lparr>OpCode = OpBinary, Payload = [117, 49]\<rparr>"

definition hello :: frame where
  "hello = \<lparr>OpCode = OpBinary, Payload = [72, 105]\<rparr>"

definition conn_with :: "frame list \<Rightarrow> tcp_conn" where
  "conn_with fs = \<lparr>rd = \<lparr>avail = concat (map frame_enc fs), rerr = ErrEOF\<rparr>, wr = buffer\<rparr>"

lemma conn_with_read:
  "frame_ok f \<Longrightarrow> tcp_ReadFrame (conn_with (f # fs)) = (Ret f, conn_with fs)"
  "tcp_ReadFrame (conn_with []) = (Fail ErrEOF, conn_with [])"
  using tcp_ReadFrame_enc [of f "conn_with (f # fs)" "concat (map frame_enc fs)"]
  by (simp_all add: conn_with_def tcp_ReadFrame_end)

lemma hello_turns:
  "tcp_ReadFrame (conn_with [shake, hello]) = (Ret shake, conn_with [hello])"
  "read_turn tcp_ReadFrame tcp_WriteFrame (conn_with [hello]) = (LoopGoes [[72, 105]], conn_with [])"
  "read_turn tcp_ReadFrame tcp_WriteFrame (conn_with []) = (LoopEnds (Fail ErrEOF), conn_with [])"
proof -
  have ok: "frame_ok hello" "frame_ok shake" by (simp_all add: frame_ok_def hello_def shake_def)
  show "tcp_ReadFrame (conn_with [shake, hello]) = (Ret shake, conn_with [hello])" by (rule conn_with_read(1) [OF ok(2)])
  show "read_turn tcp_ReadFrame tcp_WriteFrame (conn_with [hello]) = (LoopGoes [[72, 105]], conn_with [])"
    by (simp add: read_turn_def conn_with_read(1) [OF ok(1)]) (simp add: hello_def)
  show "read_turn tcp_ReadFrame tcp_WriteFrame (conn_with []) = (LoopEnds (Fail ErrEOF), conn_with [])"
    by (simp add: read_turn_def conn_with_read(2))
qed

definition hello_run :: "srv_event list" where
  "hello_run = [EvAccept 0, EvAuthRead 0, EvAuthOk 0 ''u1'', EvCheck 0, EvAdd 0, EvTurn 0, EvTurn 0]"


end
