(* ===== verification/Heartbeat.thy ===== *)
theory Heartbeat
  imports Client
begin

text \<open>
  A client and the read loop of the channel at the other end (\<open>tcp/client.go\<close>, \<open>core/channel.go\<close>):
  what the calls of \<open>Send\<close> and the ticks of the heartbeat become on the wire, and what the server's
  listener makes of it.
\<close>

section \<open>Calls on a client\<close>

datatype wire_call = CallSend bytes | Tick

definition wire_do :: "'c conn_ops \<Rightarrow> wire_call \<Rightarrow> 'c client \<Rightarrow> unit go \<times> 'c client" where
  "wire_do ops call c = (case call of CallSend p \<Rightarrow> tcp_Send ops p c | Tick \<Rightarrow> tcp_ping ops c)"

text \<open>Calls one after the other, as long as there is no error.\<close>

fun wire_all :: "'c conn_ops \<Rightarrow> wire_call list \<Rightarrow> 'c client \<Rightarrow> unit go \<times> 'c client" where
  "wire_all ops [] c = (Ret (), c)"
| "wire_all ops (call # calls) c = go_bind (wire_do ops call c) (\<lambda>_ c1. wire_all ops calls c1)"

fun call_frame :: "wire_call \<Rightarrow> frame" where
  "call_frame (CallSend p) = \<lparr>OpCode = OpBinary, Payload = p\<rparr>"
| "call_frame Tick = \<lparr>OpCode = OpPing, Payload = []\<rparr>"

text \<open>The payloads sent that a listener gets, and the number of beats.\<close>

definition sent_payloads :: "wire_call list \<Rightarrow> bytes list" where
  "sent_payloads calls = concat (map (\<lambda>c. case c of CallSend p \<Rightarrow> if p = [] then [] else [p] | Tick \<Rightarrow> []) calls)"

definition beats :: "wire_call list \<Rightarrow> nat" where
  "beats calls = length (filter (\<lambda>c. c = Tick) calls)"

definition online :: "tcp_conn client \<Rightarrow> tcp_conn \<Rightarrow> bool" where
  "online c k \<longleftrightarrow> c_conn c = Some k \<and> room (wr k) = None \<and> c_state c \<noteq> 0"

definition after_writing :: "bytes \<Rightarrow> tcp_conn \<Rightarrow> tcp_conn" where
  "after_writing bs k = k\<lparr>wr := (wr k)\<lparr>written := written (wr k) @ bs\<rparr>\<rparr>"

lemma after_writing_twice: "after_writing cs (after_writing bs k) = after_writing (bs @ cs) k"
  by (simp add: after_writing_def)

lemma online_write:
  assumes "online c k"
  shows "deadline_then_write tcp_ops code p c =
    (Ret (), c\<lparr>c_conn := Some (after_writing (frame_enc \<lparr>OpCode = code, Payload = p\<rparr>) k)\<rparr>)"
  using assms by (simp add: online_def deadline_then_write_def tcp_ops_def tcp_WriteFrame_healthy after_writing_def)

lemma online_kept: "online c k \<Longrightarrow> online (c\<lparr>c_conn := Some (after_writing bs k)\<rparr>) (after_writing bs k)"
  by (simp add: online_def after_writing_def)

lemma wire_do_online:
  assumes "online c k"
  shows "wire_do tcp_ops call c = (Ret (), c\<lparr>c_conn := Some (after_writing (frame_enc (call_frame call)) k)\<rparr>)"
  using online_write [OF assms] assms
  by (cases call) (simp_all add: wire_do_def tcp_Send_def tcp_ping_def online_def)

lemma wire_all_online:
  "online c k \<Longrightarrow> wire_all tcp_ops calls c =
     (Ret (), c\<lparr>c_conn := Some (after_writing (concat (map (frame_enc \<circ> call_frame) calls)) k)\<rparr>)"
proof (induction calls arbitrary: c k)
  case Nil
  then show ?case by (simp add: online_def after_writing_def)
next
  case (Cons call calls)
  show ?case
    using Cons.IH [OF online_kept [OF Cons.prems]]
    by (simp add: wire_do_online [OF Cons.prems] after_writing_twice)
qed

lemma heartbeat_ticks: "tcp_heartbealoop ops n c = (case wire_all ops (replicate n Tick) c of
    (Ret _, c1) \<Rightarrow> (None, c1) | (r, c1) \<Rightarrow> (Some r, c1))"
  by (induction n arbitrary: c) (auto simp: wire_do_def split: prod.splits go.splits)

text \<open>Without a client on the line both loops end at the first failing ping.\<close>

lemma heartbeat_stops:
  "tcp_ping ops c = (Fail e, c1) \<Longrightarrow> tcp_heartbealoop ops (Suc n) c = (Some (Fail e), c1)"
  "ws_ping ops w k = (Fail e, k1) \<Longrightarrow> ws_heartloop ops w (Suc n) k = (Some (Fail e), k1)"
  by simp_all

section \<open>At the other end\<close>

lemma calls_deliver:
  "deliveries (map call_frame calls) = sent_payloads calls"
  "pongs (map call_frame calls) = concat (replicate (beats calls) (frame_enc \<lparr>OpCode = OpPong, Payload = []\<rparr>))"
  "loop_rest (map call_frame calls) = []" "loop_error (map call_frame calls) e = e"
proof -
  have op: "OpCode (call_frame c) \<noteq> OpClose" for c by (cases c) simp_all
  then have all: "before_close (map call_frame calls) = map call_frame calls"
    by (induction calls) (simp_all add: before_close_def)
  have "map Payload (filter (\<lambda>f. OpCode f \<noteq> OpPing \<and> Payload f \<noteq> []) (map call_frame calls)) = sent_payloads calls"
  proof (induction calls)
    case (Cons c calls)
    then show ?case by (cases c) (simp_all add: sent_payloads_def)
  qed (simp add: sent_payloads_def)
  then show "deliveries (map call_frame calls) = sent_payloads calls" by (simp only: deliveries_def all)
  have "concat (map (\<lambda>_. x) (filter (\<lambda>f. OpCode f = OpPing) (map call_frame calls))) = concat (replicate (beats calls) x)" for x :: bytes
  proof (induction calls)
    case (Cons c calls)
    then show ?case by (cases c) (simp_all add: beats_def)
  qed (simp add: beats_def)
  then show "pongs (map call_frame calls) = concat (replicate (beats calls) (frame_enc \<lparr>OpCode = OpPong, Payload = []\<rparr>))"
    by (simp only: pongs_def all)
  show "loop_rest (map call_frame calls) = []"
    using op by (induction calls) (simp_all add: loop_rest_def)
  show "loop_error (map call_frame calls) e = e" using op by (simp add: loop_error_def)
qed

text \<open>C31: Sending and beating.  Whatever calls of \<open>Send\<close> and ticks of the heartbeat a connected TCP client makes,
  one after the other, none fails, and from the bytes they put on the connection the read loop of the
  channel at the other end hands over exactly the non-empty payloads sent, in order and once, answers
  each beat with exactly one pong, and reads the stream to its end.\<close>

theorem client_heard:
  assumes "online c k" and "\<forall>p. CallSend p \<in> set calls \<longrightarrow> length p < 2 ^ 32"
    and "wire_all tcp_ops calls c = (r, c')"
    and "room (wr peer) = None" and "c_conn c' = Some k'" and "written (wr k') = written (wr k) @ avail (rd peer)"
  shows "r = Ret () \<and> Readloop tcp_ReadFrame tcp_WriteFrame peer [] =
    Some (Fail (rerr (rd peer)),
          after_writing (concat (replicate (beats calls) (frame_enc \<lparr>OpCode = OpPong, Payload = []\<rparr>))) (peer\<lparr>rd := (rd peer)\<lparr>avail := []\<rparr>\<rparr>),
          sent_payloads calls)"
proof -
  have r: "r = Ret ()" and k': "k' = after_writing (concat (map (frame_enc \<circ> call_frame) calls)) k"
    using wire_all_online [OF assms(1), of calls] assms(3,5) by auto
  then have bytes: "avail (rd peer) = concat (map frame_enc (map call_frame calls))"
    using assms(6) by (simp add: after_writing_def)
  have "frame_ok (call_frame call)" if "call \<in> set calls" for call
    using assms(2) that by (cases call) (simp_all add: frame_ok_def)
  then have "\<forall>f \<in> set (map call_frame calls). frame_ok f" by simp
  from Readloop_frames [OF this assms(4) bytes, of "[]"] r show ?thesis
    by (simp add: calls_deliver after_writing_def)
qed

definition online_client :: "tcp_conn client" where
  "online_client = (tcp_NewClientWithProps ''gate01'' ''chat'' None demo_opts)\<lparr>c_conn := Some \<lparr>rd = \<lparr>avail = [], rerr = ErrEOF\<rparr>, wr = buffer\<rparr>, c_state := 1\<rparr>"

theorem client_heard_witness:
  "\<exists>peer. Readloop tcp_ReadFrame tcp_WriteFrame
     \<lparr>rd = \<lparr>avail = concat (map frame_enc (map call_frame [CallSend [7], Tick, CallSend [8, 9]])), rerr = ErrEOF\<rparr>, wr = buffer\<rparr> []
     = Some (Fail ErrEOF, peer, [[7], [8, 9]])"
proof -
  let ?calls = "[CallSend [7], Tick, CallSend [8, 9]]"
  let ?k = "\<lparr>rd = \<lparr>avail = [], rerr = ErrEOF\<rparr>, wr = buffer\<rparr>"
  let ?peer = "\<lparr>rd = \<lparr>avail = concat (map frame_enc (map call_frame ?calls)), rerr = ErrEOF\<rparr>, wr = buffer\<rparr>"
  have on: "online online_client ?k" by (simp add: online_def online_client_def buffer_def)
  note all = wire_all_online [OF on, of ?calls]
  have short: "\<forall>p. CallSend p \<in> set ?calls \<longrightarrow> length p < 2 ^ 32" by auto
  have "Readloop tcp_ReadFrame tcp_WriteFrame ?peer [] =
    Some (Fail (rerr (rd ?peer)), after_writing (concat (replicate (beats ?calls) (frame_enc \<lparr>OpCode = OpPong, Payload = []\<rparr>)))
      (?peer\<lparr>rd := (rd ?peer)\<lparr>avail := []\<rparr>\<rparr>), sent_payloads ?calls)"
    by (rule conjunct2 [OF client_heard [where k' = "after_writing (concat (map (frame_enc \<circ> call_frame) ?calls)) ?k", OF on short all]]) (simp_all add: buffer_def after_writing_def)
  then show ?thesis by (simp add: sent_payloads_def)
qed

end
