(* ===== verification/Selector.thy ===== *)
theory Selector
  imports Endian
begin

text \<open>
  \<open>container/selector.go\<close> and \<open>container/hash_selector.go\<close>: the choice of a service instance by the
  checksum of the channel identifier.  \<open>hash/crc32\<close> is the bitwise definition of the IEEE polynomial
  in reflected form; Go's \<open>int\<close> has 64 bits, so the conversion of a \<open>uint32\<close> never turns negative.
\<close>

section \<open>CRC-32\<close>

definition crc_poly :: "32 word" where "crc_poly = 0xEDB88320"

definition crc_bit :: "32 word \<Rightarrow> 32 word" where
  "crc_bit c = (if bit c 0 then drop_bit 1 c XOR crc_poly else drop_bit 1 c)"

definition crc_byte :: "32 word \<Rightarrow> byte \<Rightarrow> 32 word" where
  "crc_byte c b = (crc_bit ^^ 8) (c XOR ucast b)"

definition crc32_IEEE :: "bytes \<Rightarrow> 32 word" where
  "crc32_IEEE bs = NOT (foldl crc_byte (NOT 0) bs)"

definition HashCode :: "string \<Rightarrow> int" where
  "HashCode key = uint (crc32_IEEE (to_bytes key))"

lemma HashCode_bounds: "0 \<le> HashCode key" "HashCode key < 2 ^ 32"
  using unsigned_less [of "crc32_IEEE (to_bytes key)"] by (simp_all add: HashCode_def uint_nonnegative)

section \<open>HashSelector\<close>

text \<open>\<open>srvs\<close> holds the identifiers of the services; \<open>code % ll\<close> panics when there are none.\<close>

definition HashSelector_Lookup :: "string \<Rightarrow> string list \<Rightarrow> string go" where
  "HashSelector_Lookup channel srvs =
     (let ll = int (length srvs); code = HashCode channel
      in if ll = 0 then Panics ''integer divide by zero''
         else Ret (srvs ! nat (code mod ll)))"

text \<open>What the container asks of a selector: among at least one service it returns one of them.\<close>

locale selector =
  fixes pick :: "string \<Rightarrow> string list \<Rightarrow> string go"
  assumes chooses: "srvs \<noteq> [] \<Longrightarrow> \<exists>s \<in> set srvs. pick channel srvs = Ret s"
begin

lemma chosen_member: "srvs \<noteq> [] \<Longrightarrow> pick channel srvs = Ret s \<Longrightarrow> s \<in> set srvs"
  using chooses [of srvs channel] by auto

end

lemma HashSelector_index: "srvs \<noteq> [] \<Longrightarrow> nat (HashCode channel mod int (length srvs)) < length srvs"
  by (simp add: nat_less_iff)

interpretation hs: selector HashSelector_Lookup
proof
  fix srvs :: "string list" and channel
  assume "srvs \<noteq> []"
  then show "\<exists>s \<in> set srvs. HashSelector_Lookup channel srvs = Ret s"
    using HashSelector_index [of srvs channel] by (auto simp: HashSelector_Lookup_def Let_def)
qed

text \<open>Some order of the services makes the selector choose any given one of them.\<close>

lemma HashSelector_any:
  assumes "x \<in> set l"
  shows "\<exists>l'. mset l' = mset l \<and> HashSelector_Lookup channel (map f l') = Ret (f x)"
proof -
  let ?i = "nat (HashCode channel mod int (length l))"
  from assms obtain j where j: "j < length l" "l ! j = x" by (auto simp: in_set_conv_nth)
  have "map f l \<noteq> []" using assms by auto
  from HashSelector_index [OF this] have i: "?i < length l" by simp
  let ?l = "l[j := l ! ?i, ?i := l ! j]"
  have "mset ?l = mset l" using i j(1) by (rule mset_swap)
  moreover have "HashSelector_Lookup channel (map f ?l) = Ret (f x)"
    using i j by (auto simp: HashSelector_Lookup_def Let_def)
  ultimately show ?thesis by blast
qed

text \<open>The selector returns one of the services it is given, the same one for the same channel and
  list, and panics exactly when there are none; the list decides as much as the channel does, since
  for every channel each of the services is the one chosen under some order of the list.\<close>

lemma hash_selector_choice:
  "(HashSelector_Lookup channel srvs = Panics ''integer divide by zero'' \<longleftrightarrow> srvs = [])
   \<and> {s. \<exists>srvs'. mset srvs' = mset srvs \<and> HashSelector_Lookup channel srvs' = Ret s} = set srvs"
proof
  show "HashSelector_Lookup channel srvs = Panics ''integer divide by zero'' \<longleftrightarrow> srvs = []"
    by (simp add: HashSelector_Lookup_def Let_def)
  have "s \<in> set srvs" if "mset srvs' = mset srvs" "HashSelector_Lookup channel srvs' = Ret s" for s srvs'
  proof -
    have "srvs' \<noteq> []" using that(2) by (auto simp: HashSelector_Lookup_def)
    then show ?thesis using hs.chosen_member [OF _ that(2)] mset_eq_setD [OF that(1)] by blast
  qed
  then show "{s. \<exists>srvs'. mset srvs' = mset srvs \<and> HashSelector_Lookup channel srvs' = Ret s} = set srvs"
    using HashSelector_any [where f = "\<lambda>s. s"] by auto
qed

end
