(* ===== verification/Packet.thy ===== *)
theory Packet
  imports Prelude
begin

text \<open>
  The packet library the program is built on (\<open>github.com/klintcheng/kim/wire\<close> and \<open>wire/pkt\<close>) is not
  part of the repository.  Its logic packets are an abstract type \<open>'p\<close>, and every function, field and
  constant of it that the program uses is a component of the record \<open>pkt_lib\<close>, an argument of the
  definitions that need it.  The predicates at the end are the documented behaviours the properties
  rely on.  Messages the program itself fills in or reads are data: the session (the getters of
  \<open>iface/icontext.go\<close>) and the bodies.
\<close>

section \<open>Messages\<close>

record session =
  s_ChannelId :: string
  s_GateId :: string
  s_Account :: string
  s_Zone :: string
  s_Isp :: string
  s_RemoteIP :: string
  s_Device :: string
  s_App :: string
  s_Tags :: "string list"

definition no_session :: session where
  "no_session = \<lparr>s_ChannelId = '''', s_GateId = '''', s_Account = '''', s_Zone = '''', s_Isp = '''',
     s_RemoteIP = '''', s_Device = '''', s_App = '''', s_Tags = []\<rparr>"

datatype status =
    St_Success
  | St_NoDestination
  | St_InvalidPacketBody
  | St_InvalidCommand
  | St_Unauthorized
  | St_SystemException
  | St_NotImplemented
  | St_SessionNotFound

datatype flag = Flag_Response | Flag_Push

record message_req =
  mr_Type :: int
  mr_Body :: string
  mr_Extra :: string

datatype body =
    B_nil
  | B_ErrorResp string
  | B_KickoutNotify string
  | B_LoginReq string  \<comment> \<open>the token\<close>
  | B_LoginResp string
  | B_Session session
  | B_MessagePush int message_req string int  \<comment> \<open>message id, content, sender, send time\<close>
  | B_MessageResp int int  \<comment> \<open>message id, send time\<close>

text \<open>
  A meta value is an \<open>interface{}\<close>: a string, or a value of another type, of which only what the verb
  \<open>%s\<close> prints is kept.
\<close>

datatype meta_val = MStr string | MOther string

fun meta_text :: "meta_val option \<Rightarrow> string" where
  "meta_text None = ''%!s(<nil>)''"
| "meta_text (Some (MStr s)) = s"
| "meta_text (Some (MOther s)) = s"

datatype 'p any_pkt = Basic_pkt nat | Logic_pkt 'p

section \<open>The library\<close>

record 'p pkt_lib =
  p_command :: "'p \<Rightarrow> string"
  p_channel :: "'p \<Rightarrow> string"
  p_dest :: "'p \<Rightarrow> string"
  p_set_channel :: "string \<Rightarrow> 'p \<Rightarrow> 'p"
  p_status :: "'p \<Rightarrow> status"
  p_set_status :: "status \<Rightarrow> 'p \<Rightarrow> 'p"
  p_set_flag :: "flag \<Rightarrow> 'p \<Rightarrow> 'p"
  p_get_meta :: "string \<Rightarrow> 'p \<Rightarrow> meta_val option"
  p_add_meta :: "string \<Rightarrow> string \<Rightarrow> 'p \<Rightarrow> 'p"
  p_del_meta :: "string \<Rightarrow> 'p \<Rightarrow> 'p"
  p_new :: "string \<Rightarrow> string option \<Rightarrow> 'p"
  p_new_from :: "'p \<Rightarrow> 'p"
  p_write_body :: "body \<Rightarrow> 'p \<Rightarrow> 'p"
  p_read_session :: "'p \<Rightarrow> error + session"
  p_read_message :: "'p \<Rightarrow> error + message_req"
  p_read_login :: "'p \<Rightarrow> error + string"  \<comment> \<open>the token of a login request\<close>
  p_marshal :: "'p \<Rightarrow> bytes"
  p_must_read :: "bytes \<Rightarrow> error + 'p"
  p_read :: "bytes \<Rightarrow> error + 'p any_pkt"
  p_marshal_basic :: "nat \<Rightarrow> bytes"
  p_service :: "'p \<Rightarrow> string"
  w_MetaDestServer :: string
  w_MetaDestChannels :: string
  w_CommandLoginSignIn :: string
  w_CommandLoginSignOut :: string
  w_SNLogin :: string
  w_CodePing :: nat
  w_CodePong :: nat
  w_ProtocolTCP :: string

section \<open>Documented behaviour\<close>

text \<open>
  Meta entries: adding a key that is absent makes it found; other keys are not touched.
\<close>

definition meta_laws :: "'p pkt_lib \<Rightarrow> bool" where
  "meta_laws L \<longleftrightarrow>
     w_MetaDestServer L \<noteq> w_MetaDestChannels L \<and>
     (\<forall>k v p. p_get_meta L k p = None \<longrightarrow> p_get_meta L k (p_add_meta L k v p) = Some (MStr v)) \<and>
     (\<forall>k j v p. j \<noteq> k \<longrightarrow> p_get_meta L j (p_add_meta L k v p) = p_get_meta L j p)"

text \<open>A marshalled packet is read back as it was.\<close>

definition wire_laws :: "'p pkt_lib \<Rightarrow> bool" where
  "wire_laws L \<longleftrightarrow> (\<forall>p. p_must_read L (p_marshal L p) = Inr p)"

text \<open>Adding a meta entry leaves the command and the channel alone.\<close>

definition header_laws :: "'p pkt_lib \<Rightarrow> bool" where
  "header_laws L \<longleftrightarrow>
     (\<forall>k v p. p_command L (p_add_meta L k v p) = p_command L p
        \<and> p_channel L (p_add_meta L k v p) = p_channel L p)"

section \<open>A small library, to show that the hypotheses can hold\<close>

text \<open>
  Packets are a command, a channel and a list of meta entries, marshalled as a sequence of strings.
\<close>

text \<open>A string is its bytes, each after a 1, and a final 0.\<close>

definition enc_str :: "string \<Rightarrow> bytes" where
  "enc_str s = concat (map (\<lambda>c. [1, byte_of_char c]) s) @ [0]"

fun dec_strs :: "bytes \<Rightarrow> string \<Rightarrow> string list" where
  "dec_strs [] cur = []"
| "dec_strs [x] cur = (if x = 0 then [rev cur] else [])"
| "dec_strs (x # y # r) cur = (if x = 0 then rev cur # dec_strs (y # r) [] else dec_strs r (char_of_byte y # cur))"

lemma dec_strs_0: "dec_strs (0 # r) cur = rev cur # dec_strs r []"
  by (cases r) simp_all

lemma dec_strs_enc: "dec_strs (enc_str s @ r) cur = (rev cur @ s) # dec_strs r []"
  by (induction s arbitrary: cur) (simp_all add: enc_str_def dec_strs_0)

lemma dec_strs_all: "dec_strs (concat (map enc_str ss)) [] = ss"
  by (induction ss) (simp_all add: dec_strs_enc)

record demo_pkt =
  d_command :: string
  d_channel :: string
  d_metas :: "(string \<times> string) list"

definition demo_enc :: "demo_pkt \<Rightarrow> bytes" where
  "demo_enc p = concat (map enc_str (d_command p # d_channel p # concat (map (\<lambda>(k, v). [k, v]) (d_metas p))))"

fun pairs_of :: "string list \<Rightarrow> (string \<times> string) list" where
  "pairs_of (k # v # r) = (k, v) # pairs_of r"
| "pairs_of _ = []"

fun demo_pkt_of :: "string list \<Rightarrow> error + demo_pkt" where
  "demo_pkt_of (c # ch # ms) = Inr \<lparr>d_command = c, d_channel = ch, d_metas = pairs_of ms\<rparr>"
| "demo_pkt_of _ = Inl (ErrExt ''decode'')"

definition demo_lib :: "demo_pkt pkt_lib" where
  "demo_lib = \<lparr>p_command = d_command, p_channel = d_channel, p_dest = (\<lambda>_. ''''),
     p_set_channel = (\<lambda>c p. p\<lparr>d_channel := c\<rparr>), p_status = (\<lambda>_. St_Success), p_set_status = (\<lambda>_ p. p), p_set_flag = (\<lambda>_ p. p),
     p_get_meta = (\<lambda>k p. map_option MStr (map_of (d_metas p) k)),
     p_add_meta = (\<lambda>k v p. p\<lparr>d_metas := d_metas p @ [(k, v)]\<rparr>),
     p_del_meta = (\<lambda>k p. p\<lparr>d_metas := filter (\<lambda>(j, _). j \<noteq> k) (d_metas p)\<rparr>),
     p_new = (\<lambda>c ch. \<lparr>d_command = c, d_channel = (case ch of None \<Rightarrow> '''' | Some x \<Rightarrow> x), d_metas = []\<rparr>),
     p_new_from = (\<lambda>p. p\<lparr>d_metas := []\<rparr>), p_write_body = (\<lambda>_ p. p),
     p_read_session = (\<lambda>_. Inr no_session),
     p_read_message = (\<lambda>_. Inr \<lparr>mr_Type = 1, mr_Body = ''hi'', mr_Extra = ''''\<rparr>),
     p_read_login = (\<lambda>_. Inr ''token''),
     p_marshal = demo_enc, p_must_read = (\<lambda>bs. demo_pkt_of (dec_strs bs [])),
     p_read = (\<lambda>bs. map_sum (\<lambda>e. e) Logic_pkt (demo_pkt_of (dec_strs bs []))), p_marshal_basic = (\<lambda>n. [word_of_nat n]),
     p_service = (\<lambda>_. ''chat''),
     w_MetaDestServer = ''dest.server'', w_MetaDestChannels = ''dest.channels'',
     w_CommandLoginSignIn = ''login.signin'', w_CommandLoginSignOut = ''login.signout'',
     w_SNLogin = ''login'', w_CodePing = 1, w_CodePong = 2, w_ProtocolTCP = ''tcp''\<rparr>"

lemma demo_meta_laws: "meta_laws demo_lib"
  by (auto simp: meta_laws_def demo_lib_def map_add_def split: option.splits)

lemma demo_header_laws: "header_laws demo_lib"
  by (simp add: header_laws_def demo_lib_def)

lemma pairs_of_concat: "pairs_of (concat (map (\<lambda>(k, v). [k, v]) ms)) = ms"
  by (induction ms) auto

lemma demo_wire_laws: "wire_laws demo_lib"
proof -
  have "demo_pkt_of (dec_strs (demo_enc p) []) = Inr p" for p
    unfolding demo_enc_def dec_strs_all by (simp add: pairs_of_concat)
  then show ?thesis by (simp add: wire_laws_def demo_lib_def)
qed

end
