(* ===== verification/Container.thy ===== *)
theory Container
  imports IdMap Client Naming Selector Packet
begin

text \<open>
  \<open>container/clients.go\<close> and \<open>container/container.go\<close>: the registry of clients of a service, the
  life cycle of the container, the callback that builds a client for each service consul reports, and
  the forwarding of a packet to an adult instance of a service.
\<close>

section \<open>container.Clients\<close>

type_synonym 'c clients = "'c client sync_map"

definition NewClients :: "'c clients" where "NewClients = []"

definition cl_Add :: "'c client \<Rightarrow> 'c clients \<Rightarrow> 'c clients" where
  "cl_Add cli m = sm_Store (c_id cli) cli m"

definition cl_Remove :: "string \<Rightarrow> 'c clients \<Rightarrow> 'c clients" where
  "cl_Remove i m = sm_Delete i m"

definition cl_Get :: "string \<Rightarrow> 'c clients \<Rightarrow> 'c client option" where
  "cl_Get i m = (case sm_Load i m of None \<Rightarrow> None | Some cli \<Rightarrow> Some cli)"

definition Servicies ::
    "('c clients \<Rightarrow> 'c clients) \<Rightarrow> string list \<Rightarrow> meta_store \<Rightarrow> 'c clients \<Rightarrow> 'c client list" where
  "Servicies \<pi> kvs ms m =
     (let kvLen = length kvs
      in if kvLen \<noteq> 0 \<and> kvLen \<noteq> 2 then []
         else filter (\<lambda>ser. \<not> (kvLen > 0 \<and> meta_get ms (c_meta ser) (kvs ! 0) \<noteq> kvs ! 1)) (sm_Range \<pi> m))"

lemma cl_Get_eq: "cl_Get = sm_Load"
  by (auto simp: cl_Get_def fun_eq_iff split: option.splits)

interpretation cl: id_map NewClients "cl_Add :: 'c client \<Rightarrow> _" cl_Remove cl_Get c_id "keyed c_id"
proof -
  have "(NewClients :: 'c clients) = []" "(cl_Add :: 'c client \<Rightarrow> _) = (\<lambda>v. sm_Store (c_id v) v)"
    "(cl_Remove :: _ \<Rightarrow> 'c clients \<Rightarrow> _) = sm_Delete"
    by (auto simp: NewClients_def cl_Add_def cl_Remove_def fun_eq_iff)
  then show "id_map NewClients (cl_Add :: 'c client \<Rightarrow> _) cl_Remove cl_Get c_id (keyed c_id)"
    unfolding cl_Get_eq using id_map_sync [of "c_id :: 'c client \<Rightarrow> string"] by (simp only:)
qed

lemma Servicies_set:
  "is_order \<pi> \<Longrightarrow> keyed c_id m \<Longrightarrow>
     set (Servicies \<pi> [k, v] ms m) = {c. cl_Get (c_id c) m = Some c \<and> meta_get ms (c_meta c) k = v}"
  by (simp add: Servicies_def cl_Get_eq Range_set)

section \<open>The container\<close>

text \<open>The four states, numbered by \<open>iota\<close>; every change is a compare-and-swap.\<close>

datatype cstate = stateUninitialized | stateInitialized | stateStarted | stateClosed

fun cs_rank :: "cstate \<Rightarrow> nat" where
  "cs_rank stateUninitialized = 0"
| "cs_rank stateInitialized = 1"
| "cs_rank stateStarted = 2"
| "cs_rank stateClosed = 3"

lemma cs_rank_inj: "cs_rank x = cs_rank y \<Longrightarrow> x = y"
  by (cases x; cases y) simp_all

instantiation cstate :: linorder
begin
definition less_eq_cstate :: "cstate \<Rightarrow> cstate \<Rightarrow> bool" where
  "less_eq_cstate x y = (cs_rank x \<le> cs_rank y)"
definition less_cstate :: "cstate \<Rightarrow> cstate \<Rightarrow> bool" where
  "less_cstate x y = (cs_rank x < cs_rank y)"
instance
  by standard (auto simp: less_eq_cstate_def less_cstate_def dest: cs_rank_inj)
end

definition StateYoung :: string where "StateYoung = ''young''"
definition StateAdult :: string where "StateAdult = ''adult''"
definition KeyServiceState :: string where "KeyServiceState = ''service_state''"

text \<open>
  \<open>Srv\<close> is the server's own service entry, \<open>None\<close> while it is nil; \<open>srvclients\<close> is the map from a
  service name to its clients, \<open>deps\<close> the keys of the map of dependencies.  \<open>ct_timers\<close> holds the
  metadata addresses the sleeping goroutines of the callback will change, \<open>ct_loops\<close> the clients
  (service and identifier) whose read loop runs.
\<close>

record 'c container =
  ct_named :: bool
  Srv :: "service option"
  ct_state :: cstate
  srvclients :: "string \<Rightarrow> 'c clients option"
  ct_selector :: "string \<Rightarrow> string list \<Rightarrow> string go"
  ct_dialer :: "'c dialer option"
  deps :: "string list"
  ct_metas :: meta_store
  ct_timers :: "nat list"
  ct_loops :: "(string \<times> string) list"

definition Default :: "'c container" where
  "Default = \<lparr>ct_named = False, Srv = None, ct_state = stateUninitialized, srvclients = (\<lambda>_. None),
     ct_selector = HashSelector_Lookup, ct_dialer = None, deps = [], ct_metas = (\<lambda>_. Map.empty),
     ct_timers = [], ct_loops = []\<rparr>"

definition SetServiceNaming :: "'c container \<Rightarrow> 'c container" where
  "SetServiceNaming c = c\<lparr>ct_named := True\<rparr>"

definition ct_SetDialer :: "'c dialer \<Rightarrow> 'c container \<Rightarrow> 'c container" where
  "ct_SetDialer d c = c\<lparr>ct_dialer := Some d\<rparr>"

definition SetSelector :: "(string \<Rightarrow> string list \<Rightarrow> string go) \<Rightarrow> 'c container \<Rightarrow> 'c container" where
  "SetSelector s c = c\<lparr>ct_selector := s\<rparr>"

section \<open>Life cycle\<close>

definition add_deps :: "string list \<Rightarrow> string list \<Rightarrow> string list" where
  "add_deps ds have = foldl (\<lambda>h d. if d \<in> set h then h else h @ [d]) have ds"

text \<open>The log line after the dependencies calls a method of \<open>srv\<close>, so a nil server panics there.\<close>

definition Init :: "service option \<Rightarrow> string list \<Rightarrow> 'c container \<Rightarrow> unit go \<times> 'c container" where
  "Init srv ds c =
     (if ct_state c \<noteq> stateUninitialized then (Fail (ErrMsg ''has Initialized''), c)
      else
        let c1 = c\<lparr>ct_state := stateInitialized, Srv := srv, deps := add_deps ds (deps c)\<rparr>
        in case srv of
             None \<Rightarrow> (Panics ''nil server'', c1)
           | Some _ \<Rightarrow> (Ret (), c1\<lparr>srvclients := (\<lambda>_. None)\<rparr>))"

datatype ct_action =
    A_ServerStart
  | A_Connect string
  | A_Register service
  | A_ServerShutdown
  | A_Deregister string

text \<open>
  \<open>Start\<close> up to the wait for a signal: the goroutines it starts and the registration, whose error is
  only logged.  \<open>order\<close> is the iteration order of \<open>deps\<close>.
\<close>

definition Start :: "(string list \<Rightarrow> string list) \<Rightarrow> 'c container \<Rightarrow> unit go \<times> 'c container \<times> ct_action list" where
  "Start order c =
     (if \<not> ct_named c then (Fail (ErrMsg ''naming is nil''), c, [])
      else if ct_state c \<noteq> stateInitialized then (Fail (ErrMsg ''has started''), c, [])
      else
        let c1 = c\<lparr>ct_state := stateStarted\<rparr>
        in case Srv c1 of
             None \<Rightarrow> (Panics ''nil server'', c1, [])
           | Some srv \<Rightarrow>
               (Ret (), c1, A_ServerStart # map A_Connect (order (deps c1))
                  @ (if PublicAddress srv \<noteq> '''' \<and> PublicPort srv \<noteq> 0 then [A_Register srv] else [])))"

text \<open>
  \<open>down\<close> is the error of the server's \<open>Shutdown\<close>, on which \<open>log.Fatal\<close> ends the process, \<open>dereg\<close>
  what the naming answers to \<open>Deregister\<close>.
\<close>

definition shutdown ::
    "(string list \<Rightarrow> string list) \<Rightarrow> error option \<Rightarrow> (string \<Rightarrow> error option) \<Rightarrow> 'c container
       \<Rightarrow> unit go \<times> 'c container \<times> ct_action list" where
  "shutdown order down dereg c =
     (if ct_state c \<noteq> stateStarted then (Fail (ErrMsg ''has closed''), c, [])
      else
        let c1 = c\<lparr>ct_state := stateClosed\<rparr>
        in case Srv c1 of
             None \<Rightarrow> (Panics ''nil server'', c1, [])
           | Some srv \<Rightarrow>
               (case down of
                  Some e \<Rightarrow> (Panics ''log.Fatal'', c1, [A_ServerShutdown])
                | None \<Rightarrow>
                    (case dereg (ServiceID srv) of
                       Some e \<Rightarrow> (Fail e, c1, [A_ServerShutdown, A_Deregister (ServiceID srv)])
                     | None \<Rightarrow> (Ret (), c1, A_ServerShutdown # A_Deregister (ServiceID srv)
                                  # map A_Deregister (order (deps c1))))))"

text \<open>Calls in any order by whatever code of the process; \<open>life_run\<close> lists those that got past their
  compare-and-swap.\<close>

datatype life_call =
    CallInit "service option" "string list"
  | CallStart
  | CallShutdown "error option" "string \<Rightarrow> error option"

fun life_step :: "(string list \<Rightarrow> string list) \<Rightarrow> life_call \<Rightarrow> 'c container \<Rightarrow> 'c container" where
  "life_step order (CallInit srv ds) c = snd (Init srv ds c)"
| "life_step order CallStart c = fst (snd (Start order c))"
| "life_step order (CallShutdown d r) c = fst (snd (shutdown order d r c))"

fun life_states :: "(string list \<Rightarrow> string list) \<Rightarrow> life_call list \<Rightarrow> 'c container \<Rightarrow> cstate list" where
  "life_states order [] c = [ct_state c]"
| "life_states order (x # xs) c = ct_state c # life_states order xs (life_step order x c)"

fun next_state :: "life_call \<Rightarrow> cstate" where
  "next_state (CallInit _ _) = stateInitialized"
| "next_state CallStart = stateStarted"
| "next_state (CallShutdown _ _) = stateClosed"

lemma life_step_state:
  "ct_state (life_step order x c) = ct_state c
     \<or> (ct_state (life_step order x c) = next_state x \<and> cs_rank (next_state x) = Suc (cs_rank (ct_state c)))"
  by (cases x; cases "ct_state c") (auto simp: Init_def Start_def shutdown_def Let_def split: option.splits)

lemma life_states_hd: "life_states order xs c = ct_state c # tl (life_states order xs c)"
  by (cases xs) simp_all

text \<open>Whatever order \<open>Init\<close>, \<open>Start\<close> and the shutdown are called in, the container's state never goes
  back and never skips: the states the calls see are sorted and each is at most one above the one
  before, so each transition happens at most once and in the order of the constants.\<close>

lemma lifecycle_monotone:
  "sorted (life_states order calls c)
   \<and> successively (\<lambda>s t. cs_rank t \<le> Suc (cs_rank s)) (life_states order calls c)"
proof (induction calls arbitrary: c)
  case (Cons x xs)
  let ?c = "life_step order x c"
  have step: "ct_state c \<le> ct_state ?c" "cs_rank (ct_state ?c) \<le> Suc (cs_rank (ct_state c))"
    using life_step_state [of order x c] by (auto simp: less_eq_cstate_def)
  obtain ss where ss: "life_states order xs ?c = ct_state ?c # ss" using life_states_hd by blast
  have "sorted (life_states order xs ?c)"
    and "successively (\<lambda>s t. cs_rank t \<le> Suc (cs_rank s)) (life_states order xs ?c)"
    using Cons.IH by blast+
  then show ?case using step ss by (auto intro: order_trans)
qed simp

text \<open>A shutdown that returns without an error has stopped the server, taken it out of the registry
  and then asked the registry to deregister the bare name of every dependency; it has unsubscribed
  from none of them, and calling it again does nothing.\<close>

lemma shutdown_actions:
  assumes "shutdown order down dereg c = (Ret (), c', acts)" and "is_order order"
  shows "\<exists>srv. Srv c = Some srv \<and> acts = A_ServerShutdown # A_Deregister (ServiceID srv) # drop 2 acts
      \<and> mset (drop 2 acts) = mset (map A_Deregister (deps c))
      \<and> shutdown order down dereg c' = (Fail (ErrMsg ''has closed''), c', [])"
  using assms
  by (auto simp: shutdown_def Let_def is_order_def split: if_splits option.splits)

definition demo_gate :: service where
  "demo_gate = NewEntry ''gate01'' ''tgateway'' ''tcp'' ''10.0.0.1'' 8000"

definition demo_started :: "nat container" where
  "demo_started = Default\<lparr>ct_state := stateStarted, Srv := Some demo_gate, deps := [''login'', ''chat'']\<rparr>"

lemma shutdown_actions_example:
  "snd (snd (shutdown rev None (\<lambda>_. None) demo_started)) =
     [A_ServerShutdown, A_Deregister ''gate01'', A_Deregister ''chat'', A_Deregister ''login'']"
  using shutdown_actions [of rev None "\<lambda>_. None" demo_started "demo_started\<lparr>ct_state := stateClosed\<rparr>"
      "[A_ServerShutdown, A_Deregister ''gate01'', A_Deregister ''chat'', A_Deregister ''login'']"]
  by (simp add: shutdown_def demo_started_def demo_gate_def NewEntry_def ServiceID_def)

end
