(* ===== verification/Forward.thy ===== *)
theory Forward
  imports Container
begin

text \<open>
  The second half of \<open>container/container.go\<close>: the connections to the services a container depends on
  (\<open>connectToService\<close>, \<open>buildClient\<close>, the end of a read loop) and the routing of a packet over them
  (\<open>lookup\<close>, \<open>ForwardWithSelector\<close>, \<open>Forward\<close>).  \<open>u\<close> stands for \<open>url.Parse\<close>, \<open>ops\<close> for the operations
  of the network connection, \<open>\<pi>\<close> for the iteration order of a client registry.
\<close>

section \<open>Building a client\<close>

definition clients_of :: "string \<Rightarrow> 'c container \<Rightarrow> 'c clients" where
  "clients_of name ct = (case srvclients ct name of None \<Rightarrow> NewClients | Some m \<Rightarrow> m)"

definition set_clients :: "string \<Rightarrow> 'c clients \<Rightarrow> 'c container \<Rightarrow> 'c container" where
  "set_clients name m ct = ct\<lparr>srvclients := (srvclients ct)(name \<mapsto> m)\<rparr>"

definition service_options :: client_options where
  "service_options = \<lparr>Heartbeat = minute, ReadWait = minute * 3, WriteWait = second * 10\<rparr>"

text \<open>The result \<open>Ret None\<close> is the \<open>nil, nil\<close> for a client that is already there.\<close>

definition buildClient ::
    "'p pkt_lib \<Rightarrow> (string \<Rightarrow> error option) \<Rightarrow> string \<Rightarrow> service \<Rightarrow> 'c container
       \<Rightarrow> 'c client option go \<times> 'c container" where
  "buildClient L u name service ct =
     (let clients = clients_of name ct
      in if cl_Get (ServiceID service) clients \<noteq> None then (Ret None, ct)
         else if GetProtocol service \<noteq> w_ProtocolTCP L
         then (Fail (ErrMsg (''unexpected service Protocol: '' @ GetProtocol service)), ct)
         else
           let cli = tcp_NewClientWithProps (ServiceID service) (ServiceName service) (GetMeta service) service_options
           in case ct_dialer ct of
                None \<Rightarrow> (Fail (ErrMsg ''dialer is nil''), ct)
              | Some d \<Rightarrow>
                  (case tcp_Connect u (DialURL service) (SetDialer d cli) of
                     (Fail e, _) \<Rightarrow> (Fail e, ct)
                   | (Panics m, _) \<Rightarrow> (Panics m, ct)
                   | (Ret _, cli1) \<Rightarrow>
                       (Ret (Some cli1),
                        set_clients name (cl_Add cli1 clients)
                          (ct\<lparr>ct_loops := ct_loops ct @ [(name, ServiceID service)]\<rparr>))))"

text \<open>
  What the goroutine of a client does when its read loop has ended: the identifier leaves the registry,
  then the client is closed.
\<close>

definition loop_ended ::
    "'c conn_ops \<Rightarrow> string \<Rightarrow> 'c client \<Rightarrow> 'c container \<Rightarrow> (unit go \<times> 'c client) \<times> 'c container" where
  "loop_ended ops name cli ct =
     (client_Close ops cli,
      set_clients name (cl_Remove (c_id cli) (clients_of name ct))
        (ct\<lparr>ct_loops := removeAll (name, c_id cli) (ct_loops ct)\<rparr>))"

section \<open>Watching a service\<close>

text \<open>
  The body of the callback for one entry: a nil entry is dereferenced, a known identifier skipped;
  otherwise the entry's own metadata is marked young, a goroutine is started that will mark it adult,
  and a client is built, whose error is only logged.
\<close>

definition mark :: "service \<Rightarrow> string \<Rightarrow> 'c container \<Rightarrow> unit go \<times> 'c container" where
  "mark service v ct =
     (let (r, ms) = meta_set (ct_metas ct) (GetMeta service) KeyServiceState v in (r, ct\<lparr>ct_metas := ms\<rparr>))"

definition ignore_error :: "'a go \<times> 's \<Rightarrow> unit go \<times> 's" where
  "ignore_error r = (case r of (Panics m, s) \<Rightarrow> (Panics m, s) | (_, s) \<Rightarrow> (Ret (), s))"

definition watch_one ::
    "'p pkt_lib \<Rightarrow> (string \<Rightarrow> error option) \<Rightarrow> string \<Rightarrow> service option \<Rightarrow> 'c container \<Rightarrow> unit go \<times> 'c container" where
  "watch_one L u name entry ct =
     (case entry of
        None \<Rightarrow> (Panics ''nil service'', ct)
      | Some service \<Rightarrow>
          if cl_Get (ServiceID service) (clients_of name ct) \<noteq> None then (Ret (), ct)
          else go_bind (mark service StateYoung ct) (\<lambda>_ ct1.
            let ct2 = ct1\<lparr>ct_timers := ct_timers ct1 @ (case GetMeta service of None \<Rightarrow> [] | Some a \<Rightarrow> [a])\<rparr>
            in ignore_error (buildClient L u name service ct2)))"

fun watch_callback ::
    "'p pkt_lib \<Rightarrow> (string \<Rightarrow> error option) \<Rightarrow> string \<Rightarrow> service option list \<Rightarrow> 'c container \<Rightarrow> unit go \<times> 'c container" where
  "watch_callback L u name [] ct = (Ret (), ct)"
| "watch_callback L u name (x # xs) ct =
     go_bind (watch_one L u name x ct) (\<lambda>_ ct1. watch_callback L u name xs ct1)"

text \<open>The ten seconds of one of the sleeping goroutines are over.\<close>

definition timer_fired :: "nat \<Rightarrow> 'c container \<Rightarrow> 'c container" where
  "timer_fired a ct =
     (if a \<in> set (ct_timers ct)
      then ct\<lparr>ct_timers := remove1 a (ct_timers ct),
              ct_metas := (ct_metas ct)(a := (ct_metas ct a)(KeyServiceState \<mapsto> StateAdult))\<rparr>
      else ct)"

text \<open>The services that were already there, from \<open>Find\<close>; they are marked adult at once.\<close>

fun connect_found ::
    "'p pkt_lib \<Rightarrow> (string \<Rightarrow> error option) \<Rightarrow> string \<Rightarrow> service option list \<Rightarrow> 'c container \<Rightarrow> unit go \<times> 'c container" where
  "connect_found L u name [] ct = (Ret (), ct)"
| "connect_found L u name (None # xs) ct = (Panics ''nil service'', ct)"
| "connect_found L u name (Some service # xs) ct =
     go_bind (mark service StateAdult ct) (\<lambda>_ ct1.
       go_bind (ignore_error (buildClient L u name service ct1)) (\<lambda>_ ct2. connect_found L u name xs ct2))"

text \<open>
  \<open>connectToService\<close> with a naming whose \<open>Subscribe\<close> has called the callback with the lists \<open>updates\<close>
  and then returned \<open>sub\<close>, and whose \<open>Find\<close> answers \<open>found\<close>.
\<close>

fun watch_updates ::
    "'p pkt_lib \<Rightarrow> (string \<Rightarrow> error option) \<Rightarrow> string \<Rightarrow> service option list list \<Rightarrow> 'c container \<Rightarrow> unit go \<times> 'c container" where
  "watch_updates L u name [] ct = (Ret (), ct)"
| "watch_updates L u name (l # ls) ct =
     go_bind (watch_callback L u name l ct) (\<lambda>_ ct1. watch_updates L u name ls ct1)"

definition connectToService ::
    "'p pkt_lib \<Rightarrow> (string \<Rightarrow> error option) \<Rightarrow> string \<Rightarrow> service option list list \<Rightarrow> error option
       \<Rightarrow> error + service option list \<Rightarrow> 'c container \<Rightarrow> unit go \<times> 'c container" where
  "connectToService L u name updates sub found ct =
     go_bind (watch_updates L u name updates (set_clients name NewClients ct)) (\<lambda>_ ct1.
       case sub of
         Some e \<Rightarrow> (Fail e, ct1)
       | None \<Rightarrow> (case found of Inl e \<Rightarrow> (Fail e, ct1) | Inr services \<Rightarrow> connect_found L u name services ct1))"

section \<open>Routing\<close>

definition lookup ::
    "('c clients \<Rightarrow> 'c clients) \<Rightarrow> string \<Rightarrow> string \<Rightarrow> (string \<Rightarrow> string list \<Rightarrow> string go)
       \<Rightarrow> 'c container \<Rightarrow> 'c client go" where
  "lookup \<pi> serviceName channel sel ct =
     (case srvclients ct serviceName of
        None \<Rightarrow> Fail (ErrMsg (''service '' @ serviceName @ '' not found''))
      | Some clients \<Rightarrow>
          let srvs = Servicies \<pi> [KeyServiceState, StateAdult] (ct_metas ct) clients
          in if length srvs = 0 then Fail (ErrMsg (''no services found for '' @ serviceName))
             else case sel channel (map c_id srvs) of
                    Panics m \<Rightarrow> Panics m
                  | Fail e \<Rightarrow> Fail e
                  | Ret i \<Rightarrow> (case cl_Get i clients of
                                Some cli \<Rightarrow> Ret cli
                              | None \<Rightarrow> Fail (ErrMsg ''no client found'')))"

text \<open>The client is shared with the registry, so what \<open>Send\<close> does to it shows there.\<close>

definition ForwardWithSelector ::
    "'p pkt_lib \<Rightarrow> 'c conn_ops \<Rightarrow> ('c clients \<Rightarrow> 'c clients) \<Rightarrow> string \<Rightarrow> 'p
       \<Rightarrow> (string \<Rightarrow> string list \<Rightarrow> string go) \<Rightarrow> 'c container \<Rightarrow> unit go \<times> 'c container" where
  "ForwardWithSelector L ops \<pi> serviceName packet sel ct =
     (case lookup \<pi> serviceName (p_channel L packet) sel ct of
        Fail e \<Rightarrow> (Fail e, ct)
      | Panics m \<Rightarrow> (Panics m, ct)
      | Ret cli \<Rightarrow>
          (case Srv ct of
             None \<Rightarrow> (Panics ''nil server'', ct)
           | Some srv \<Rightarrow>
               let packet1 = p_add_meta L (w_MetaDestServer L) (ServiceID srv) packet;
                   (r, cli1) = tcp_Send ops (p_marshal L packet1) cli
               in (r, set_clients serviceName (cl_Add cli1 (clients_of serviceName ct)) ct)))"

definition Forward ::
    "'p pkt_lib \<Rightarrow> 'c conn_ops \<Rightarrow> ('c clients \<Rightarrow> 'c clients) \<Rightarrow> string \<Rightarrow> 'p option \<Rightarrow> 'c container
       \<Rightarrow> unit go \<times> 'c container" where
  "Forward L ops \<pi> serviceName packet ct =
     (case packet of
        None \<Rightarrow> (Fail (ErrMsg ''packet is nil''), ct)
      | Some p \<Rightarrow>
          if p_command L p = '''' then (Fail (ErrMsg ''command is empty in packet''), ct)
          else if p_channel L p = '''' then (Fail (ErrMsg ''ChannelId is empty in packet''), ct)
          else ForwardWithSelector L ops \<pi> serviceName p (ct_selector ct) ct)"

section \<open>The registries stay sound\<close>

text \<open>Every registered client is filed under its identifier and holds an open connection; the dialer,
  the selector and the server are what the container needs.\<close>

definition client_up :: "'c client \<Rightarrow> bool" where
  "client_up c \<longleftrightarrow> c_state c = 1 \<and> c_conn c \<noteq> None"

definition clients_up :: "'c clients \<Rightarrow> bool" where
  "clients_up m \<longleftrightarrow> keyed c_id m \<and> (\<forall>i c. cl_Get i m = Some c \<longrightarrow> client_up c)"

definition ct_ok :: "'c container \<Rightarrow> bool" where
  "ct_ok ct \<longleftrightarrow> (\<forall>name m. srvclients ct name = Some m \<longrightarrow> clients_up m)
     \<and> (\<forall>d. ct_dialer ct = Some d \<longrightarrow> good_dialer d)
     \<and> selector (ct_selector ct) \<and> Srv ct \<noteq> None"

lemma clients_up_New [simp]: "clients_up NewClients"
  by (simp add: clients_up_def NewClients_def cl_Get_eq sm_Load_def)

lemma clients_up_Add: "clients_up m \<Longrightarrow> client_up c \<Longrightarrow> clients_up (cl_Add c m)"
  by (auto simp: clients_up_def cl.inv_add cl.get_add split: if_splits)

lemma clients_up_Remove: "clients_up m \<Longrightarrow> clients_up (cl_Remove i m)"
  by (auto simp: clients_up_def cl.inv_remove cl.get_remove split: if_splits)

lemma clients_of_up: "ct_ok ct \<Longrightarrow> clients_up (clients_of name ct)"
  by (auto simp: ct_ok_def clients_of_def split: option.splits)

lemma clients_of_set [simp]:
  "clients_of n (set_clients name m ct) = (if n = name then m else clients_of n ct)"
  by (simp add: clients_of_def set_clients_def)

lemma set_clients_fields [simp]:
  "Srv (set_clients name m ct) = Srv ct" "ct_state (set_clients name m ct) = ct_state ct"
  "ct_selector (set_clients name m ct) = ct_selector ct" "ct_dialer (set_clients name m ct) = ct_dialer ct"
  "ct_metas (set_clients name m ct) = ct_metas ct" "ct_timers (set_clients name m ct) = ct_timers ct"
  "srvclients (set_clients name m ct) = (srvclients ct)(name \<mapsto> m)"
  by (simp_all add: set_clients_def)

lemma ct_ok_set: "ct_ok ct \<Longrightarrow> clients_up m \<Longrightarrow> ct_ok (set_clients name m ct)"
  by (simp add: ct_ok_def)

lemma ct_ok_updates [simp]:
  "ct_ok (ct\<lparr>ct_loops := l\<rparr>) = ct_ok ct" "ct_ok (ct\<lparr>ct_timers := t\<rparr>) = ct_ok ct"
  "ct_ok (ct\<lparr>ct_metas := ms\<rparr>) = ct_ok ct"
  by (simp_all add: ct_ok_def)

lemma clients_of_updates [simp]:
  "clients_of n (ct\<lparr>ct_loops := l\<rparr>) = clients_of n ct" "clients_of n (ct\<lparr>ct_timers := t\<rparr>) = clients_of n ct"
  "clients_of n (ct\<lparr>ct_metas := ms\<rparr>) = clients_of n ct"
  by (simp_all add: clients_of_def)

text \<open>A new client that connects is up; a good dialer never panics.\<close>

lemma connect_new:
  assumes "good_dialer d"
  shows "\<not> is_panic (fst (tcp_Connect u a (SetDialer d (tcp_NewClientWithProps i n m os))))"
    and "tcp_Connect u a (SetDialer d (tcp_NewClientWithProps i n m os)) = (Ret r, c)
      \<Longrightarrow> client_up c \<and> c_id c = i \<and> c_meta c = m"
proof -
  show "\<not> is_panic (fst (tcp_Connect u a (SetDialer d (tcp_NewClientWithProps i n m os))))"
    using connect_common_inv [OF connected_inv_new(1) [OF assms]] by (simp add: tcp_Connect_def)
  show "tcp_Connect u a (SetDialer d (tcp_NewClientWithProps i n m os)) = (Ret r, c)
      \<Longrightarrow> client_up c \<and> c_id c = i \<and> c_meta c = m"
    by (auto simp: tcp_Connect_def connect_begin_def connect_end_def SetDialer_def client_up_def
        tcp_NewClientWithProps_def split: option.splits go.splits)
qed

lemma send_up:
  assumes "ops_safe ops" "client_up c"
  shows "\<not> is_panic (fst (tcp_Send ops p c))" "client_up (snd (tcp_Send ops p c))"
    "c_id (snd (tcp_Send ops p c)) = c_id c" "c_meta (snd (tcp_Send ops p c)) = c_meta c"
proof -
  obtain k where k: "c_state c = 1" "c_conn c = Some k" using assms(2) by (auto simp: client_up_def)
  obtain e k1 where d: "op_write_deadline ops (WriteWait (c_options c)) k = (e, k1)" by fastforce
  obtain r k2 where w: "op_write ops k1 OpBinary p = (r, k2)" by fastforce
  note no = ops_safeD [OF assms(1)]
  show "\<not> is_panic (fst (tcp_Send ops p c))" "client_up (snd (tcp_Send ops p c))"
    "c_id (snd (tcp_Send ops p c)) = c_id c" "c_meta (snd (tcp_Send ops p c)) = c_meta c"
    using k d w no by (cases e; cases r; auto simp: tcp_Send_def deadline_then_write_def client_up_def)+
qed

lemma buildClient_cases:
  assumes "ct_ok ct"
  obtains (failed) e where "buildClient L u name service ct = (Fail e, ct)"
  | (known) "buildClient L u name service ct = (Ret None, ct)"
      "cl_Get (ServiceID service) (clients_of name ct) \<noteq> None"
  | (built) c where "buildClient L u name service ct =
        (Ret (Some c), set_clients name (cl_Add c (clients_of name ct))
           (ct\<lparr>ct_loops := ct_loops ct @ [(name, ServiceID service)]\<rparr>))"
      "client_up c" "c_id c = ServiceID service" "c_meta c = GetMeta service"
      "cl_Get (ServiceID service) (clients_of name ct) = None"
proof -
  let ?con = "\<lambda>d. tcp_Connect u (DialURL service) (SetDialer d
    (tcp_NewClientWithProps (ServiceID service) (ServiceName service) (GetMeta service) service_options))"
  consider (k) "cl_Get (ServiceID service) (clients_of name ct) \<noteq> None"
    | (p) "GetProtocol service \<noteq> w_ProtocolTCP L" "cl_Get (ServiceID service) (clients_of name ct) = None"
    | (n) "ct_dialer ct = None" "GetProtocol service = w_ProtocolTCP L"
        "cl_Get (ServiceID service) (clients_of name ct) = None"
    | (d) d where "ct_dialer ct = Some d" "GetProtocol service = w_ProtocolTCP L"
        "cl_Get (ServiceID service) (clients_of name ct) = None"
    by (cases "ct_dialer ct") auto
  then show thesis
  proof cases
    case k
    then show thesis by (intro known) (auto simp: buildClient_def Let_def)
  next
    case p
    then show thesis by (intro failed) (simp add: buildClient_def Let_def)
  next
    case n
    then show thesis by (intro failed) (simp add: buildClient_def Let_def)
  next
    case d
    have good: "good_dialer d" using assms d(1) by (simp add: ct_ok_def)
    obtain r c where con: "?con d = (r, c)" by fastforce
    show thesis
    proof (cases r)
      case (Ret x)
      with con connect_new(2) [OF good] have "client_up c" "c_id c = ServiceID service" "c_meta c = GetMeta service"
        by blast+
      with d con Ret show thesis by (intro built [of c]) (simp_all add: buildClient_def Let_def)
    next
      case (Fail e)
      with d con show thesis by (intro failed [of e]) (simp add: buildClient_def Let_def)
    next
      case (Panics m)
      with connect_new(1) [OF good] con show thesis by (metis fst_conv is_panic.simps(1))
    qed
  qed
qed

lemma buildClient_ok:
  assumes "ct_ok ct"
  shows "ct_ok (snd (buildClient L u name service ct))"
    and "\<not> is_panic (fst (buildClient L u name service ct))"
  by (rule buildClient_cases [OF assms, of L u name service];
      use assms clients_of_up [OF assms] in \<open>simp add: ct_ok_set clients_up_Add\<close>)+

text \<open>An entry is harmless for the callback when it is not nil and has a metadata map.\<close>

definition usable :: "service option \<Rightarrow> bool" where
  "usable e \<longleftrightarrow> (\<exists>s a. e = Some s \<and> sv_Meta s = Some a)"

lemma ignore_error_simps [simp]:
  "snd (ignore_error r) = snd r" "is_panic (fst (ignore_error r)) = is_panic (fst r)"
  "fst (ignore_error r) \<noteq> Fail e"
  by (auto simp: ignore_error_def split: prod.splits go.splits)

lemma mark_ok: "ct_ok (snd (mark s v ct)) = ct_ok ct"
  by (auto simp: mark_def split: prod.splits)

lemma go_bind_ok:
  assumes "P (snd m)" "\<And>x s. P s \<Longrightarrow> P (snd (f x s))"
  shows "P (snd (go_bind m f))"
  using assms by (cases m; cases "fst m") auto

lemma watch_one_ok:
  assumes "ct_ok ct"
  shows "ct_ok (snd (watch_one L u name e ct))"
proof (cases e)
  case (Some s)
  have "ct_ok (snd (go_bind (mark s StateYoung ct) (\<lambda>_ ct1. ignore_error (buildClient L u name s
      (ct1\<lparr>ct_timers := ct_timers ct1 @ (case GetMeta s of None \<Rightarrow> [] | Some a \<Rightarrow> [a])\<rparr>)))))"
    using assms by (intro go_bind_ok [where P = ct_ok]) (simp_all add: mark_ok buildClient_ok)
  then show ?thesis using Some assms by (simp add: watch_one_def Let_def)
qed (use assms in \<open>simp add: watch_one_def\<close>)

lemma watch_callback_ok: "ct_ok ct \<Longrightarrow> ct_ok (snd (watch_callback L u name es ct))"
proof (induction es arbitrary: ct)
  case (Cons e es)
  then show ?case
    unfolding watch_callback.simps by (intro go_bind_ok [where P = ct_ok] watch_one_ok)
qed simp

lemma watch_updates_ok: "ct_ok ct \<Longrightarrow> ct_ok (snd (watch_updates L u name ls ct))"
proof (induction ls arbitrary: ct)
  case (Cons l ls)
  then show ?case
    unfolding watch_updates.simps by (intro go_bind_ok [where P = ct_ok] watch_callback_ok)
qed simp

lemma connect_found_ok: "ct_ok ct \<Longrightarrow> ct_ok (snd (connect_found L u name es ct))"
proof (induction es arbitrary: ct)
  case (Cons e es)
  show ?case
  proof (cases e)
    case (Some s)
    show ?thesis unfolding Some connect_found.simps
      by (intro go_bind_ok [where P = ct_ok]) (simp_all add: mark_ok Cons buildClient_ok)
  qed (simp add: Cons)
qed simp

lemma connectToService_ok: "ct_ok ct \<Longrightarrow> ct_ok (snd (connectToService L u name ups sub found ct))"
  unfolding connectToService_def
  by (rule go_bind_ok [where P = ct_ok])
     (auto intro!: watch_updates_ok connect_found_ok ct_ok_set split: option.splits sum.splits)

lemma timer_fired_ok: "ct_ok ct \<Longrightarrow> ct_ok (timer_fired a ct)"
  by (simp add: timer_fired_def ct_ok_def)

lemma loop_ended_ok: "ct_ok ct \<Longrightarrow> ct_ok (snd (loop_ended ops name cli ct))"
  by (simp add: loop_ended_def ct_ok_set clients_up_Remove clients_of_up)

lemma lookup_Ret:
  assumes "selector sel" "is_order \<pi>" "ct_ok ct" "lookup \<pi> name ch sel ct = Ret cli"
  shows "cl_Get (c_id cli) (clients_of name ct) = Some cli \<and> client_up cli
    \<and> meta_get (ct_metas ct) (c_meta cli) KeyServiceState = StateAdult"
proof -
  from assms(4) obtain m where m: "srvclients ct name = Some m"
    by (auto simp: lookup_def split: option.splits)
  then have up: "clients_up m" and k: "keyed c_id m" using assms(3) by (auto simp: ct_ok_def clients_up_def)
  let ?srvs = "Servicies \<pi> [KeyServiceState, StateAdult] (ct_metas ct) m"
  from assms(4) m obtain i where ne: "map c_id ?srvs \<noteq> []" and i: "sel ch (map c_id ?srvs) = Ret i"
    and g: "cl_Get i m = Some cli"
    by (auto simp: lookup_def Let_def split: if_splits go.splits option.splits)
  have "i \<in> set (map c_id ?srvs)" by (rule selector.chosen_member [OF assms(1) ne i])
  then obtain c where "c \<in> set ?srvs" "i = c_id c" by auto
  with Servicies_set [OF assms(2) k] g have "c = cli" "meta_get (ct_metas ct) (c_meta cli) KeyServiceState = StateAdult"
    by auto
  with g \<open>i = c_id c\<close> up m show ?thesis by (auto simp: clients_of_def clients_up_def)
qed

lemma Forward_ok:
  assumes "ct_ok ct" "is_order \<pi>" "ops_safe ops"
  shows "ct_ok (snd (Forward L ops \<pi> name packet ct))"
proof -
  have sel: "selector (ct_selector ct)" using assms(1) by (simp add: ct_ok_def)
  have "ct_ok (set_clients name (cl_Add (snd (tcp_Send ops q cli)) (clients_of name ct)) ct)"
    if "lookup \<pi> name ch (ct_selector ct) ct = Ret cli" for ch cli q
    using lookup_Ret [OF sel assms(2,1) that] assms
    by (auto intro!: ct_ok_set clients_up_Add clients_of_up send_up)
  then show ?thesis using assms(1)
    by (auto simp: Forward_def ForwardWithSelector_def Let_def split_beta split: option.splits go.splits)
qed

section \<open>Properties\<close>

text \<open>The adult clients of a service.\<close>

definition adults :: "string \<Rightarrow> 'c container \<Rightarrow> 'c client set" where
  "adults name ct = {c. cl_Get (c_id c) (clients_of name ct) = Some c
     \<and> meta_get (ct_metas ct) (c_meta c) KeyServiceState = StateAdult}"

lemma Servicies_adults:
  assumes "ct_ok ct" "is_order \<pi>"
  shows "set (Servicies \<pi> [KeyServiceState, StateAdult] (ct_metas ct) (clients_of name ct)) = adults name ct"
  unfolding adults_def by (rule Servicies_set) (use assms clients_of_up [of ct name] in \<open>auto simp: clients_up_def\<close>)

lemma lookup_adults:
  assumes "selector sel" "is_order \<pi>" "ct_ok ct"
  shows "adults name ct = {} \<Longrightarrow> \<exists>e. lookup \<pi> name ch sel ct = Fail e"
    and "adults name ct \<noteq> {} \<Longrightarrow> \<exists>cli \<in> adults name ct. lookup \<pi> name ch sel ct = Ret cli"
proof -
  let ?srvs = "Servicies \<pi> [KeyServiceState, StateAdult] (ct_metas ct) (clients_of name ct)"
  have srvs: "set ?srvs = adults name ct" by (rule Servicies_adults [OF assms(3,2)])
  have none: "srvclients ct name = None \<Longrightarrow> adults name ct = {}"
    by (simp add: adults_def clients_of_def cl.get_empty)
  have some: "srvclients ct name = Some m \<Longrightarrow> clients_of name ct = m" for m by (simp add: clients_of_def)
  show "adults name ct = {} \<Longrightarrow> \<exists>e. lookup \<pi> name ch sel ct = Fail e"
    using srvs some by (cases "srvclients ct name") (auto simp: lookup_def)
  assume ne: "adults name ct \<noteq> {}"
  with none obtain m where m: "srvclients ct name = Some m" by blast
  have "map c_id ?srvs \<noteq> []" using ne srvs by auto
  then obtain i where i: "i \<in> set (map c_id ?srvs)" "sel ch (map c_id ?srvs) = Ret i"
    using selector.chooses [OF assms(1)] by blast
  then obtain cli where "cli \<in> set ?srvs" "c_id cli = i" by auto
  with srvs have cli: "cli \<in> adults name ct" "cl_Get i (clients_of name ct) = Some cli"
    by (auto simp: adults_def)
  then have "lookup \<pi> name ch sel ct = Ret cli"
    using m i(2) srvs some [OF m] ne by (auto simp: lookup_def Let_def)
  with cli(1) show "\<exists>cli \<in> adults name ct. lookup \<pi> name ch sel ct = Ret cli" by blast
qed

definition forwardable :: "'p pkt_lib \<Rightarrow> 'p option \<Rightarrow> bool" where
  "forwardable L packet \<longleftrightarrow> (\<exists>p. packet = Some p \<and> p_command L p \<noteq> '''' \<and> p_channel L p \<noteq> '''')"

lemma Forward_refuses:
  assumes "ct_ok ct" "is_order \<pi>" "\<not> (forwardable L packet \<and> adults name ct \<noteq> {})"
  shows "\<exists>e. Forward L ops \<pi> name packet ct = (Fail e, ct)"
proof (cases "forwardable L packet")
  case True
  then obtain p where p: "packet = Some p" "p_command L p \<noteq> ''''" "p_channel L p \<noteq> ''''"
    by (auto simp: forwardable_def)
  have "selector (ct_selector ct)" using assms(1) by (simp add: ct_ok_def)
  from lookup_adults(1) [OF this assms(2,1), of name "p_channel L p"] True assms(3)
  obtain e where "lookup \<pi> name (p_channel L p) (ct_selector ct) ct = Fail e" by blast
  with p show ?thesis by (simp add: Forward_def ForwardWithSelector_def)
next
  case False
  then show ?thesis by (cases packet) (auto simp: Forward_def forwardable_def)
qed

lemma Forward_sends:
  assumes "ct_ok ct" "is_order \<pi>" "Srv ct = Some srv" "forwardable L packet" "adults name ct \<noteq> {}"
  shows "\<exists>cli \<in> adults name ct.
    let sent = tcp_Send ops (p_marshal L (p_add_meta L (w_MetaDestServer L) (ServiceID srv) (the packet))) cli
    in Forward L ops \<pi> name packet ct = (fst sent, set_clients name (cl_Add (snd sent) (clients_of name ct)) ct)"
proof -
  have sel: "selector (ct_selector ct)" using assms(1) by (simp add: ct_ok_def)
  obtain p where p: "packet = Some p" "p_command L p \<noteq> ''''" "p_channel L p \<noteq> ''''"
    using assms(4) by (auto simp: forwardable_def)
  obtain cli where "cli \<in> adults name ct" "lookup \<pi> name (p_channel L p) (ct_selector ct) ct = Ret cli"
    using lookup_adults(2) [OF sel assms(2,1,5)] by blast
  then show ?thesis using p assms(3)
    by (intro bexI [of _ cli]) (simp_all add: Forward_def ForwardWithSelector_def Let_def split_beta)
qed

text \<open>C23: In a sound container, with any selector that picks one of its candidates, a packet with a command
  and a channel is sent, with the server's identifier added, on exactly one client, which is an adult
  one of that service, and nothing else changes; when the service has no adult client, or the packet
  is nil or lacks its command or channel, an error comes back and nothing changes.\<close>

theorem forward_outcome:
  assumes "ct_ok ct" and "is_order \<pi>" and "Srv ct = Some srv"
  shows "(forwardable L packet \<and> adults name ct \<noteq> {} \<longrightarrow>
      (\<exists>cli \<in> adults name ct.
        let sent = tcp_Send ops (p_marshal L (p_add_meta L (w_MetaDestServer L) (ServiceID srv) (the packet))) cli
        in Forward L ops \<pi> name packet ct = (fst sent, set_clients name (cl_Add (snd sent) (clients_of name ct)) ct)))
    \<and> (\<not> (forwardable L packet \<and> adults name ct \<noteq> {}) \<longrightarrow> (\<exists>e. Forward L ops \<pi> name packet ct = (Fail e, ct)))"
  using Forward_sends [OF assms] Forward_refuses [OF assms(1,2)] by blast

text \<open>A gateway with one young and one adult instance of the service chat.\<close>

definition demo_conn :: tcp_conn where
  "demo_conn = \<lparr>rd = \<lparr>avail = [], rerr = ErrEOF\<rparr>, wr = buffer\<rparr>"

definition demo_client :: "string \<Rightarrow> nat \<Rightarrow> tcp_conn client" where
  "demo_client i a = (tcp_NewClientWithProps i ''chat'' (Some a) service_options)\<lparr>c_conn := Some demo_conn, c_state := 1\<rparr>"

definition demo_ct :: "tcp_conn container" where
  "demo_ct = set_clients ''chat'' [(''c1'', demo_client ''c1'' 0), (''c2'', demo_client ''c2'' 1)]
     (Default\<lparr>Srv := Some demo_gate, ct_state := stateStarted,
        ct_metas := (\<lambda>_. Map.empty)(0 := [KeyServiceState \<mapsto> StateAdult], 1 := [KeyServiceState \<mapsto> StateYoung])\<rparr>)"

lemma demo_client_up: "client_up (demo_client i a)" "c_id (demo_client i a) = i" "c_meta (demo_client i a) = Some a"
  by (simp_all add: demo_client_def client_up_def tcp_NewClientWithProps_def)

lemma demo_ct_ok: "ct_ok demo_ct"
proof -
  have "clients_up [(''c1'', demo_client ''c1'' 0), (''c2'', demo_client ''c2'' 1)]"
    by (auto simp: clients_up_def keyed_def cl_Get_eq sm_Load_def demo_client_up split: if_splits)
  then show ?thesis
    by (simp add: ct_ok_def demo_ct_def Default_def hs.selector_axioms)
qed

lemma demo_ct_adults: "adults ''chat'' demo_ct = {demo_client ''c1'' 0}"
  by (auto simp: adults_def demo_ct_def cl_Get_eq sm_Load_def meta_get_def demo_client_up StateAdult_def
      StateYoung_def split: if_splits)

definition demo_up :: demo_pkt where
  "demo_up = \<lparr>d_command = ''chat.user.talk'', d_channel = ''ch1'', d_metas = []\<rparr>"

theorem forward_outcome_witness:
  "Forward demo_lib tcp_ops rev ''chat'' (Some demo_up) demo_ct =
     (let sent = tcp_Send tcp_ops (demo_enc (demo_up\<lparr>d_metas := [(''dest.server'', ''gate01'')]\<rparr>)) (demo_client ''c1'' 0)
      in (fst sent, set_clients ''chat'' (cl_Add (snd sent) (clients_of ''chat'' demo_ct)) demo_ct))"
proof -
  have srv: "Srv demo_ct = Some demo_gate" by (simp add: demo_ct_def)
  show ?thesis
    using forward_outcome [OF demo_ct_ok is_order_rev srv, of demo_lib "Some demo_up" "''chat''" tcp_ops]
    by (simp add: demo_ct_adults demo_up_def demo_lib_def demo_gate_def NewEntry_def ServiceID_def Let_def forwardable_def)
qed

text \<open>What happens to a container while its process runs.\<close>

datatype 'p ct_event =
    EvConnect string "service option list list" "error option" "error + service option list"
  | EvUpdate string "service option list"
  | EvTimer nat
  | EvLoopEnd string string
  | EvForward string "'p option"

fun ct_do ::
    "'p pkt_lib \<Rightarrow> (string \<Rightarrow> error option) \<Rightarrow> 'c conn_ops \<Rightarrow> ('c clients \<Rightarrow> 'c clients)
       \<Rightarrow> 'p ct_event \<Rightarrow> 'c container \<Rightarrow> 'c container" where
  "ct_do L u ops \<pi> (EvConnect name ups sub found) ct = snd (connectToService L u name ups sub found ct)"
| "ct_do L u ops \<pi> (EvUpdate name es) ct = snd (watch_callback L u name es ct)"
| "ct_do L u ops \<pi> (EvTimer a) ct = timer_fired a ct"
| "ct_do L u ops \<pi> (EvLoopEnd name i) ct =
     (case cl_Get i (clients_of name ct) of None \<Rightarrow> ct | Some cli \<Rightarrow> snd (loop_ended ops name cli ct))"
| "ct_do L u ops \<pi> (EvForward name p) ct = snd (Forward L ops \<pi> name p ct)"

definition ct_run ::
    "'p pkt_lib \<Rightarrow> (string \<Rightarrow> error option) \<Rightarrow> 'c conn_ops \<Rightarrow> ('c clients \<Rightarrow> 'c clients)
       \<Rightarrow> 'p ct_event list \<Rightarrow> 'c container \<Rightarrow> 'c container" where
  "ct_run L u ops \<pi> evs ct = fold (ct_do L u ops \<pi>) evs ct"

lemma ct_do_ok: "ct_ok ct \<Longrightarrow> is_order \<pi> \<Longrightarrow> ops_safe ops \<Longrightarrow> ct_ok (ct_do L u ops \<pi> ev ct)"
  by (cases ev) (auto simp: connectToService_ok watch_callback_ok timer_fired_ok loop_ended_ok Forward_ok
      split: option.splits)

lemma ct_run_ok: "is_order \<pi> \<Longrightarrow> ops_safe ops \<Longrightarrow> ct_ok ct \<Longrightarrow> ct_ok (ct_run L u ops \<pi> evs ct)"
  unfolding ct_run_def by (induction evs arbitrary: ct) (simp_all add: ct_do_ok)

lemma adults_up: "ct_ok ct \<Longrightarrow> c \<in> adults name ct \<Longrightarrow> client_up c"
  using clients_of_up [of ct name] by (auto simp: adults_def clients_up_def)

text \<open>C34: Whatever services come, go, are watched or time out, and whatever was forwarded before, a
  container that started with a server, a selector that picks candidates and a dialer that returns a
  connection or an error keeps only open connections in its registries, each under its own
  identifier, and \<open>Forward\<close> never panics in it.\<close>

theorem forward_never_panics:
  assumes "is_order \<pi>" and "ops_safe ops" and "good_dialer d" and "selector sel"
    and "ct = ct_run L u ops \<pi> evs
      (ct_SetDialer d (SetSelector sel (snd (Init (Some srv) ds (SetServiceNaming Default)))))"
  shows "(\<forall>name i c. cl_Get i (clients_of name ct) = Some c \<longrightarrow> c_id c = i \<and> c_conn c \<noteq> None)
    \<and> \<not> is_panic (fst (Forward L ops \<pi> name packet ct))"
proof -
  have ok: "ct_ok ct"
    unfolding assms(5) using assms(3,4)
    by (intro ct_run_ok assms(1,2))
       (simp add: ct_ok_def ct_SetDialer_def SetSelector_def Init_def SetServiceNaming_def Default_def)
  then obtain srv' where srv: "Srv ct = Some srv'" by (auto simp: ct_ok_def)
  have send: "\<not> is_panic (fst (tcp_Send ops q c))" if "c \<in> adults name ct" for q c
    using send_up(1) [OF assms(2) adults_up [OF ok that]] .
  have "\<not> is_panic (fst (Forward L ops \<pi> name packet ct))"
  proof (cases "forwardable L packet \<and> adults name ct \<noteq> {}")
    case True
    then obtain cli where cli: "cli \<in> adults name ct" and "fst (Forward L ops \<pi> name packet ct) = fst (tcp_Send ops
        (p_marshal L (p_add_meta L (w_MetaDestServer L) (ServiceID srv') (the packet))) cli)"
      using Forward_sends [OF ok assms(1) srv, of L packet name ops] by (metis fst_conv)
    then show ?thesis using send [OF cli] by simp
  next
    case False
    then show ?thesis using Forward_refuses [OF ok assms(1)] by (metis fst_conv is_panic.simps(3))
  qed
  moreover have "clients_up (clients_of name ct)" for name using clients_of_up [OF ok] .
  ultimately show ?thesis by (auto simp: clients_up_def client_up_def dest: cl.get_vid)
qed

definition demo_start :: "tcp_conn container" where
  "demo_start = ct_SetDialer demo_dialer (SetSelector HashSelector_Lookup
     (snd (Init (Some demo_gate) [''chat''] (SetServiceNaming Default))))"

theorem forward_never_panics_witness:
  "\<not> is_panic (fst (Forward demo_lib tcp_ops rev ''chat'' (Some demo_up)
     (ct_run demo_lib (\<lambda>_. None) tcp_ops rev
       [EvConnect ''chat'' [] None (Inr [Some (demo_service\<lparr>sv_Meta := Some 0\<rparr>)]), EvTimer 0] demo_start)))"
  using forward_never_panics [OF is_order_rev tcp_ops_safe demo_dialer_good hs.selector_axioms refl,
      of demo_lib "\<lambda>_. None" "[EvConnect ''chat'' [] None (Inr [Some (demo_service\<lparr>sv_Meta := Some 0\<rparr>)]), EvTimer 0]"
        demo_gate "[''chat'']" "''chat''" "Some demo_up"]
  by (simp only: demo_start_def) simp

section \<open>Young and adult instances\<close>

text \<open>The dial of a service succeeds.\<close>

definition dials :: "'p pkt_lib \<Rightarrow> (string \<Rightarrow> error option) \<Rightarrow> service \<Rightarrow> 'c container \<Rightarrow> bool" where
  "dials L u s ct \<longleftrightarrow> sv_Protocol s = w_ProtocolTCP L \<and> u (DialURL s) = None
     \<and> (\<exists>d k. ct_dialer ct = Some d \<and> d \<lparr>dc_Id = sv_Id s, dc_Name = sv_Name s, dc_Address = DialURL s,
          dc_Timeout = DefaultLoginWait\<rparr> = Ret (Some k))"

lemma buildClient_dials:
  assumes "dials L u s ct" "ct_ok ct" "cl_Get (sv_Id s) (clients_of name ct) = None"
  shows "\<exists>c. snd (buildClient L u name s ct) = set_clients name (cl_Add c (clients_of name ct))
      (ct\<lparr>ct_loops := ct_loops ct @ [(name, sv_Id s)]\<rparr>) \<and> client_up c \<and> c_id c = sv_Id s \<and> c_meta c = sv_Meta s"
proof (rule buildClient_cases [OF assms(2), of L u name s])
  fix e assume f: "buildClient L u name s ct = (Fail e, ct)"
  obtain d k where d: "ct_dialer ct = Some d" "d \<lparr>dc_Id = sv_Id s, dc_Name = sv_Name s, dc_Address = DialURL s,
          dc_Timeout = DefaultLoginWait\<rparr> = Ret (Some k)" using assms(1) by (auto simp: dials_def)
  then have "\<exists>c. buildClient L u name s ct = (Ret (Some c), snd (buildClient L u name s ct))"
    using assms(1,3)
    by (simp add: buildClient_def dials_def go_defs Let_def SetDialer_def tcp_NewClientWithProps_def
        dial_context_def)
  with f show ?thesis by simp
qed (use assms in \<open>auto simp: go_defs\<close>)

text \<open>A new instance the watch reports is connected at once but stays out of the candidates of
  \<open>lookup\<close> until its own timer has fired; from then on it is one of them, and the other candidates
  never change.\<close>

lemma young_until_timer:
  assumes "ct_ok ct" and "dials L u s ct"
    and "cl_Get (sv_Id s) (clients_of name ct) = None" and "sv_Meta s = Some a"
    and "\<forall>i c. cl_Get i (clients_of name ct) = Some c \<longrightarrow> c_meta c \<noteq> Some a"
    and "ct1 = snd (watch_one L u name (Some s) ct)"
  shows "\<exists>cli. cl_Get (sv_Id s) (clients_of name ct1) = Some cli \<and> client_up cli
    \<and> adults name ct1 = adults name ct \<and> cli \<notin> adults name ct1
    \<and> adults name (timer_fired a ct1) = insert cli (adults name ct)"
proof -
  let ?young = "ct\<lparr>ct_metas := (ct_metas ct)(a := (ct_metas ct a)(KeyServiceState \<mapsto> StateYoung)),
    ct_timers := ct_timers ct @ [a]\<rparr>"
  have young: "ct_ok ?young" "dials L u s ?young" "clients_of name ?young = clients_of name ct"
    using assms(1,2) by (simp_all add: dials_def ct_ok_def clients_of_def)
  obtain c where b: "snd (buildClient L u name s ?young) = set_clients name (cl_Add c (clients_of name ct))
      (?young\<lparr>ct_loops := ct_loops ct @ [(name, sv_Id s)]\<rparr>)"
    and c: "client_up c" "c_id c = sv_Id s" "c_meta c = Some a"
    using buildClient_dials [OF young(2,1), of name] assms(3,4) young(3) by auto
  have ct1: "ct1 = set_clients name (cl_Add c (clients_of name ct)) (?young\<lparr>ct_loops := ct_loops ct @ [(name, sv_Id s)]\<rparr>)"
    using b assms(3,4,6) by (simp add: watch_one_def mark_def meta_set_def go_defs)
  have k: "keyed c_id (clients_of name ct)" using clients_of_up [OF assms(1)] by (simp add: clients_up_def)
  have get: "cl_Get i (clients_of name ct1) = (if i = sv_Id s then Some c else cl_Get i (clients_of name ct))" for i
    using c(2) by (simp add: ct1 cl.get_add [OF k])
  have sel: "StateYoung \<noteq> StateAdult" by (simp add: StateYoung_def StateAdult_def)
  have metas: "ct_metas ct1 = (ct_metas ct)(a := (ct_metas ct a)(KeyServiceState \<mapsto> StateYoung))"
    by (simp add: ct1)
  have adult1: "x \<in> adults name ct1 \<longleftrightarrow> x \<in> adults name ct" for x
    using assms(3,5) sel c by (auto simp: adults_def get metas meta_get_set split: if_splits)
  have adult2: "x \<in> adults name (timer_fired a ct1) \<longleftrightarrow> x = c \<or> x \<in> adults name ct" for x
  proof -
    have "clients_of name (timer_fired a ct1) = clients_of name ct1"
      by (simp add: timer_fired_def clients_of_def)
    moreover have "ct_metas (timer_fired a ct1) = (ct_metas ct1)(a := (ct_metas ct1 a)(KeyServiceState \<mapsto> StateAdult))"
      by (simp add: timer_fired_def ct1)
    ultimately show ?thesis
      using assms(3,5) c by (auto simp: adults_def get metas meta_get_set split: if_splits)
  qed
  have "c \<notin> adults name ct" using assms(3) c(2) by (simp add: adults_def)
  then show ?thesis using get [of "sv_Id s"] c(1) adult1 adult2 by (intro exI [of _ c]) auto
qed

lemma young_until_timer_example:
  "let ct1 = snd (watch_one demo_lib (\<lambda>_. None) ''login'' (Some (demo_service\<lparr>sv_Meta := Some 0\<rparr>)) demo_start)
   in adults ''login'' ct1 = {} \<and> adults ''login'' (timer_fired 0 ct1) \<noteq> {}"
proof -
  let ?s = "demo_service\<lparr>sv_Meta := Some 0\<rparr>"
  have empty: "cl_Get i (clients_of ''login'' demo_start) = None" for i
    by (simp add: clients_of_def demo_start_def ct_SetDialer_def SetSelector_def Init_def SetServiceNaming_def
        Default_def cl.get_empty)
  then have none: "adults ''login'' demo_start = {}" by (simp add: adults_def)
  have ok: "ct_ok demo_start"
    by (simp add: ct_ok_def demo_start_def ct_SetDialer_def SetSelector_def Init_def SetServiceNaming_def
        Default_def demo_dialer_good hs.selector_axioms)
  have d: "dials demo_lib (\<lambda>_. None) ?s demo_start"
    by (simp add: dials_def demo_service_def NewEntry_def demo_lib_def demo_start_def ct_SetDialer_def demo_dialer_def)
  show ?thesis
    using young_until_timer [OF ok d, of "''login''" 0] empty none by (auto simp: Let_def)
qed

section \<open>Routing depends on the iteration order\<close>

lemma Servicies_any_order:
  assumes "mset l = mset (filter P m)"
  shows "\<exists>\<pi>. is_order \<pi> \<and> filter P (\<pi> m) = l"
proof -
  let ?m = "l @ filter (\<lambda>x. \<not> P x) m"
  have "mset ?m = mset m" using assms by (simp add: mset_filter multiset_partition [symmetric])
  then have "is_order (\<lambda>xs. if xs = m then ?m else xs)" by (simp add: is_order_def)
  moreover have "filter P ?m = l"
    using mset_eq_setD [OF assms] by (auto simp: filter_id_conv)
  ultimately show ?thesis by (intro exI [of _ "\<lambda>xs. if xs = m then ?m else xs"]) simp
qed

text \<open>The hash selector does not bind a channel to an instance: for every channel and every adult
  instance of a service there is an iteration order of the registry under which \<open>lookup\<close> sends
  that channel to that instance.\<close>

lemma route_any_instance:
  assumes "ct_ok ct" and "cli \<in> adults name ct"
  shows "\<exists>\<pi>. is_order \<pi> \<and> lookup \<pi> name channel HashSelector_Lookup ct = Ret cli"
proof -
  obtain m where m: "srvclients ct name = Some m"
    using assms(2) by (cases "srvclients ct name") (auto simp: adults_def clients_of_def cl.get_empty)
  then have of: "clients_of name ct = m" by (simp add: clients_of_def)
  let ?P = "\<lambda>c. meta_get (ct_metas ct) (c_meta c) KeyServiceState = StateAdult"
  have srvs: "Servicies \<pi> [KeyServiceState, StateAdult] (ct_metas ct) m = map snd (filter (?P \<circ> snd) (\<pi> m))" for \<pi>
    by (simp add: Servicies_def sm_Range_def filter_map)
  have get: "cl_Get (c_id cli) m = Some cli" and P: "?P cli" using assms(2) of by (auto simp: adults_def)
  then have "(c_id cli, cli) \<in> set (filter (?P \<circ> snd) m)"
    by (auto simp: cl_Get_eq sm_Load_def dest: map_of_SomeD)
  from HashSelector_any [OF this, of channel "\<lambda>e. c_id (snd e)"]
  obtain l where l: "mset l = mset (filter (?P \<circ> snd) m)"
    "HashSelector_Lookup channel (map (\<lambda>e. c_id (snd e)) l) = Ret (c_id cli)" by auto
  obtain \<pi> where "is_order \<pi>" "filter (?P \<circ> snd) (\<pi> m) = l" using Servicies_any_order [OF l(1)] by blast
  moreover have "l \<noteq> []" using l(2) by (auto simp: HashSelector_Lookup_def)
  ultimately show ?thesis using l(2) get m
    by (intro exI [of _ \<pi>]) (simp add: lookup_def srvs comp_def)
qed

definition demo_two :: "tcp_conn container" where
  "demo_two = set_clients ''chat'' [(''c1'', demo_client ''c1'' 0), (''c2'', demo_client ''c2'' 0)]
     (Default\<lparr>Srv := Some demo_gate, ct_metas := (\<lambda>_. [KeyServiceState \<mapsto> StateAdult])\<rparr>)"

lemma route_any_instance_example:
  "(\<exists>\<pi>. is_order \<pi> \<and> lookup \<pi> ''chat'' ''ch1'' HashSelector_Lookup demo_two = Ret (demo_client ''c1'' 0))
   \<and> (\<exists>\<pi>. is_order \<pi> \<and> lookup \<pi> ''chat'' ''ch1'' HashSelector_Lookup demo_two = Ret (demo_client ''c2'' 0))"
proof -
  have "clients_up [(''c1'', demo_client ''c1'' 0), (''c2'', demo_client ''c2'' 0)]"
    by (auto simp: clients_up_def keyed_def cl_Get_eq sm_Load_def demo_client_up split: if_splits)
  then have ok: "ct_ok demo_two" by (simp add: ct_ok_def demo_two_def Default_def hs.selector_axioms)
  have "demo_client ''c1'' 0 \<in> adults ''chat'' demo_two" "demo_client ''c2'' 0 \<in> adults ''chat'' demo_two"
    by (simp_all add: adults_def demo_two_def cl_Get_eq sm_Load_def meta_get_def demo_client_up)
  then show ?thesis using route_any_instance [OF ok] by blast
qed

section \<open>Instances that do not pass their health check\<close>

lemma go_bind_no_fail:
  "(\<And>e. fst m \<noteq> Fail e) \<Longrightarrow> is_panic (fst (go_bind m f)) \<longleftrightarrow>
     is_panic (fst m) \<or> (\<exists>x. fst m = Ret x \<and> is_panic (fst (f x (snd m))))"
  by (cases m; cases "fst m") auto

lemma watch_one_no_fail: "fst (watch_one L u name e ct) \<noteq> Fail err"
proof (cases e)
  case (Some s)
  obtain r ct1 where m: "mark s StateYoung ct = (r, ct1)" by fastforce
  then have "r \<noteq> Fail x" for x by (auto simp: mark_def meta_set_def split: option.splits)
  with Some m show ?thesis by (cases r) (auto simp: watch_one_def Let_def)
qed (simp add: watch_one_def)

lemma watch_one_panic:
  assumes "ct_ok ct"
  shows "e = None \<Longrightarrow> is_panic (fst (watch_one L u name e ct))"
    and "usable e \<Longrightarrow> \<not> is_panic (fst (watch_one L u name e ct))"
proof -
  show "e = None \<Longrightarrow> is_panic (fst (watch_one L u name e ct))" by (simp add: watch_one_def)
  assume "usable e"
  then obtain s a where s: "e = Some s" "sv_Meta s = Some a" by (auto simp: usable_def)
  then show "\<not> is_panic (fst (watch_one L u name e ct))"
    using assms by (simp add: watch_one_def mark_def meta_set_def GetMeta_def buildClient_ok(2))
qed

lemma watch_callback_panic:
  "ct_ok ct \<Longrightarrow> \<forall>e \<in> set es. e = None \<or> usable e
     \<Longrightarrow> is_panic (fst (watch_callback L u name es ct)) \<longleftrightarrow> None \<in> set es"
proof (induction es arbitrary: ct)
  case (Cons e es)
  have ok: "ct_ok (snd (watch_one L u name e ct))" by (rule watch_one_ok [OF Cons.prems(1)])
  have IH: "is_panic (fst (watch_callback L u name es (snd (watch_one L u name e ct)))) \<longleftrightarrow> None \<in> set es"
    using Cons.IH [OF ok] Cons.prems(2) by simp
  show ?case
  proof (cases e)
    case None
    then show ?thesis by (simp add: watch_one_def)
  next
    case (Some s)
    then have "\<not> is_panic (fst (watch_one L u name e ct))"
      using Cons.prems(2) by (intro watch_one_panic(2) Cons.prems(1)) auto
    moreover from this have "fst (watch_one L u name e ct) = Ret ()"
      by (cases "fst (watch_one L u name e ct)") (auto simp: watch_one_no_fail)
    ultimately show ?thesis
      using IH Some by (simp add: go_bind_no_fail watch_one_no_fail)
  qed
qed simp

text \<open>When the catalog answers a poll with metadata for each instance, the callback of a watching
  container panics exactly when some instance is not passing its health check: one failing instance
  of a service brings down every process that depends on it.\<close>

lemma failing_instance_panics:
  assumes "ct_ok ct" and "load ms (Inr (cat, ix)) = Inr (services, ix')"
    and "\<forall>c \<in> set cat. cs_ServiceMeta c \<noteq> None"
  shows "is_panic (fst (watch_callback L u name services ct)) \<longleftrightarrow> (\<exists>c \<in> set cat. cs_Status c \<noteq> HealthPassing)"
proof -
  have services: "services = map (load_entry ms) cat" using assms(2) by (simp add: load_def)
  then have "\<forall>e \<in> set services. e = None \<or> usable e"
    using assms(3) by (auto simp: usable_def load_entry_def)
  from watch_callback_panic [OF assms(1) this, of L u name] show ?thesis
    by (auto simp: services load_entry_def image_iff)
qed

lemma failing_instance_panics_example:
  "is_panic (fst (watch_callback demo_lib (\<lambda>_. None) ''tgateway''
     [load_entry (\<lambda>_. Map.empty) (demo_entry ''passing''), load_entry (\<lambda>_. Map.empty) (demo_entry ''critical'')] demo_ct))"
proof -
  have "load (\<lambda>_. Map.empty) (Inr ([demo_entry ''passing'', demo_entry ''critical''], 7)) =
     Inr ([load_entry (\<lambda>_. Map.empty) (demo_entry ''passing''), load_entry (\<lambda>_. Map.empty) (demo_entry ''critical'')], 7)"
    by (simp add: load_def)
  from failing_instance_panics [OF demo_ct_ok this] show ?thesis
    by (simp add: demo_entry_def HealthPassing_def)
qed

end
