(* ===== verification/Addresses.thy ===== *)
theory Addresses
  imports Forward
begin

text \<open>
  What the dial URL of a TCP service (\<open>naming/default.go\<close>) means to the client that has to dial it
  (\<open>tcp/client.go\<close>), through the container's connections (\<open>container/container.go\<close>).
\<close>

section \<open>url.Parse\<close>

text \<open>
  The documented rule of \<open>net/url\<close> that matters for \<open>host:port\<close>: a text that does not begin with a
  letter has no scheme, and then its first path segment must not contain a colon.
\<close>

definition first_segment :: "string \<Rightarrow> string" where
  "first_segment s = takeWhile (\<lambda>c. c \<noteq> CHR ''/'' \<and> c \<noteq> CHR ''?'' \<and> c \<noteq> CHR ''#'') s"

definition colon_law :: "(string \<Rightarrow> error option) \<Rightarrow> bool" where
  "colon_law url_parse \<longleftrightarrow>
     (\<forall>s. s \<noteq> '''' \<and> is_digit_char (hd s) \<and> CHR '':'' \<in> set (first_segment s) \<longrightarrow> url_parse s \<noteq> None)"

text \<open>An instance that announces a numeric address, such as an IPv4 one, for TCP.\<close>

definition numeric_host :: "string \<Rightarrow> bool" where
  "numeric_host a \<longleftrightarrow> a \<noteq> '''' \<and> is_digit_char (hd a) \<and> (\<forall>c \<in> set a. is_digit_char c \<or> c = CHR ''.'')"

definition numeric_instance :: "service option \<Rightarrow> bool" where
  "numeric_instance entry \<longleftrightarrow> (\<exists>s. entry = Some s \<and> GetProtocol s = ''tcp'' \<and> numeric_host (sv_Address s))"

lemma numeric_url_rejected:
  assumes "colon_law u" "GetProtocol s = ''tcp''" "numeric_host (sv_Address s)"
  shows "u (DialURL s) \<noteq> None"
proof -
  have url: "DialURL s = (sv_Address s @ '':'') @ show_int (sv_Port s)"
    using assms(2) by (simp add: DialURL_def GetProtocol_def)
  have plain: "\<forall>c \<in> set (sv_Address s @ '':''). c \<noteq> CHR ''/'' \<and> c \<noteq> CHR ''?'' \<and> c \<noteq> CHR ''#''"
    using assms(3) by (auto simp: numeric_host_def is_digit_char_def)
  have "first_segment (DialURL s) = (sv_Address s @ '':'') @ first_segment (show_int (sv_Port s))"
    unfolding first_segment_def url using plain by (intro takeWhile_append2) blast
  then have "CHR '':'' \<in> set (first_segment (DialURL s))" by simp
  moreover have "DialURL s \<noteq> ''''" "is_digit_char (hd (DialURL s))"
    using assms(3) by (simp_all add: url numeric_host_def)
  ultimately show ?thesis using assms(1) by (simp add: colon_law_def)
qed

section \<open>The registry of a service with numeric addresses\<close>

lemma buildClient_rejected:
  assumes "colon_law u" "numeric_instance (Some s)"
  shows "snd (buildClient L u name s ct) = ct"
proof -
  have "u (DialURL s) \<noteq> None" using numeric_url_rejected [OF assms(1)] assms(2) by (auto simp: numeric_instance_def)
  then show ?thesis
    by (auto simp: buildClient_def tcp_Connect_def connect_begin_def Let_def split: option.splits)
qed

lemma ignore_error_snd [simp]: "snd (ignore_error r) = snd r"
  by (cases r; cases "fst r") (simp_all add: ignore_error_def)

lemma mark_clients [simp]: "clients_of n (snd (mark s v ct)) = clients_of n ct"
  by (simp add: mark_def clients_of_def split: prod.splits)

lemma go_bind_keeps:
  "P (snd m) \<Longrightarrow> (\<And>x s. P s \<Longrightarrow> P (snd (f x s))) \<Longrightarrow> P (snd (go_bind m f))"
  by (cases "(m, f)" rule: go_bind.cases) auto

lemma watch_one_rejected:
  assumes "colon_law u" "numeric_instance x"
  shows "clients_of n (snd (watch_one L u name x ct)) = clients_of n ct"
proof -
  obtain s where s: "x = Some s" using assms(2) by (auto simp: numeric_instance_def)
  show ?thesis
    by (auto simp: s watch_one_def Let_def buildClient_rejected [OF assms(1) assms(2) [unfolded s]]
        intro!: go_bind_keeps [where P = "\<lambda>c. clients_of n c = clients_of n ct"])
qed

lemma watch_callback_rejected:
  assumes "colon_law u" "\<forall>x \<in> set xs. numeric_instance x"
  shows "clients_of n (snd (watch_callback L u name xs ct)) = clients_of n ct"
  using assms(2)
proof (induction xs arbitrary: ct)
  case (Cons x xs)
  then show ?case using watch_one_rejected [OF assms(1), of x n L name ct]
    by (auto intro: go_bind_keeps [where P = "\<lambda>c. clients_of n c = clients_of n ct"])
qed simp

lemma watch_updates_rejected:
  assumes "colon_law u" "\<forall>x \<in> set (concat ls). numeric_instance x"
  shows "clients_of n (snd (watch_updates L u name ls ct)) = clients_of n ct"
  using assms(2)
proof (induction ls arbitrary: ct)
  case (Cons l ls)
  then show ?case using watch_callback_rejected [OF assms(1), of l n L name ct]
    by (auto intro: go_bind_keeps [where P = "\<lambda>c. clients_of n c = clients_of n ct"])
qed simp

lemma connect_found_rejected:
  assumes "colon_law u" "\<forall>x \<in> set xs. numeric_instance x"
  shows "clients_of n (snd (connect_found L u name xs ct)) = clients_of n ct"
  using assms(2)
proof (induction xs arbitrary: ct)
  case (Cons x xs)
  then obtain s where s: "x = Some s" by (auto simp: numeric_instance_def)
  then have num: "numeric_instance (Some s)" using Cons.prems by simp
  show ?case using Cons
    by (auto simp: s buildClient_rejected [OF assms(1) num] intro!: go_bind_keeps [where P = "\<lambda>c. clients_of n c = clients_of n ct"])
qed simp

text \<open>A service whose instances announce numeric addresses is never reached: whatever the catalog and the
  watch report of it, connecting to it leaves its registry empty, because the client parses the
  dial URL \<open>host:port\<close> as a URL and refuses it, and every \<open>Forward\<close> to it is an error.\<close>

lemma numeric_addresses_unreachable:
  assumes "colon_law u" and "\<forall>x \<in> set (concat updates @ found). numeric_instance x"
    and "ct' = snd (connectToService L u name updates sub (Inr found) ct)" and "is_order \<pi>"
  shows "clients_of name ct' = [] \<and> adults name ct' = {}
    \<and> (\<exists>e. Forward L ops \<pi> name packet ct' = (Fail e, ct'))"
proof -
  have upd: "\<forall>x \<in> set (concat updates). numeric_instance x" and fnd: "\<forall>x \<in> set found. numeric_instance x"
    using assms(2) by auto
  have "clients_of name (snd (watch_updates L u name updates (set_clients name NewClients ct))) = []"
    using watch_updates_rejected [OF assms(1) upd, of name L name "set_clients name NewClients ct"]
    by (simp add: NewClients_def)
  then have empty: "clients_of name ct' = []"
    unfolding assms(3) connectToService_def
    by (intro go_bind_keeps [where P = "\<lambda>c. clients_of name c = []"])
       (auto split: option.splits simp: connect_found_rejected [OF assms(1) fnd])
  then have ad: "adults name ct' = {}" by (simp add: adults_def cl_Get_eq sm_Load_def)
  have look: "\<exists>e. lookup \<pi> name ch sel ct' = Fail e" for ch sel
  proof (cases "srvclients ct' name")
    case (Some m)
    then have "m = []" using empty by (simp add: clients_of_def)
    then have "Servicies \<pi> [KeyServiceState, StateAdult] (ct_metas ct') m = []" using assms(4) by (simp add: Servicies_def sm_Range_def)
    with Some show ?thesis by (simp add: lookup_def)
  qed (simp add: lookup_def)
  have "\<exists>e. Forward L ops \<pi> name packet ct' = (Fail e, ct')"
  proof (cases packet)
    case (Some p)
    obtain e where "lookup \<pi> name (p_channel L p) (ct_selector ct') ct' = Fail e" using look by blast
    with Some show ?thesis by (simp add: Forward_def ForwardWithSelector_def)
  qed (simp add: Forward_def)
  with empty ad show ?thesis by blast
qed

definition go_url_parse :: "string \<Rightarrow> error option" where
  "go_url_parse s = (if s \<noteq> '''' \<and> is_digit_char (hd s) \<and> CHR '':'' \<in> set (first_segment s)
     then Some (ErrExt ''first path segment in URL cannot contain colon'') else None)"

lemma numeric_addresses_unreachable_example:
  "adults ''chat'' (snd (connectToService demo_lib go_url_parse ''chat'' []
      None (Inr [Some ((NewEntry ''chat02'' ''chat'' ''tcp'' ''10.0.0.2'' 8005)\<lparr>sv_Meta := Some 0\<rparr>)]) demo_ct)) = {}"
proof -
  have law: "colon_law go_url_parse" by (simp add: colon_law_def go_url_parse_def)
  have num: "numeric_instance (Some ((NewEntry ''chat02'' ''chat'' ''tcp'' ''10.0.0.2'' 8005)\<lparr>sv_Meta := Some 0\<rparr>))"
    by (simp add: numeric_instance_def NewEntry_def GetProtocol_def numeric_host_def is_digit_char_def)
  then have all: "\<forall>x \<in> set (concat [] @ [Some ((NewEntry ''chat02'' ''chat'' ''tcp'' ''10.0.0.2'' 8005)\<lparr>sv_Meta := Some 0\<rparr>)]). numeric_instance x"
    by simp
  from numeric_addresses_unreachable [OF law all refl is_order_rev, where name = "''chat''" and L = demo_lib and sub = None and ct = demo_ct]
  show ?thesis by simp
qed

end
