(* ===== verification/Storage.thy ===== *)
theory Storage
  imports Location Packet
begin

text \<open>
  \<open>storage/redis.go\<close>: sessions and locations in redis.  The redis client is outside the repository:
  its four commands are the record \<open>redis\<close>, a parameter, and \<open>proto.Marshal\<close> of a session the record
  \<open>session_codec\<close>.  The expiry of 48 hours is redis's affair; the laws below describe keys that have
  not expired.
\<close>

section \<open>Keys\<close>

definition KeySession :: "string \<Rightarrow> string" where
  "KeySession channel = ''login:sn:'' @ channel"

definition KeyLocation :: "string \<Rightarrow> string \<Rightarrow> string" where
  "KeyLocation account device =
     (if device = '''' then ''login:loc:'' @ account else ''login:loc:'' @ account @ '':'' @ device)"

definition KeyLocations :: "string list \<Rightarrow> string list" where
  "KeyLocations accounts = map (\<lambda>account. KeyLocation account '''') accounts"

lemma KeySession_inj [simp]: "KeySession c = KeySession d \<longleftrightarrow> c = d"
  by (simp add: KeySession_def)

lemma KeyLocation_inj [simp]: "KeyLocation a '''' = KeyLocation b '''' \<longleftrightarrow> a = b"
  by (simp add: KeyLocation_def)

lemma Key_disjoint [simp]: "KeySession c \<noteq> KeyLocation a d" "KeyLocation a d \<noteq> KeySession c"
  by (simp_all add: KeySession_def KeyLocation_def)

section \<open>The operations\<close>

record 'r redis =
  rd_Set :: "string \<Rightarrow> bytes \<Rightarrow> 'r \<Rightarrow> error option \<times> 'r"
  rd_Del :: "string \<Rightarrow> 'r \<Rightarrow> error option \<times> 'r"
  rd_Get :: "string \<Rightarrow> 'r \<Rightarrow> error + bytes"
  rd_MGet :: "string list \<Rightarrow> 'r \<Rightarrow> error + bytes option list"

record session_codec =
  sn_Marshal :: "session \<Rightarrow> bytes"
  sn_Unmarshal :: "bytes \<Rightarrow> session"

definition no_location :: location where "no_location = \<lparr>ChannelID = '''', GateId = ''''\<rparr>"

definition session_location :: "session \<Rightarrow> location" where
  "session_location s = \<lparr>ChannelID = s_ChannelId s, GateId = s_GateId s\<rparr>"

text \<open>The error of a command, if any, ends the operation.\<close>

definition redis_err :: "error option \<times> 'r \<Rightarrow> unit go \<times> 'r" where
  "redis_err x = (case x of (Some e, r) \<Rightarrow> (Fail e, r) | (None, r) \<Rightarrow> (Ret (), r))"

definition rs_Add :: "session_codec \<Rightarrow> 'r redis \<Rightarrow> session \<Rightarrow> 'r \<Rightarrow> unit go \<times> 'r" where
  "rs_Add C R session r =
     (let loc = \<lparr>ChannelID = s_ChannelId session, GateId = s_GateId session\<rparr>;
          localKey = KeyLocation (s_Account session) ''''
      in go_bind (redis_err (rd_Set R localKey (Location_Bytes (Some loc)) r)) (\<lambda>_ r1.
           redis_err (rd_Set R (KeySession (s_ChannelId session)) (sn_Marshal C session) r1)))"

definition rs_Delete :: "'r redis \<Rightarrow> string \<Rightarrow> string \<Rightarrow> 'r \<Rightarrow> unit go \<times> 'r" where
  "rs_Delete R account channelId r =
     go_bind (redis_err (rd_Del R (KeyLocation account '''') r)) (\<lambda>_ r1.
       redis_err (rd_Del R (KeySession channelId) r1))"

definition rs_Get :: "session_codec \<Rightarrow> 'r redis \<Rightarrow> string \<Rightarrow> 'r \<Rightarrow> session go" where
  "rs_Get C R channelId r =
     (case rd_Get R (KeySession channelId) r of
        Inl e \<Rightarrow> Fail (if e = ErrRedisNil then ErrSessionNil else e)
      | Inr bts \<Rightarrow> Ret (sn_Unmarshal C bts))"

definition rs_GetLocation :: "'r redis \<Rightarrow> string \<Rightarrow> string \<Rightarrow> 'r \<Rightarrow> location go" where
  "rs_GetLocation R account device r =
     (case rd_Get R (KeyLocation account device) r of
        Inl e \<Rightarrow> Fail (if e = ErrRedisNil then ErrSessionNil else e)
      | Inr bts \<Rightarrow> Ret (fst (Location_Unmarshal no_location bts)))"

definition rs_GetLocations :: "'r redis \<Rightarrow> string list \<Rightarrow> 'r \<Rightarrow> location list go" where
  "rs_GetLocations R accounts r =
     (case rd_MGet R (KeyLocations accounts) r of
        Inl e \<Rightarrow> Fail e
      | Inr list \<Rightarrow> Ret (concat (map (\<lambda>l. case l of None \<Rightarrow> [] | Some bts \<Rightarrow> [fst (Location_Unmarshal no_location bts)]) list)))"

section \<open>Documented behaviour of redis\<close>

definition redis_laws :: "'r redis \<Rightarrow> bool" where
  "redis_laws R \<longleftrightarrow>
     (\<forall>k v r r' j. rd_Set R k v r = (None, r') \<longrightarrow> rd_Get R j r' = (if j = k then Inr v else rd_Get R j r))
     \<and> (\<forall>k r r' j. rd_Del R k r = (None, r') \<longrightarrow> rd_Get R j r' = (if j = k then Inl ErrRedisNil else rd_Get R j r))
     \<and> (\<forall>ks r. list_all (\<lambda>k. rd_Get R k r = Inl ErrRedisNil \<or> (\<exists>v. rd_Get R k r = Inr v)) ks \<longrightarrow>
          rd_MGet R ks r = Inr (map (\<lambda>k. case rd_Get R k r of Inl _ \<Rightarrow> None | Inr v \<Rightarrow> Some v) ks))"

definition codec_laws :: "session_codec \<Rightarrow> bool" where
  "codec_laws C \<longleftrightarrow> (\<forall>s. sn_Unmarshal C (sn_Marshal C s) = s)"

text \<open>Identifiers a location can hold in its 16-bit lengths.\<close>

definition short_session :: "session \<Rightarrow> bool" where
  "short_session s \<longleftrightarrow> length (s_ChannelId s) < 65536 \<and> length (s_GateId s) < 65536"

section \<open>The contract of a session store\<close>

locale session_storage =
  fixes ok :: bool
    and add :: "session \<Rightarrow> 's \<Rightarrow> unit go \<times> 's"
    and del :: "string \<Rightarrow> string \<Rightarrow> 's \<Rightarrow> unit go \<times> 's"
    and get :: "string \<Rightarrow> 's \<Rightarrow> session go"
    and loc :: "string \<Rightarrow> 's \<Rightarrow> location go"
  assumes add_get: "ok \<Longrightarrow> short_session sn \<Longrightarrow> add sn st = (Ret (), st') \<Longrightarrow>
      get c st' = (if c = s_ChannelId sn then Ret sn else get c st)"
    and add_loc: "ok \<Longrightarrow> short_session sn \<Longrightarrow> add sn st = (Ret (), st') \<Longrightarrow>
      loc a st' = (if a = s_Account sn then Ret (session_location sn) else loc a st)"
    and del_get: "ok \<Longrightarrow> del b d st = (Ret (), st') \<Longrightarrow>
      get c st' = (if c = d then Fail ErrSessionNil else get c st)"
    and del_loc: "ok \<Longrightarrow> del b d st = (Ret (), st') \<Longrightarrow>
      loc a st' = (if a = b then Fail ErrSessionNil else loc a st)"

datatype store_op = Login session | Logout string string

fun store_run ::
    "(session \<Rightarrow> 's \<Rightarrow> unit go \<times> 's) \<Rightarrow> (string \<Rightarrow> string \<Rightarrow> 's \<Rightarrow> unit go \<times> 's) \<Rightarrow> store_op list \<Rightarrow> 's
       \<Rightarrow> unit go \<times> 's" where
  "store_run add del [] st = (Ret (), st)"
| "store_run add del (Login sn # ops) st = go_bind (add sn st) (\<lambda>_ st1. store_run add del ops st1)"
| "store_run add del (Logout a c # ops) st = go_bind (del a c st) (\<lambda>_ st1. store_run add del ops st1)"

text \<open>What a history leaves for an account and for a channel.\<close>

fun last_location :: "string \<Rightarrow> store_op list \<Rightarrow> location go \<Rightarrow> location go" where
  "last_location a [] acc = acc"
| "last_location a (Login sn # ops) acc =
     last_location a ops (if s_Account sn = a then Ret (session_location sn) else acc)"
| "last_location a (Logout b c # ops) acc = last_location a ops (if b = a then Fail ErrSessionNil else acc)"

fun last_session :: "string \<Rightarrow> store_op list \<Rightarrow> session go \<Rightarrow> session go" where
  "last_session c [] acc = acc"
| "last_session c (Login sn # ops) acc = last_session c ops (if s_ChannelId sn = c then Ret sn else acc)"
| "last_session c (Logout b d # ops) acc = last_session c ops (if d = c then Fail ErrSessionNil else acc)"

fun short_op :: "store_op \<Rightarrow> bool" where
  "short_op (Login sn) = short_session sn"
| "short_op (Logout _ _) = True"

context session_storage begin

lemma run_history:
  "ok \<Longrightarrow> \<forall>x \<in> set ops. short_op x \<Longrightarrow> store_run add del ops st = (Ret (), st') \<Longrightarrow>
     loc a st' = last_location a ops (loc a st) \<and> get c st' = last_session c ops (get c st)"
proof (induction ops arbitrary: st)
  case (Cons x ops)
  show ?case
  proof (cases x)
    case (Login sn)
    with Cons.prems obtain st1 where "add sn st = (Ret (), st1)" "store_run add del ops st1 = (Ret (), st')"
      by (auto simp: go_bind_Ret_iff)
    with Cons.IH [of st1] Cons.prems(1,2) Login show ?thesis
      by (auto simp: add_loc [of sn st] add_get [of sn st])
  next
    case (Logout b d)
    with Cons.prems obtain st1 where "del b d st = (Ret (), st1)" "store_run add del ops st1 = (Ret (), st')"
      by (auto simp: go_bind_Ret_iff)
    with Cons.IH [of st1] Cons.prems(1,2) Logout show ?thesis
      by (auto simp: del_loc [of b d st] del_get [of b d st])
  qed
qed simp

end

lemma redis_err_Ret: "redis_err x = (Ret (), r) \<longleftrightarrow> x = (None, r)"
  by (auto simp: redis_err_def split: prod.splits option.splits)

lemma Unmarshal_session:
  assumes "short_session sn"
  shows "fst (Location_Unmarshal no_location (Location_Bytes (Some (session_location sn)))) = session_location sn"
proof -
  have "Location_Unmarshal no_location (Location_Bytes (Some (session_location sn))) = (session_location sn, None)"
    using assms by (simp add: Unmarshal_None_iff session_location_def short_session_def no_location_def)
  then show ?thesis by (simp only: fst_conv)
qed

lemma rs_Add_Ret:
  assumes "redis_laws R" "rs_Add C R sn st = (Ret (), st')"
  shows "rd_Get R k st' = (if k = KeySession (s_ChannelId sn) then Inr (sn_Marshal C sn)
    else if k = KeyLocation (s_Account sn) '''' then Inr (Location_Bytes (Some (session_location sn))) else rd_Get R k st)"
proof -
  obtain st1 where "rd_Set R (KeyLocation (s_Account sn) '''') (Location_Bytes (Some (session_location sn))) st = (None, st1)"
    "rd_Set R (KeySession (s_ChannelId sn)) (sn_Marshal C sn) st1 = (None, st')"
    using assms(2) by (auto simp: rs_Add_def Let_def go_bind_Ret_iff redis_err_Ret session_location_def)
  with assms(1) show ?thesis by (simp add: redis_laws_def)
qed

lemma rs_Delete_Ret:
  assumes "redis_laws R" "rs_Delete R a c st = (Ret (), st')"
  shows "rd_Get R k st' = (if k = KeySession c \<or> k = KeyLocation a '''' then Inl ErrRedisNil else rd_Get R k st)"
proof -
  obtain st1 where "rd_Del R (KeyLocation a '''') st = (None, st1)" "rd_Del R (KeySession c) st1 = (None, st')"
    using assms(2) by (auto simp: rs_Delete_def go_bind_Ret_iff redis_err_Ret)
  with assms(1) show ?thesis by (simp add: redis_laws_def)
qed

interpretation rs: session_storage "redis_laws R \<and> codec_laws C" "rs_Add C R" "rs_Delete R" "rs_Get C R"
    "\<lambda>a r. rs_GetLocation R a '''' r"
  for R :: "'r redis" and C
proof
  fix sn :: session and st st' :: 'r and a c b d
  assume ok: "redis_laws R \<and> codec_laws C"
  then have R: "redis_laws R" and C: "codec_laws C" by simp_all
  show "rs_Add C R sn st = (Ret (), st') \<Longrightarrow> rs_Get C R c st' = (if c = s_ChannelId sn then Ret sn else rs_Get C R c st)"
    using rs_Add_Ret [OF R] C by (simp add: rs_Get_def codec_laws_def)
  show "short_session sn \<Longrightarrow> rs_Add C R sn st = (Ret (), st') \<Longrightarrow>
      rs_GetLocation R a '''' st' = (if a = s_Account sn then Ret (session_location sn) else rs_GetLocation R a '''' st)"
    using rs_Add_Ret [OF R] Unmarshal_session [of sn] by (simp add: rs_GetLocation_def)
  show "rs_Delete R b d st = (Ret (), st') \<Longrightarrow> rs_Get C R c st' = (if c = d then Fail ErrSessionNil else rs_Get C R c st)"
    using rs_Delete_Ret [OF R] by (simp add: rs_Get_def)
  show "rs_Delete R b d st = (Ret (), st') \<Longrightarrow>
      rs_GetLocation R a '''' st' = (if a = b then Fail ErrSessionNil else rs_GetLocation R a '''' st)"
    using rs_Delete_Ret [OF R] by (simp add: rs_GetLocation_def)
qed

section \<open>A small redis and a codec of sessions\<close>

definition demo_redis :: "(string \<Rightarrow> bytes option) redis" where
  "demo_redis = \<lparr>rd_Set = (\<lambda>k v r. (None, r(k \<mapsto> v))), rd_Del = (\<lambda>k r. (None, r(k := None))),
     rd_Get = (\<lambda>k r. case r k of None \<Rightarrow> Inl ErrRedisNil | Some v \<Rightarrow> Inr v),
     rd_MGet = (\<lambda>ks r. Inr (map r ks))\<rparr>"

lemma demo_redis_laws: "redis_laws demo_redis"
  by (auto simp: redis_laws_def demo_redis_def split: option.splits)

fun session_of :: "string list \<Rightarrow> session" where
  "session_of (c # g # a # z # i # ip # d # ap # tags) = \<lparr>s_ChannelId = c, s_GateId = g, s_Account = a, s_Zone = z,
     s_Isp = i, s_RemoteIP = ip, s_Device = d, s_App = ap, s_Tags = tags\<rparr>"
| "session_of _ = no_session"

definition demo_codec :: session_codec where
  "demo_codec = \<lparr>sn_Marshal = (\<lambda>s. concat (map enc_str (s_ChannelId s # s_GateId s # s_Account s # s_Zone s
       # s_Isp s # s_RemoteIP s # s_Device s # s_App s # s_Tags s))),
     sn_Unmarshal = (\<lambda>bs. session_of (dec_strs bs []))\<rparr>"

lemma demo_codec_laws: "codec_laws demo_codec"
proof -
  have "session_of (s_ChannelId s # s_GateId s # s_Account s # s_Zone s # s_Isp s # s_RemoteIP s # s_Device s
      # s_App s # s_Tags s) = s" for s by (cases s) simp
  then show ?thesis
    by (simp only: codec_laws_def demo_codec_def session_codec.simps dec_strs_all) simp
qed

definition demo_session :: "string \<Rightarrow> session" where
  "demo_session c = no_session\<lparr>s_ChannelId := c, s_GateId := ''gate01'', s_Account := ''ann''\<rparr>"

section \<open>Properties\<close>

text \<open>C19: After any history of logins and logouts that redis accepted, the location of an account is that of
  its last login, or none when a logout of the account came after it, and the session of a channel
  is that of the last login on it, or none when a logout of the channel came after it.\<close>

theorem session_history:
  assumes "redis_laws R" and "codec_laws C" and "\<forall>x \<in> set ops. short_op x"
    and "store_run (rs_Add C R) (rs_Delete R) ops r = (Ret (), r')"
  shows "rs_GetLocation R a '''' r' = last_location a ops (rs_GetLocation R a '''' r)
    \<and> rs_Get C R c r' = last_session c ops (rs_Get C R c r)"
  using rs.run_history [of R C ops r r' a c] assms by simp

theorem session_history_witness:
  "rs_GetLocation demo_redis ''ann'' ''''
     (snd (store_run (rs_Add demo_codec demo_redis) (rs_Delete demo_redis) [Login (demo_session ''c1'')] Map.empty))
   = Ret \<lparr>ChannelID = ''c1'', GateId = ''gate01''\<rparr>"
proof -
  obtain r' where run: "store_run (rs_Add demo_codec demo_redis) (rs_Delete demo_redis) [Login (demo_session ''c1'')] Map.empty
      = (Ret (), r')" by (simp add: rs_Add_def demo_redis_def redis_err_def Let_def)
  then show ?thesis
    using session_history [OF demo_redis_laws demo_codec_laws _ run, of "''ann''" "''c1''"]
    by (simp add: demo_session_def short_session_def session_location_def no_session_def)
qed

text \<open>A second login of an account while the first one is still connected, followed by the end of the
  first connection, leaves the account without a location although the second session is valid and
  connected: the logout of the old channel deletes the location of the new one.\<close>

lemma relogin_loses_location:
  assumes "redis_laws R" and "codec_laws C" and "short_session s1" and "short_session s2"
    and "s_Account s1 = s_Account s2" and "s_ChannelId s1 \<noteq> s_ChannelId s2"
    and "store_run (rs_Add C R) (rs_Delete R) [Login s1, Login s2, Logout (s_Account s1) (s_ChannelId s1)] r = (Ret (), r')"
  shows "rs_GetLocation R (s_Account s2) '''' r' = Fail ErrSessionNil
    \<and> rs_Get C R (s_ChannelId s2) r' = Ret s2"
  using rs.run_history [of R C _ r r' "s_Account s2" "s_ChannelId s2", OF _ _ assms(7)] assms by simp

lemma relogin_loses_location_example:
  "rs_GetLocation demo_redis ''ann'' '''' (snd (store_run (rs_Add demo_codec demo_redis) (rs_Delete demo_redis)
     [Login (demo_session ''c1''), Login (demo_session ''c2''), Logout ''ann'' ''c1''] Map.empty)) = Fail ErrSessionNil"
proof -
  let ?ops = "[Login (demo_session ''c1''), Login (demo_session ''c2''),
    Logout (s_Account (demo_session ''c1'')) (s_ChannelId (demo_session ''c1''))]"
  obtain r' where "store_run (rs_Add demo_codec demo_redis) (rs_Delete demo_redis) ?ops Map.empty = (Ret (), r')"
    by (simp add: rs_Add_def rs_Delete_def demo_redis_def redis_err_def Let_def)
  from relogin_loses_location [OF demo_redis_laws demo_codec_laws _ _ _ _ this] this show ?thesis
    by (simp add: demo_session_def short_session_def no_session_def)
qed

text \<open>\<open>GetLocations\<close> answers with the locations of the accounts that have one, in the order the accounts
  were given, leaving out the others without an error.\<close>

lemma get_locations:
  assumes "redis_laws R" and "\<forall>a \<in> set accounts. \<forall>e. rd_Get R (KeyLocation a '''') r = Inl e \<longrightarrow> e = ErrRedisNil"
  shows "rs_GetLocations R accounts r =
    Ret (concat (map (\<lambda>a. case rs_GetLocation R a '''' r of Ret l \<Rightarrow> [l] | _ \<Rightarrow> []) accounts))"
proof -
  have "rd_Get R (KeyLocation a '''') r = Inl ErrRedisNil \<or> (\<exists>v. rd_Get R (KeyLocation a '''') r = Inr v)"
    if "a \<in> set accounts" for a
    using that assms(2) by (cases "rd_Get R (KeyLocation a '''') r") auto
  then have "rd_MGet R (KeyLocations accounts) r =
      Inr (map (\<lambda>k. case rd_Get R k r of Inl _ \<Rightarrow> None | Inr v \<Rightarrow> Some v) (KeyLocations accounts))"
    using assms(1) by (simp add: redis_laws_def KeyLocations_def list_all_iff)
  then show ?thesis
    by (simp add: rs_GetLocations_def KeyLocations_def comp_def rs_GetLocation_def)
       (rule arg_cong [where f = concat], auto split: sum.splits)
qed

lemma get_locations_example:
  "rs_GetLocations demo_redis [''bob'', ''ann''] [''login:loc:ann'' \<mapsto> Location_Bytes (Some \<lparr>ChannelID = ''c1'', GateId = ''g''\<rparr>)]
   = Ret [\<lparr>ChannelID = ''c1'', GateId = ''g''\<rparr>]"
proof -
  let ?r = "[''login:loc:ann'' \<mapsto> Location_Bytes (Some \<lparr>ChannelID = ''c1'', GateId = ''g''\<rparr>)]"
  have u: "Location_Unmarshal no_location (Location_Bytes (Some \<lparr>ChannelID = ''c1'', GateId = ''g''\<rparr>))
      = (\<lparr>ChannelID = ''c1'', GateId = ''g''\<rparr>, None)"
    by (simp only: Unmarshal_None_iff) (simp add: no_location_def)
  have bob: "rs_GetLocation demo_redis ''bob'' '''' ?r = Fail ErrSessionNil"
    by (simp add: rs_GetLocation_def demo_redis_def KeyLocation_def)
  have ann: "rs_GetLocation demo_redis ''ann'' '''' ?r = Ret \<lparr>ChannelID = ''c1'', GateId = ''g''\<rparr>"
    using u by (simp add: rs_GetLocation_def demo_redis_def KeyLocation_def del: Location_Bytes_Some)
  have "\<forall>a \<in> set [''bob'', ''ann'']. \<forall>e. rd_Get demo_redis (KeyLocation a '''') ?r = Inl e \<longrightarrow> e = ErrRedisNil"
    by (simp add: demo_redis_def KeyLocation_def)
  from get_locations [OF demo_redis_laws this] show ?thesis using bob ann by simp
qed

end
