(* ===== verification/Royal.thy ===== *)
theory Royal
  imports Storage Selector
begin

text \<open>
  The message and group service (\<open>services/service\<close>) and the HTTP client the chat server has for it
  (\<open>services/server/service/group.go\<close>).  The database is behind gorm, which is outside the repository:
  the queries the handlers make are the record \<open>db\<close>, a parameter; \<open>gen\<close> is the snowflake generator,
  \<open>redis\<close> the cache.  A request is what \<open>ReadBody\<close> made of it, or its error.
\<close>

section \<open>Rows and answers\<close>

record message_index =
  ix_ID :: int
  ix_AccountA :: string
  ix_AccountB :: string
  ix_Direction :: "8 word"
  ix_MessageID :: int
  ix_Group :: string
  ix_SendTime :: int

record message_content =
  mc_ID :: int
  mc_Type :: "8 word"
  mc_Body :: string
  mc_Extra :: string
  mc_SendTime :: int

record group_row =
  gr_ID :: int
  gr_Group :: string
  gr_App :: string
  gr_Name :: string
  gr_Owner :: string
  gr_Avatar :: string
  gr_Introduction :: string
  gr_CreatedAt :: int

record get_group_resp =
  gg_Id :: string
  gg_Name :: string
  gg_Avatar :: string
  gg_Introduction :: string
  gg_Owner :: string
  gg_CreatedAt :: int

record group_member =
  gm_ID :: int
  gm_Account :: string
  gm_Group :: string
  gm_Alias :: string
  gm_CreatedAt :: int

text \<open>How a handler ends: a body, a status with a text, or nothing written at all.\<close>

datatype 'a http = Negotiate 'a | Stop int string | Silent

definition StatusBadRequest :: int where "StatusBadRequest = 400"
definition StatusInternalServerError :: int where "StatusInternalServerError = 500"

record 'd db =
  db_Transaction :: "('d \<Rightarrow> error option \<times> 'd) \<Rightarrow> 'd \<Rightarrow> error option \<times> 'd"
  db_CreateContent :: "message_content \<Rightarrow> 'd \<Rightarrow> error option \<times> 'd"
  db_CreateIndex :: "message_index list \<Rightarrow> 'd \<Rightarrow> error option \<times> 'd"
  db_CreateGroup :: "group_row \<Rightarrow> 'd \<Rightarrow> error option \<times> 'd"
  db_CreateMembers :: "group_member list \<Rightarrow> 'd \<Rightarrow> error option \<times> 'd"
  db_Members :: "string \<Rightarrow> 'd \<Rightarrow> error + group_member list"
  db_SendTime :: "int \<Rightarrow> 'd \<Rightarrow> error + int"
  db_Index :: "string \<Rightarrow> int \<Rightarrow> 'd \<Rightarrow> error + message_index list"
  db_Contents :: "int list \<Rightarrow> 'd \<Rightarrow> error + message_content list"
  db_Group :: "int \<Rightarrow> 'd \<Rightarrow> error + group_row"
  db_DeleteMember :: "string \<Rightarrow> string \<Rightarrow> 'd \<Rightarrow> error option \<times> 'd"

record msg =
  msg_Type :: int
  msg_Body :: string
  msg_Extra :: string

text \<open>The message of a request is a pointer, which is nil when the request has none.\<close>

record insert_message =
  im_Sender :: string
  im_Dest :: string
  im_SendTime :: int
  im_Message :: "msg option"

section \<open>Storing a message\<close>

definition content_of :: "int \<Rightarrow> int \<Rightarrow> msg \<Rightarrow> message_content" where
  "content_of messageId sendTime m =
     \<lparr>mc_ID = messageId, mc_Type = word_of_int (msg_Type m), mc_Body = msg_Body m, mc_Extra = msg_Extra m,
      mc_SendTime = sendTime\<rparr>"

text \<open>Two creations in one transaction; the second runs only when the first had no error.\<close>

definition create_both ::
    "'d db \<Rightarrow> message_content \<Rightarrow> message_index list \<Rightarrow> 'd \<Rightarrow> error option \<times> 'd" where
  "create_both D content idx d =
     (case db_CreateContent D content d of
        (Some e, d1) \<Rightarrow> (Some e, d1)
      | (None, d1) \<Rightarrow> db_CreateIndex D idx d1)"

definition InsertUserMessage ::
    "'d db \<Rightarrow> ('g \<Rightarrow> int \<times> 'g) \<Rightarrow> error + insert_message \<Rightarrow> 'g \<times> 'd \<Rightarrow> int http go \<times> 'g \<times> 'd" where
  "InsertUserMessage D gen body s =
     (case body of
        Inl e \<Rightarrow> (Ret (Stop StatusBadRequest (err_text e)), s)
      | Inr req \<Rightarrow>
          let (messageId, g1) = gen (fst s)
          in case im_Message req of
               None \<Rightarrow> (Panics ''nil message'', g1, snd s)
             | Some m \<Rightarrow>
                 let (i0, g2) = gen g1; (i1, g3) = gen g2;
                     idx = [\<lparr>ix_ID = i0, ix_AccountA = im_Dest req, ix_AccountB = im_Sender req, ix_Direction = 0,
                             ix_MessageID = messageId, ix_Group = '''', ix_SendTime = im_SendTime req\<rparr>,
                            \<lparr>ix_ID = i1, ix_AccountA = im_Sender req, ix_AccountB = im_Dest req, ix_Direction = 1,
                             ix_MessageID = messageId, ix_Group = '''', ix_SendTime = im_SendTime req\<rparr>];
                     (err, d) = db_Transaction D (create_both D (content_of messageId (im_SendTime req) m) idx) (snd s)
                 in case err of
                      Some e \<Rightarrow> (Ret (Stop StatusInternalServerError (err_text e)), g3, d)
                    | None \<Rightarrow> (Ret (Negotiate messageId), g3, d))"

text \<open>One index row per member; the column for the message gets the identifier of the member's row.\<close>

fun member_indexes ::
    "('g \<Rightarrow> int \<times> 'g) \<Rightarrow> insert_message \<Rightarrow> group_member list \<Rightarrow> 'g \<Rightarrow> message_index list \<times> 'g" where
  "member_indexes gen req [] g = ([], g)"
| "member_indexes gen req (m # ms) g =
     (let (i, g1) = gen g; (rest, g2) = member_indexes gen req ms g1
      in (\<lparr>ix_ID = i, ix_AccountA = gm_Account m, ix_AccountB = im_Sender req,
           ix_Direction = (if gm_Account m = im_Sender req then 1 else 0), ix_MessageID = gm_ID m,
           ix_Group = gm_Group m, ix_SendTime = im_SendTime req\<rparr> # rest, g2))"

definition InsertGroupMessage ::
    "'d db \<Rightarrow> 'd db \<Rightarrow> ('g \<Rightarrow> int \<times> 'g) \<Rightarrow> error + insert_message \<Rightarrow> 'g \<times> 'd \<Rightarrow> int http go \<times> 'g \<times> 'd" where
  "InsertGroupMessage B D gen body s =
     (case body of
        Inl e \<Rightarrow> (Ret (Stop StatusBadRequest (err_text e)), s)
      | Inr req \<Rightarrow>
          let (messageId, g1) = gen (fst s)
          in case db_Members B (im_Dest req) (snd s) of
               Inl e \<Rightarrow> (Ret (Stop StatusInternalServerError (err_text e)), g1, snd s)
             | Inr members \<Rightarrow>
                 let (ids, g2) = member_indexes gen req members g1
                 in case im_Message req of
                      None \<Rightarrow> (Panics ''nil message'', g2, snd s)
                    | Some m \<Rightarrow>
                        let (err, d) = db_Transaction D
                              (create_both D (content_of messageId (im_SendTime req) m) ids) (snd s)
                        in case err of
                             Some e \<Rightarrow> (Ret (Stop StatusInternalServerError (err_text e)), g2, d)
                           | None \<Rightarrow> (Ret (Negotiate messageId), g2, d))"

section \<open>The read index\<close>

definition KeyMessageAckIndex :: "string \<Rightarrow> string" where
  "KeyMessageAckIndex account = ''chat:ack:'' @ account"

text \<open>The cache keeps the number as its decimal text.\<close>

definition setMessageAck :: "'r redis \<Rightarrow> string \<Rightarrow> int \<Rightarrow> 'r \<Rightarrow> error option \<times> 'r" where
  "setMessageAck R account messageID r =
     (if messageID = 0 then (None, r)
      else rd_Set R (KeyMessageAckIndex account) (to_bytes (show_int messageID)) r)"

definition MessageAck :: "'r redis \<Rightarrow> error + string \<times> int \<Rightarrow> 'r \<Rightarrow> unit http \<times> 'r" where
  "MessageAck R body r =
     (case body of
        Inl e \<Rightarrow> (Stop StatusBadRequest (err_text e), r)
      | Inr (account, messageID) \<Rightarrow>
          (case setMessageAck R account messageID r of
             (Some e, r1) \<Rightarrow> (Stop StatusInternalServerError (err_text e), r1)
           | (None, r1) \<Rightarrow> (Silent, r1)))"

text \<open>
  \<open>cached\<close> is the number in the cache, 0 when there is none or it does not parse; \<open>yesterday\<close> and
  \<open>earliest\<close> are the current time less one day and less the days a message is kept.
\<close>

definition getSentTime :: "'d db \<Rightarrow> int \<Rightarrow> int \<Rightarrow> int \<Rightarrow> int \<Rightarrow> 'd \<Rightarrow> int" where
  "getSentTime D cached yesterday earliest msgID d =
     (let msgID1 = (if msgID = 0 then cached else msgID);
          start = (if msgID1 > 0
                   then (case db_SendTime D msgID1 d of Inl _ \<Rightarrow> yesterday | Inr t \<Rightarrow> t)
                   else 0)
      in if start = 0 \<or> start < earliest then earliest else start)"

text \<open>
  The index of offline messages: the query sees the account and the start, the acknowledgement is set
  before the answer is written.
\<close>

definition GetOfflineMessageIndex ::
    "'d db \<Rightarrow> 'r redis \<Rightarrow> (string \<Rightarrow> 'r \<Rightarrow> int) \<Rightarrow> int \<Rightarrow> int \<Rightarrow> error + string \<times> int \<Rightarrow> 'r \<times> 'd
       \<Rightarrow> message_index list http \<times> 'r" where
  "GetOfflineMessageIndex D R cached yesterday earliest body s =
     (case body of
        Inl e \<Rightarrow> (Stop StatusBadRequest (err_text e), fst s)
      | Inr (account, msgId) \<Rightarrow>
          let start = getSentTime D (cached account (fst s)) yesterday earliest msgId (snd s)
          in case db_Index D account start (snd s) of
               Inl e \<Rightarrow> (Stop StatusInternalServerError (err_text e), fst s)
             | Inr indexes \<Rightarrow>
                 (case setMessageAck R account msgId (fst s) of
                    (Some e, r1) \<Rightarrow> (Stop StatusInternalServerError (err_text e), r1)
                  | (None, r1) \<Rightarrow> (Negotiate indexes, r1)))"

text \<open>The contents are read and dropped: on success nothing is written to the response.\<close>

definition GetOfflineMessageContent ::
    "'d db \<Rightarrow> nat \<Rightarrow> error + int list \<Rightarrow> 'd \<Rightarrow> message_content list http" where
  "GetOfflineMessageContent D max_per_page body d =
     (case body of
        Inl e \<Rightarrow> Stop StatusBadRequest (err_text e)
      | Inr ids \<Rightarrow>
          if length ids > max_per_page then Stop StatusBadRequest ''too many MessageIds''
          else case db_Contents D ids d of
                 Inl e \<Rightarrow> Stop StatusInternalServerError (err_text e)
               | Inr contents \<Rightarrow> Silent)"

lemma offline_content_never_answered: "GetOfflineMessageContent D n body d \<noteq> Negotiate contents"
  by (simp add: GetOfflineMessageContent_def split: sum.splits)


text \<open>A database that accepts everything: its contents and its index rows.\<close>

definition demo_db :: "(message_content list \<times> message_index list) db" where
  "demo_db = \<lparr>db_Transaction = (\<lambda>f d. case f d of (None, d1) \<Rightarrow> (None, d1) | (Some e, d1) \<Rightarrow> (Some e, d)),
     db_CreateContent = (\<lambda>c d. (None, (c # fst d, snd d))), db_CreateIndex = (\<lambda>is d. (None, (fst d, is @ snd d))),
     db_CreateGroup = (\<lambda>_ d. (None, d)), db_CreateMembers = (\<lambda>_ d. (None, d)),
     db_Members = (\<lambda>grp d. Inr [\<lparr>gm_ID = 5, gm_Account = ''ann'', gm_Group = grp, gm_Alias = '''', gm_CreatedAt = 0\<rparr>]),
     db_SendTime = (\<lambda>i d. case filter (\<lambda>c. mc_ID c = i) (fst d) of [] \<Rightarrow> Inl (ErrExt ''not found'') | c # _ \<Rightarrow> Inr (mc_SendTime c)),
     db_Index = (\<lambda>a t d. Inr (snd d)), db_Contents = (\<lambda>_ d. Inr (fst d)),
     db_Group = (\<lambda>_ _. Inl (ErrExt ''not found'')), db_DeleteMember = (\<lambda>_ _ d. (None, d))\<rparr>"

definition demo_msg :: msg where
  "demo_msg = \<lparr>msg_Type = 1, msg_Body = ''hi'', msg_Extra = ''''\<rparr>"

definition demo_message :: insert_message where
  "demo_message = \<lparr>im_Sender = ''ann'', im_Dest = ''bob'', im_SendTime = 100, im_Message = Some demo_msg\<rparr>"


section \<open>Groups\<close>

record create_group =
  cg_App :: string
  cg_Name :: string
  cg_Avatar :: string
  cg_Owner :: string
  cg_Introduction :: string
  cg_Members :: "string list"

fun new_members :: "('g \<Rightarrow> int \<times> 'g) \<Rightarrow> string \<Rightarrow> string list \<Rightarrow> 'g \<Rightarrow> group_member list \<times> 'g" where
  "new_members gen grp [] g = ([], g)"
| "new_members gen grp (user # users) g =
     (let (i, g1) = gen g; (rest, g2) = new_members gen grp users g1
      in (\<lparr>gm_ID = i, gm_Account = user, gm_Group = grp, gm_Alias = '''', gm_CreatedAt = 0\<rparr> # rest, g2))"

text \<open>\<open>base32\<close> is the text of a snowflake number.\<close>

definition GroupCreate ::
    "'d db \<Rightarrow> ('g \<Rightarrow> int \<times> 'g) \<Rightarrow> (int \<Rightarrow> string) \<Rightarrow> error + create_group \<Rightarrow> 'g \<times> 'd \<Rightarrow> string http \<times> 'g \<times> 'd" where
  "GroupCreate B gen base32 body s =
     (case body of
        Inl e \<Rightarrow> (Stop StatusBadRequest (err_text e), s)
      | Inr req \<Rightarrow>
          let (groupId, g1) = gen (fst s);
              g = \<lparr>gr_ID = groupId, gr_Group = base32 groupId, gr_App = cg_App req, gr_Name = cg_Name req,
                   gr_Owner = cg_Owner req, gr_Avatar = cg_Avatar req, gr_Introduction = cg_Introduction req,
                   gr_CreatedAt = 0\<rparr>;
              (members, g2) = new_members gen (base32 groupId) (cg_Members req) g1;
              (err, d) = db_Transaction B (\<lambda>d. case db_CreateGroup B g d of
                   (Some e, d1) \<Rightarrow> (Some e, d1) | (None, d1) \<Rightarrow> db_CreateMembers B members d1) (snd s)
          in case err of
               Some e \<Rightarrow> (Stop StatusInternalServerError (err_text e), g2, d)
             | None \<Rightarrow> (Negotiate (base32 groupId), g2, d))"

text \<open>
  The slice of users is made with length 0 and written by index, which panics at the first member;
  there is an answer only for a group without members.
\<close>

definition GroupMembers :: "'d db \<Rightarrow> string \<Rightarrow> 'd \<Rightarrow> (string \<times> string \<times> int) list http go" where
  "GroupMembers B grp d =
     (if length grp = 0 then Ret (Stop StatusBadRequest ''group is null '')
      else case db_Members B grp d of
             Inl e \<Rightarrow> Ret (Stop StatusInternalServerError (err_text e))
           | Inr members \<Rightarrow> (if members = [] then Ret (Negotiate []) else Panics ''index out of range''))"

text \<open>\<open>parse36\<close> is \<open>ParseBase36\<close>.\<close>

definition GroupGet :: "'d db \<Rightarrow> (string \<Rightarrow> error + int) \<Rightarrow> string \<Rightarrow> 'd \<Rightarrow> get_group_resp http" where
  "GroupGet B parse36 groupId d =
     (if length groupId = 0 then Stop StatusBadRequest ''groupID is null''
      else case parse36 groupId of
             Inl e \<Rightarrow> Stop StatusBadRequest ''group id is invalid''
           | Inr i \<Rightarrow>
               (case db_Group B i d of
                  Inl e \<Rightarrow> Stop StatusInternalServerError (err_text e)
                | Inr grp \<Rightarrow> Negotiate \<lparr>gg_Id = groupId, gg_Name = gr_Name grp, gg_Avatar = gr_Avatar grp,
                    gg_Introduction = gr_Introduction grp, gg_Owner = gr_Owner grp, gg_CreatedAt = gr_CreatedAt grp\<rparr>))"

definition GroupJoin ::
    "'d db \<Rightarrow> ('g \<Rightarrow> int \<times> 'g) \<Rightarrow> error + string \<times> string \<Rightarrow> 'g \<times> 'd \<Rightarrow> unit http \<times> 'g \<times> 'd" where
  "GroupJoin B gen body s =
     (case body of
        Inl e \<Rightarrow> (Stop StatusBadRequest (err_text e), s)
      | Inr (account, grp) \<Rightarrow>
          let (i, g1) = gen (fst s);
              gm = \<lparr>gm_ID = i, gm_Account = account, gm_Group = grp, gm_Alias = '''', gm_CreatedAt = 0\<rparr>
          in case db_CreateMembers B [gm] (snd s) of
               (Some e, d) \<Rightarrow> (Stop StatusInternalServerError (err_text e), g1, d)
             | (None, d) \<Rightarrow> (Silent, g1, d))"

text \<open>The request is a nil pointer the body reader has to fill (\<open>Inr None\<close> when it leaves it nil).\<close>

definition GroupQuit :: "'d db \<Rightarrow> error + (string \<times> string) option \<Rightarrow> 'd \<Rightarrow> unit http go \<times> 'd" where
  "GroupQuit B body d =
     (case body of
        Inl e \<Rightarrow> (Ret (Stop StatusBadRequest (err_text e)), d)
      | Inr None \<Rightarrow> (Panics ''nil request'', d)
      | Inr (Some (account, grp)) \<Rightarrow>
          (case db_DeleteMember B account grp d of
             (Some e, d1) \<Rightarrow> (Ret (Stop StatusInternalServerError (err_text e)), d1)
           | (None, d1) \<Rightarrow> (Ret Silent, d1)))"

section \<open>service.GroupHttp\<close>

text \<open>
  The client of the group service.  \<open>request\<close> is the HTTP client with the method, the path and the body:
  an error or a status and a body; \<open>decode\<close> is the reply's \<open>proto.Unmarshal\<close>, whose error is ignored.
\<close>

type_synonym http_client = "string \<Rightarrow> string \<Rightarrow> bytes \<Rightarrow> error + int \<times> bytes"

definition status_error :: "string \<Rightarrow> int \<Rightarrow> error" where
  "status_error call code = ErrMsg (''GroupHttp.'' @ call @ '' response.StatusCode() = '' @ show_int code @ '', want 200'')"

definition expect_200 :: "string \<Rightarrow> (bytes \<Rightarrow> 'a) \<Rightarrow> error + int \<times> bytes \<Rightarrow> 'a go" where
  "expect_200 call decode response =
     (case response of
        Inl e \<Rightarrow> Fail e
      | Inr (code, body) \<Rightarrow> if code \<noteq> 200 then Fail (status_error call code) else Ret (decode body))"

definition GroupHttp_Create :: "http_client \<Rightarrow> string \<Rightarrow> (bytes \<Rightarrow> 'a) \<Rightarrow> string \<Rightarrow> bytes \<Rightarrow> 'a go" where
  "GroupHttp_Create request url decode app body =
     expect_200 ''Create'' decode (request ''POST'' (url @ ''/api/'' @ app @ ''/group'') body)"

definition GroupHttp_Members :: "http_client \<Rightarrow> string \<Rightarrow> (bytes \<Rightarrow> 'a) \<Rightarrow> string \<Rightarrow> string \<Rightarrow> 'a go" where
  "GroupHttp_Members request url decode app grp =
     expect_200 ''Members'' decode (request ''GET'' (url @ ''/api/'' @ app @ ''/group/members/'' @ grp) [])"

definition GroupHttp_Join :: "http_client \<Rightarrow> string \<Rightarrow> string \<Rightarrow> bytes \<Rightarrow> unit go" where
  "GroupHttp_Join request url app body =
     expect_200 ''Join'' (\<lambda>_. ()) (request ''POST'' (url @ ''/api/'' @ app @ ''/group/member'') body)"

definition GroupHttp_Quit :: "http_client \<Rightarrow> string \<Rightarrow> string \<Rightarrow> bytes \<Rightarrow> unit go" where
  "GroupHttp_Quit request url app body =
     expect_200 ''Quit'' (\<lambda>_. ()) (request ''DELETE'' (url @ ''/api/'' @ app @ ''/group/member'') body)"

definition GroupHttp_Detail :: "http_client \<Rightarrow> string \<Rightarrow> (bytes \<Rightarrow> 'a) \<Rightarrow> string \<Rightarrow> string \<Rightarrow> 'a go" where
  "GroupHttp_Detail request url decode app grp =
     expect_200 ''Detail'' decode (request ''GET'' (url @ ''/api/'' @ app @ ''/group/'' @ grp) [])"

lemma expect_200_Ret: "expect_200 call decode response = Ret x \<longleftrightarrow> (\<exists>b. response = Inr (200, b) \<and> x = decode b)"
  by (auto simp: expect_200_def split: sum.splits)

section \<open>The node of the generator\<close>

definition royal_HashCode :: "string \<Rightarrow> nat" where
  "royal_HashCode key = unat (crc32_IEEE (to_bytes key) mod 1000)"

lemma royal_HashCode_node: "royal_HashCode key < 1024"
proof -
  have "unat (crc32_IEEE (to_bytes key) mod 1000) = unat (crc32_IEEE (to_bytes key)) mod 1000"
    by (simp add: unat_mod)
  then show ?thesis by (simp add: royal_HashCode_def)
qed

section \<open>Properties of the stored rows\<close>

text \<open>
  A transaction keeps what its body did when that had no error and it could be committed, and nothing
  otherwise.
\<close>

definition tx_law :: "'d db \<Rightarrow> bool" where
  "tx_law D \<longleftrightarrow> (\<forall>f d. db_Transaction D f d = f d \<and> fst (f d) = None \<or> (\<exists>e. db_Transaction D f d = (Some e, d)))"

lemma tx_law_cases:
  assumes "tx_law D" "db_Transaction D f d = (err, d')"
  shows "err = None \<and> f d = (None, d') \<or> (\<exists>e. err = Some e) \<and> d' = d"
  using assms unfolding tx_law_def by (metis fst_conv prod.inject)

text \<open>A message to a user is either stored whole, as its content and two index rows that refer to it,
  one in the queue of the receiver marked incoming and one in the queue of the sender marked
  outgoing, or not at all; the answer carries its identifier or an error, and a request without a
  message panics and stores nothing.\<close>

lemma user_message_stored:
  assumes "tx_law D"
    and "gen g = (i, g1)" and "gen g1 = (j, g2)" and "gen g2 = (k, g3)"
    and "rows = [\<lparr>ix_ID = j, ix_AccountA = im_Dest req, ix_AccountB = im_Sender req, ix_Direction = 0,
                  ix_MessageID = i, ix_Group = '''', ix_SendTime = im_SendTime req\<rparr>,
                 \<lparr>ix_ID = k, ix_AccountA = im_Sender req, ix_AccountB = im_Dest req, ix_Direction = 1,
                  ix_MessageID = i, ix_Group = '''', ix_SendTime = im_SendTime req\<rparr>]"
  shows "case InsertUserMessage D gen (Inr req) (g, d) of
      (Ret (Negotiate n), g', d') \<Rightarrow> n = i \<and> (\<exists>m d1. im_Message req = Some m
          \<and> db_CreateContent D (content_of i (im_SendTime req) m) d = (None, d1)
          \<and> db_CreateIndex D rows d1 = (None, d'))
    | (Ret (Stop code why), g', d') \<Rightarrow> code = 500 \<and> d' = d
    | (Panics _, g', d') \<Rightarrow> im_Message req = None \<and> d' = d
    | _ \<Rightarrow> False"
proof (cases "im_Message req")
  case None
  then show ?thesis by (simp add: InsertUserMessage_def assms(2))
next
  case (Some m)
  obtain err d' where tx: "db_Transaction D (create_both D (content_of i (im_SendTime req) m) rows) d = (err, d')"
    by fastforce
  show ?thesis
    using Some tx_law_cases [OF assms(1) tx] tx
    by (auto simp: InsertUserMessage_def assms(2-5) create_both_def StatusInternalServerError_def
        split: option.splits prod.splits)
qed

lemma demo_tx: "tx_law demo_db"
  by (auto simp: tx_law_def demo_db_def split: prod.splits option.splits)

lemma user_message_stored_example:
  "\<exists>s. InsertUserMessage demo_db (\<lambda>n. (int n, Suc n)) (Inr demo_message) (7, [], []) = (Ret (Negotiate 7), s)"
proof -
  obtain a s where o: "InsertUserMessage demo_db (\<lambda>n. (int n, Suc n)) (Inr demo_message) (7, [], []) = (a, s)"
    by (metis surj_pair)
  then have a: "a = Ret (Negotiate 7)"
    by (auto simp: InsertUserMessage_def create_both_def demo_db_def demo_message_def Let_def)
  from user_message_stored [OF demo_tx, of "\<lambda>n. (int n, Suc n)" 7 7 8 8 9 9 10 _ demo_message, OF _ _ _ refl,
      of "([], [])"] o a
  show ?thesis by (simp split: prod.splits)
qed

lemma member_indexes_map:
  "map ix_MessageID (fst (member_indexes gen req ms g)) = map gm_ID ms
   \<and> map ix_AccountA (fst (member_indexes gen req ms g)) = map gm_Account ms"
  by (induction ms arbitrary: g) (auto simp: Let_def split_beta)

text \<open>The index rows of a group message refer to the rows of the members and not to the message: when
  no member row happens to have the message's number, no member's index leads to the content that
  was stored.\<close>

lemma group_message_dangling:
  assumes "tx_law D" and "gen g = (i, g1)" and "db_Members B (im_Dest req) d = Inr members"
    and "InsertGroupMessage B D gen (Inr req) (g, d) = (Ret (Negotiate n), g', d')"
    and "i \<notin> gm_ID ` set members"
  shows "n = i \<and> (\<exists>m d1 rows. im_Message req = Some m
      \<and> db_CreateContent D (content_of i (im_SendTime req) m) d = (None, d1)
      \<and> db_CreateIndex D rows d1 = (None, d') \<and> map ix_AccountA rows = map gm_Account members
      \<and> (\<forall>row \<in> set rows. ix_MessageID row \<noteq> n))"
proof -
  obtain rows g2 where rows: "member_indexes gen req members g1 = (rows, g2)" by fastforce
  have "map ix_MessageID rows = map gm_ID members" "map ix_AccountA rows = map gm_Account members"
    using member_indexes_map [of gen req members g1] by (simp_all add: rows)
  moreover from this(1) have "\<forall>row \<in> set rows. ix_MessageID row \<noteq> i"
    using assms(5) by (metis image_eqI image_set)
  moreover obtain m where m: "im_Message req = Some m"
    using assms(2-4) by (cases "im_Message req") (auto simp: InsertGroupMessage_def rows)
  moreover obtain err e' where tx: "db_Transaction D (create_both D (content_of i (im_SendTime req) m) rows) d = (err, e')"
    by fastforce
  moreover have "n = i \<and> (\<exists>d1. db_CreateContent D (content_of i (im_SendTime req) m) d = (None, d1)
      \<and> db_CreateIndex D rows d1 = (None, d'))"
    using tx_law_cases [OF assms(1) tx] tx assms(2-4) m
    by (auto simp: InsertGroupMessage_def rows create_both_def split: option.splits prod.splits)
  ultimately show ?thesis by blast
qed

lemma group_message_dangling_example:
  "\<exists>g d. InsertGroupMessage demo_db demo_db (\<lambda>n. (int n, Suc n)) (Inr demo_message) (7, [], []) = (Ret (Negotiate 7), g, d)
     \<and> map ix_MessageID (snd d) = [5]"
proof -
  obtain m g' d' where o: "InsertGroupMessage demo_db demo_db (\<lambda>n. (int n, Suc n)) (Inr demo_message) (7, [], []) = (Ret (Negotiate m), g', d')"
    and rows: "map ix_MessageID (snd d') = [5]"
    by (simp add: InsertGroupMessage_def create_both_def demo_db_def demo_message_def Let_def)
  have members: "db_Members demo_db (im_Dest demo_message) ([], []) =
      Inr [\<lparr>gm_ID = 5, gm_Account = ''ann'', gm_Group = ''bob'', gm_Alias = '''', gm_CreatedAt = 0\<rparr>]"
    by (simp add: demo_db_def demo_message_def)
  have "m = 7" using group_message_dangling [OF demo_tx _ members o] by simp
  then show ?thesis using o rows by auto
qed

end
