(* ===== verification/Config.thy ===== *)
theory Config
  imports Channel
begin

text \<open>
  The configurations of the three services (\<open>services/*/conf/config.go\<close>) and the address of the host
  (\<open>core/net.go\<close>).  viper and envconfig are a parameter: what reading the file, decoding it and the
  environment do to the configuration.
\<close>

section \<open>Numbers in text\<close>

text \<open>\<open>strconv.Atoi\<close> when its error is ignored: 0 for text that is no number, the nearest 64-bit number for one
  that does not fit.\<close>

definition digits_value :: "string \<Rightarrow> nat" where
  "digits_value s = foldl (\<lambda>v c. 10 * v + (of_char c - 48)) 0 s"

definition go_Atoi :: "string \<Rightarrow> int" where
  "go_Atoi s =
     (let neg = (s \<noteq> [] \<and> hd s = CHR ''-''); signed = (s \<noteq> [] \<and> hd s \<in> {CHR ''-'', CHR ''+''});
          ds = (if signed then tl s else s)
      in if ds = [] \<or> (\<exists>c \<in> set ds. \<not> is_digit_char c) then 0
         else if neg then max (- (2 ^ 63)) (- int (digits_value ds)) else min (2 ^ 63 - 1) (int (digits_value ds)))"

lemma digits_value_snoc: "digits_value (s @ [c]) = 10 * digits_value s + (of_char c - 48)"
  by (simp add: digits_value_def)

lemma digits_value_show: "digits_value (show_nat n) = n"
proof (induction n rule: show_nat.induct)
  case (1 n)
  have d: "of_char (digit_char k) - 48 = k" if "k < 10" for k :: nat
    using that by (simp add: digit_char_def of_char_of)
  show ?case
  proof (cases "n < 10")
    case True
    then show ?thesis by (simp add: show_nat.simps [of n] digits_value_def d)
  next
    case False
    then show ?thesis using 1 d [of "n mod 10"]
      by (simp add: show_nat.simps [of n] digits_value_snoc)
  qed
qed

lemma show_nat_hd: "is_digit_char (hd (show_nat n))"
  using show_nat_digits [of "hd (show_nat n)" n] by simp

lemma go_Atoi_show:
  assumes "n < 2 ^ 63"
  shows "go_Atoi (show_nat n) = int n"
proof -
  have "hd (show_nat n) \<noteq> CHR ''-''" "hd (show_nat n) \<noteq> CHR ''+''"
    using show_nat_hd [of n] by (auto simp: is_digit_char_def)
  then show ?thesis using assms show_nat_digits [of _ n]
    by (auto simp: go_Atoi_def digits_value_show Let_def)
qed

section \<open>The address of the host\<close>

text \<open>An address of an interface: whether it is a loopback, and its text when it is an IPv4 one.\<close>

datatype net_addr = IPNet bool "string option" | OtherAddr

fun first_ip :: "net_addr list \<Rightarrow> string" where
  "first_ip [] = ''''"
| "first_ip (OtherAddr # addrs) = first_ip addrs"
| "first_ip (IPNet loopback ip4 # addrs) =
     (if loopback then first_ip addrs else case ip4 of Some ip \<Rightarrow> ip | None \<Rightarrow> first_ip addrs)"

definition GetLocalIP :: "error + net_addr list \<Rightarrow> string" where
  "GetLocalIP addrs = (case addrs of Inl _ \<Rightarrow> '''' | Inr as \<Rightarrow> first_ip as)"

text \<open>The copy of the function in \<open>main.go\<close>, a file without a \<open>main\<close>.\<close>

fun root_first_ip :: "net_addr list \<Rightarrow> string" where
  "root_first_ip [] = ''''"
| "root_first_ip (OtherAddr # addrs) = root_first_ip addrs"
| "root_first_ip (IPNet loopback ip4 # addrs) =
     (if loopback then root_first_ip addrs else case ip4 of Some ip \<Rightarrow> ip | None \<Rightarrow> root_first_ip addrs)"

definition root_GetLocalIP :: "error + net_addr list \<Rightarrow> string" where
  "root_GetLocalIP addrs = (case addrs of Inl _ \<Rightarrow> '''' | Inr as \<Rightarrow> root_first_ip as)"

lemma root_GetLocalIP_copy: "root_GetLocalIP = GetLocalIP"
proof -
  have "root_first_ip as = first_ip as" for as by (induction as rule: first_ip.induct) (auto split: option.split)
  then show ?thesis by (intro ext) (simp add: root_GetLocalIP_def GetLocalIP_def split: sum.split)
qed

lemma first_ip_found: "first_ip addrs \<noteq> '''' \<Longrightarrow> IPNet False (Some (first_ip addrs)) \<in> set addrs"
  by (induction addrs rule: first_ip.induct) (auto split: option.splits if_splits)

definition quad :: "nat \<Rightarrow> nat \<Rightarrow> nat \<Rightarrow> nat \<Rightarrow> string" where
  "quad a b c d = go_join ''.'' (map show_nat [a, b, c, d])"

lemma show_nat_no_dot: "CHR ''.'' \<notin> set (show_nat n)"
  using show_nat_digits [of "CHR ''.''" n] by (auto simp: is_digit_char_def)

lemma quad_split: "go_split CHR ''.'' (quad a b c d) = [show_nat a, show_nat b, show_nat c, show_nat d]"
  unfolding quad_def by (subst go_split_join) (auto simp: show_nat_no_dot)

section \<open>Configurations\<close>

record gateway_conf =
  gc_ServiceID :: string
  gc_ServiceName :: string
  gc_Namespace :: string
  gc_Listen :: string
  gc_PublicAddress :: string
  gc_PublicPort :: int
  gc_Tags :: "string list"
  gc_ConsulURL :: string

record chat_conf =
  sc_ServiceID :: string
  sc_Namespace :: string
  sc_Listen :: string
  sc_PublicAddress :: string
  sc_PublicPort :: int
  sc_Tags :: "string list"
  sc_ConsulURL :: string
  sc_RedisAddrs :: string
  sc_RpcURL :: string

record royal_conf =
  rc_ServiceID :: string
  rc_NodeID :: int
  rc_Listen :: string
  rc_PublicAddress :: string
  rc_PublicPort :: int
  rc_Tags :: "string list"
  rc_ConsulURL :: string
  rc_RedisAddrs :: string
  rc_BaseDb :: string
  rc_MessageDb :: string
  rc_LogLevel :: string

record 'k config_lib =
  vp_Read :: "error option"
  vp_Unmarshal :: "'k \<Rightarrow> error option \<times> 'k"
  env_Process :: "'k \<Rightarrow> error option \<times> 'k"

definition gateway_zero :: gateway_conf where
  "gateway_zero = \<lparr>gc_ServiceID = '''', gc_ServiceName = '''', gc_Namespace = '''', gc_Listen = '''', gc_PublicAddress = '''',
     gc_PublicPort = 0, gc_Tags = [], gc_ConsulURL = ''''\<rparr>"

definition chat_zero :: chat_conf where
  "chat_zero = \<lparr>sc_ServiceID = '''', sc_Namespace = '''', sc_Listen = '''', sc_PublicAddress = '''', sc_PublicPort = 0,
     sc_Tags = [], sc_ConsulURL = '''', sc_RedisAddrs = '''', sc_RpcURL = ''''\<rparr>"

definition royal_zero :: royal_conf where
  "royal_zero = \<lparr>rc_ServiceID = '''', rc_NodeID = 0, rc_Listen = '''', rc_PublicAddress = '''', rc_PublicPort = 0, rc_Tags = [],
     rc_ConsulURL = '''', rc_RedisAddrs = '''', rc_BaseDb = '''', rc_MessageDb = '''', rc_LogLevel = ''''\<rparr>"

definition not_found :: "error \<Rightarrow> error" where
  "not_found e = ErrMsg (''config file not found: '' @ err_text e)"

definition gateway_conf_Init :: "gateway_conf config_lib \<Rightarrow> gateway_conf go" where
  "gateway_conf_Init V =
     (case vp_Read V of
        Some e \<Rightarrow> Fail (not_found e)
      | None \<Rightarrow>
          (case vp_Unmarshal V gateway_zero of
             (Some e, _) \<Rightarrow> Fail e
           | (None, config) \<Rightarrow>
               (case env_Process V config of
                  (Some e, _) \<Rightarrow> Fail e
                | (None, config1) \<Rightarrow> Ret config1)))"

definition chat_conf_Init :: "chat_conf config_lib \<Rightarrow> chat_conf go" where
  "chat_conf_Init V =
     (case vp_Read V of
        Some e \<Rightarrow> Fail (not_found e)
      | None \<Rightarrow>
          (case vp_Unmarshal V chat_zero of
             (Some e, _) \<Rightarrow> Fail e
           | (None, config) \<Rightarrow>
               (case env_Process V config of
                  (Some e, _) \<Rightarrow> Fail e
                | (None, config1) \<Rightarrow> Ret config1)))"

text \<open>
  The royal service can do without a file.  \<open>localIP\<close> is \<open>kim.GetLocalIP()\<close>.  Without an identifier it
  makes one of the address, and takes the last number of the address for its node, whatever node was
  configured.
\<close>

definition royal_loaded :: "royal_conf config_lib \<Rightarrow> royal_conf go" where
  "royal_loaded V =
     (case (case vp_Read V of Some _ \<Rightarrow> (None, royal_zero) | None \<Rightarrow> vp_Unmarshal V royal_zero) of
        (Some e, _) \<Rightarrow> Fail e
      | (None, config) \<Rightarrow>
          (case env_Process V config of
             (Some e, _) \<Rightarrow> Fail e
           | (None, config1) \<Rightarrow> Ret config1))"

definition default_identity :: "string \<Rightarrow> royal_conf \<Rightarrow> royal_conf" where
  "default_identity localIP config =
     (if rc_ServiceID config = ''''
      then
        let c1 = config\<lparr>rc_ServiceID := ''royal_'' @ filter (\<lambda>c. c \<noteq> CHR ''.'') localIP\<rparr>;
            arr = go_split CHR ''.'' localIP
        in if length arr = 4 then c1\<lparr>rc_NodeID := go_Atoi (arr ! 3)\<rparr> else c1
      else config)"

definition royal_conf_Init :: "royal_conf config_lib \<Rightarrow> string \<Rightarrow> royal_conf go" where
  "royal_conf_Init V localIP =
     (case royal_loaded V of
        Fail e \<Rightarrow> Fail e
      | Panics m \<Rightarrow> Panics m
      | Ret config \<Rightarrow>
          let c1 = default_identity localIP config
          in Ret (if rc_PublicAddress c1 = '''' then c1\<lparr>rc_PublicAddress := localIP\<rparr> else c1))"

section \<open>Clients of redis\<close>

text \<open>
  \<open>InitRedis\<close> and \<open>InitFailoverRedis\<close>: only the first one reports that redis does not answer.  The two are
  written out in three places; \<open>new\<close> is the constructor of the redis library, \<open>ping\<close> its command.
\<close>

record redis_options =
  ro_Addr :: string
  ro_Password :: string
  ro_DialTimeout :: int
  ro_ReadTimeout :: int
  ro_WriteTimeout :: int

record failover_options =
  fo_MasterName :: string
  fo_SentinelAddrs :: "string list"
  fo_Password :: string
  fo_DialTimeout :: int
  fo_ReadTimeout :: int
  fo_WriteTimeout :: int

definition InitRedis :: "(redis_options \<Rightarrow> 'r) \<Rightarrow> ('r \<Rightarrow> error option) \<Rightarrow> string \<Rightarrow> string \<Rightarrow> 'r go" where
  "InitRedis new ping addr pass =
     (let redisdb = new \<lparr>ro_Addr = addr, ro_Password = pass, ro_DialTimeout = second * 5, ro_ReadTimeout = second * 5,
                         ro_WriteTimeout = second * 5\<rparr>
      in case ping redisdb of Some e \<Rightarrow> Fail e | None \<Rightarrow> Ret redisdb)"

definition InitFailoverRedis ::
    "(failover_options \<Rightarrow> 'r) \<Rightarrow> ('r \<Rightarrow> error option) \<Rightarrow> string \<Rightarrow> string list \<Rightarrow> string \<Rightarrow> int \<Rightarrow> 'r go" where
  "InitFailoverRedis new ping masterName sentinelAddrs password timeout =
     (let redisdb = new \<lparr>fo_MasterName = masterName, fo_SentinelAddrs = sentinelAddrs, fo_Password = password,
                         fo_DialTimeout = second * 5, fo_ReadTimeout = timeout, fo_WriteTimeout = timeout\<rparr>
      in case ping redisdb of Some _ \<Rightarrow> Ret redisdb | None \<Rightarrow> Ret redisdb)"

text \<open>The copies of the royal service, in its configuration and in its \<open>database\<close> package.\<close>

definition royal_InitRedis :: "(redis_options \<Rightarrow> 'r) \<Rightarrow> ('r \<Rightarrow> error option) \<Rightarrow> string \<Rightarrow> string \<Rightarrow> 'r go" where
  "royal_InitRedis new ping addr pass =
     (let redisdb = new \<lparr>ro_Addr = addr, ro_Password = pass, ro_DialTimeout = second * 5, ro_ReadTimeout = second * 5,
                         ro_WriteTimeout = second * 5\<rparr>
      in case ping redisdb of Some e \<Rightarrow> Fail e | None \<Rightarrow> Ret redisdb)"

definition royal_InitFailoverRedis ::
    "(failover_options \<Rightarrow> 'r) \<Rightarrow> ('r \<Rightarrow> error option) \<Rightarrow> string \<Rightarrow> string list \<Rightarrow> string \<Rightarrow> int \<Rightarrow> 'r go" where
  "royal_InitFailoverRedis new ping masterName sentinelAddrs password timeout =
     (let redisdb = new \<lparr>fo_MasterName = masterName, fo_SentinelAddrs = sentinelAddrs, fo_Password = password,
                         fo_DialTimeout = second * 5, fo_ReadTimeout = timeout, fo_WriteTimeout = timeout\<rparr>
      in case ping redisdb of Some _ \<Rightarrow> Ret redisdb | None \<Rightarrow> Ret redisdb)"

definition database_InitRedis :: "(redis_options \<Rightarrow> 'r) \<Rightarrow> ('r \<Rightarrow> error option) \<Rightarrow> string \<Rightarrow> string \<Rightarrow> 'r go" where
  "database_InitRedis new ping addr pass =
     (let redisdb = new \<lparr>ro_Addr = addr, ro_Password = pass, ro_DialTimeout = second * 5, ro_ReadTimeout = second * 5,
                         ro_WriteTimeout = second * 5\<rparr>
      in case ping redisdb of Some e \<Rightarrow> Fail e | None \<Rightarrow> Ret redisdb)"

definition database_InitFailoverRedis ::
    "(failover_options \<Rightarrow> 'r) \<Rightarrow> ('r \<Rightarrow> error option) \<Rightarrow> string \<Rightarrow> string list \<Rightarrow> string \<Rightarrow> int \<Rightarrow> 'r go" where
  "database_InitFailoverRedis new ping masterName sentinelAddrs password timeout =
     (let redisdb = new \<lparr>fo_MasterName = masterName, fo_SentinelAddrs = sentinelAddrs, fo_Password = password,
                         fo_DialTimeout = second * 5, fo_ReadTimeout = timeout, fo_WriteTimeout = timeout\<rparr>
      in case ping redisdb of Some _ \<Rightarrow> Ret redisdb | None \<Rightarrow> Ret redisdb)"

text \<open>The three copies agree, and none of the second ever reports an error.\<close>

lemma redis_copies:
  "royal_InitRedis = InitRedis" "database_InitRedis = InitRedis"
  "royal_InitFailoverRedis = InitFailoverRedis" "database_InitFailoverRedis = InitFailoverRedis"
  by (intro ext; simp add: InitRedis_def royal_InitRedis_def database_InitRedis_def InitFailoverRedis_def
      royal_InitFailoverRedis_def database_InitFailoverRedis_def)+

lemma failover_never_fails: "\<exists>client. InitFailoverRedis new ping name addrs pass t = Ret client"
  by (simp add: InitFailoverRedis_def Let_def split: option.split)

section \<open>What the royal service calls itself\<close>

lemma royal_Init_fields:
  assumes "royal_loaded V = Ret config"
  shows "\<exists>c. royal_conf_Init V ip = Ret c \<and> rc_ServiceID c = rc_ServiceID (default_identity ip config)
    \<and> rc_NodeID c = rc_NodeID (default_identity ip config)"
  using assms by (simp add: royal_conf_Init_def Let_def)

lemma default_identity_quad:
  assumes "rc_ServiceID config = ''''" and "d < 256"
  shows "rc_ServiceID (default_identity (quad a b c d) config) = ''royal_'' @ show_nat a @ show_nat b @ show_nat c @ show_nat d"
    and "rc_NodeID (default_identity (quad a b c d) config) = int d"
proof -
  have no: "filter (\<lambda>x. x \<noteq> CHR ''.'') (show_nat n) = show_nat n" for n
  proof (rule filter_True, intro ballI notI)
    fix x assume "x \<in> set (show_nat n)" "x = CHR ''.''"
    with show_nat_no_dot show False by blast
  qed
  have flat: "quad a b c d = show_nat a @ CHR ''.'' # show_nat b @ CHR ''.'' # show_nat c @ CHR ''.'' # show_nat d"
    by (simp add: quad_def)
  have "filter (\<lambda>x. x \<noteq> CHR ''.'') (quad a b c d) = show_nat a @ show_nat b @ show_nat c @ show_nat d"
    unfolding flat by (simp only: filter_append filter.simps no simp_thms if_False)
  then show "rc_ServiceID (default_identity (quad a b c d) config) = ''royal_'' @ show_nat a @ show_nat b @ show_nat c @ show_nat d"
    using assms(1) by (simp add: default_identity_def quad_split Let_def)
  have "go_Atoi (show_nat d) = int d" by (rule go_Atoi_show) (use assms(2) in simp)
  then show "rc_NodeID (default_identity (quad a b c d) config) = int d"
    using assms(1) by (simp add: default_identity_def quad_split Let_def)
qed

lemma default_identity_none:
  "rc_NodeID (default_identity '''' config) = rc_NodeID config"
  "rc_ServiceID config \<noteq> '''' \<Longrightarrow> default_identity ip config = config"
  by (simp_all add: default_identity_def Let_def)

end
