(* ===== verification/RoyalServer.thy ===== *)
theory RoyalServer
  imports Royal Naming Config
begin

text \<open>
  \<open>services/service/server.go\<close>: how the royal service starts and which node number it generates
  identifiers with.  Its routes are in \<open>GroupRpc\<close>.
\<close>

section \<open>The node number\<close>

definition royal_node :: "royal_conf \<Rightarrow> int" where
  "royal_node config = (if rc_NodeID config = 0 then int (royal_HashCode (rc_ServiceID config)) else rc_NodeID config)"

lemma hash_node: "0 \<le> int (royal_HashCode key) \<and> int (royal_HashCode key) < 1024"
  using royal_HashCode_node [of key] by simp

text \<open>Without a configured identifier the node number of a royal service comes from its address, also
  when a node was configured, and it is one the generator accepts; with an identifier it is the
  configured node, or the hash of the identifier, which the generator accepts too.\<close>

lemma royal_node_bounds:
  assumes "royal_loaded V = Ret config" and "d < 256" and "royal_conf_Init V (quad a b c d) = Ret conf"
  shows "if rc_ServiceID config = ''''
    then royal_node conf = (if d = 0 then int (royal_HashCode (rc_ServiceID conf)) else int d)
      \<and> 0 \<le> royal_node conf \<and> royal_node conf < 1024
    else rc_ServiceID conf = rc_ServiceID config
      \<and> royal_node conf = (if rc_NodeID config = 0 then int (royal_HashCode (rc_ServiceID config)) else rc_NodeID config)
      \<and> (rc_NodeID config = 0 \<longrightarrow> 0 \<le> royal_node conf \<and> royal_node conf < 1024)"
proof -
  have f: "rc_ServiceID conf = rc_ServiceID (default_identity (quad a b c d) config)"
    "rc_NodeID conf = rc_NodeID (default_identity (quad a b c d) config)"
    using royal_Init_fields [OF assms(1), of "quad a b c d"] assms(3) by auto
  show ?thesis
  proof (cases "rc_ServiceID config = ''''")
    case True
    with f default_identity_quad(2) [OF True assms(2)] have "rc_NodeID conf = int d" by simp
    with True hash_node assms(2) show ?thesis by (simp add: royal_node_def)
  next
    case False
    with f default_identity_none(2) [OF False] hash_node show ?thesis by (simp add: royal_node_def)
  qed
qed

definition demo_config :: "royal_conf config_lib" where
  "demo_config = \<lparr>vp_Read = Some (ErrExt ''no file''), vp_Unmarshal = (\<lambda>c. (None, c)),
     env_Process = (\<lambda>c. (None, c\<lparr>rc_Listen := '':8080'', rc_NodeID := 7\<rparr>))\<rparr>"

lemma demo_config_loaded: "royal_loaded demo_config = Ret (royal_zero\<lparr>rc_Listen := '':8080'', rc_NodeID := 7\<rparr>)"
  by (simp add: royal_loaded_def demo_config_def)

lemma royal_node_bounds_example:
  "\<exists>conf. royal_conf_Init demo_config (quad 10 0 0 21) = Ret conf \<and> royal_node conf = 21"
proof -
  obtain conf where c: "royal_conf_Init demo_config (quad 10 0 0 21) = Ret conf"
    using royal_Init_fields [OF demo_config_loaded] by blast
  from royal_node_bounds [OF demo_config_loaded _ c] c show ?thesis by (simp add: royal_zero_def)
qed

text \<open>The names and nodes made of addresses are not unique: two royal services whose addresses end in the
  same number other than 0 generate identifiers with the same node, and when the digits of the first
  three numbers of both addresses read the same, they also register under the same identifier.\<close>

lemma royal_identity_collides:
  assumes "royal_loaded V = Ret config" and "rc_ServiceID config = ''''" and "0 < d" and "d < 256"
    and "royal_conf_Init V (quad a1 b1 c1 d) = Ret conf1" and "royal_conf_Init V (quad a2 b2 c2 d) = Ret conf2"
  shows "royal_node conf1 = royal_node conf2
    \<and> (show_nat a1 @ show_nat b1 @ show_nat c1 = show_nat a2 @ show_nat b2 @ show_nat c2
        \<longrightarrow> rc_ServiceID conf1 = rc_ServiceID conf2)"
proof -
  have f: "rc_ServiceID conf1 = rc_ServiceID (default_identity (quad a1 b1 c1 d) config)"
    "rc_NodeID conf1 = rc_NodeID (default_identity (quad a1 b1 c1 d) config)"
    "rc_ServiceID conf2 = rc_ServiceID (default_identity (quad a2 b2 c2 d) config)"
    "rc_NodeID conf2 = rc_NodeID (default_identity (quad a2 b2 c2 d) config)"
    using royal_Init_fields [OF assms(1), of "quad a1 b1 c1 d"] royal_Init_fields [OF assms(1), of "quad a2 b2 c2 d"]
      assms(5,6) by auto
  note q = default_identity_quad [OF assms(2,4)]
  have "show_nat a1 @ show_nat b1 @ show_nat c1 @ show_nat d = show_nat a2 @ show_nat b2 @ show_nat c2 @ show_nat d"
    if "show_nat a1 @ show_nat b1 @ show_nat c1 = show_nat a2 @ show_nat b2 @ show_nat c2"
    using that by (metis append.assoc)
  with f q assms(3) show ?thesis by (simp add: royal_node_def)
qed

lemma royal_identity_collides_example:
  "\<exists>conf1 conf2. royal_conf_Init demo_config (quad 10 1 11 21) = Ret conf1 \<and> royal_conf_Init demo_config (quad 10 11 1 21) = Ret conf2
     \<and> royal_node conf1 = royal_node conf2 \<and> rc_ServiceID conf1 = rc_ServiceID conf2"
proof -
  obtain conf1 conf2 where c: "royal_conf_Init demo_config (quad 10 1 11 21) = Ret conf1"
    "royal_conf_Init demo_config (quad 10 11 1 21) = Ret conf2"
    using royal_Init_fields [OF demo_config_loaded] by blast
  have empty: "rc_ServiceID (royal_zero\<lparr>rc_Listen := '':8080'', rc_NodeID := 7\<rparr>) = ''''" by (simp add: royal_zero_def)
  have "show_nat 10 @ show_nat 1 @ show_nat 11 = show_nat 10 @ show_nat 11 @ show_nat 1"
    by (simp add: show_nat.simps)
  with royal_identity_collides [OF demo_config_loaded empty _ _ c] c show ?thesis by simp
qed

section \<open>Start\<close>

text \<open>What the calls into mysql, gorm, snowflake, redis, consul and iris answer.\<close>

record royal_env =
  re_base_db :: "error option"
  re_base_migrate :: "error option"
  re_message_db :: "error option"
  re_message_migrate :: "error option"
  re_idgen :: "int \<Rightarrow> error option"
  re_redis :: "error option"
  re_consul :: "error option"
  re_listen :: "error option"

datatype royal_action =
    RA_Migrate string "string list"  \<comment> \<open>database, tables\<close>
  | RA_Register service
  | RA_Listen string
  | RA_Deregister string

text \<open>The entry the service registers itself under; \<open>health\<close> is the address of its metadata.\<close>

definition royal_entry :: "string \<Rightarrow> royal_conf \<Rightarrow> nat \<Rightarrow> service" where
  "royal_entry sn config meta =
     \<lparr>sv_Id = rc_ServiceID config, sv_Name = sn, sv_Address = rc_PublicAddress config, sv_Port = rc_PublicPort config,
      sv_Protocol = ''http'', sv_Namespace = '''', sv_Tags = rc_Tags config, sv_Meta = Some meta\<rparr>"

definition health_url :: "royal_conf \<Rightarrow> string" where
  "health_url config = ''http://'' @ rc_PublicAddress config @ '':'' @ show_int (rc_PublicPort config) @ ''/health''"

fun first_error :: "error option list \<Rightarrow> error option" where
  "first_error [] = None"
| "first_error (None # es) = first_error es"
| "first_error (Some e # es) = Some e"

lemma first_error_None [simp]: "first_error es = None \<longleftrightarrow> (\<forall>e \<in> set es. e = None)"
  by (induction es rule: first_error.induct) auto

text \<open>
  \<open>RunServerStart\<close>: the actions and the result; the error of \<open>Register\<close> is dropped, \<open>Deregister\<close> is
  deferred.  An action is listed when it is attempted.
\<close>

definition royal_RunServerStart :: "royal_env \<Rightarrow> string \<Rightarrow> nat \<Rightarrow> royal_conf go \<Rightarrow> unit go \<times> royal_action list" where
  "royal_RunServerStart env sn meta init =
     (case init of
        Fail e \<Rightarrow> (Fail e, [])
      | Panics m \<Rightarrow> (Panics m, [])
      | Ret config \<Rightarrow>
          (case re_base_db env of
             Some e \<Rightarrow> (Fail e, [])
           | None \<Rightarrow>
               let m1 = [RA_Migrate (rc_BaseDb config) [''Group'', ''GroupMember'']]
               in case first_error [re_base_migrate env, re_message_db env] of
                    Some e \<Rightarrow> (Fail e, m1)
                  | None \<Rightarrow>
                      let m2 = m1 @ [RA_Migrate (rc_MessageDb config) [''Group'', ''MessageContent'']]
                      in case first_error [re_message_migrate env, re_idgen env (royal_node config), re_redis env, re_consul env] of
                           Some e \<Rightarrow> (Fail e, m2)
                         | None \<Rightarrow>
                             (case re_listen env of Some e \<Rightarrow> Fail e | None \<Rightarrow> Ret (),
                              m2 @ [RA_Register (royal_entry sn config meta), RA_Listen (rc_Listen config),
                                    RA_Deregister (rc_ServiceID config)])))"

text \<open>However the start of the royal service ends, an instance it registered is deregistered at the end
  under the identifier it was registered with; it is registered only after both databases, the
  generator, redis and consul were there; and the table of message indexes, into which every message
  is inserted, is never created.\<close>

lemma royal_start_outcome:
  assumes "royal_RunServerStart env sn meta init = (r, acts)"
  shows "(\<forall>s. RA_Register s \<in> set acts \<longrightarrow> last acts = RA_Deregister (ServiceID s)
      \<and> first_error [re_base_db env, re_base_migrate env, re_message_db env, re_message_migrate env, re_redis env, re_consul env] = None
      \<and> (\<exists>config. init = Ret config \<and> re_idgen env (royal_node config) = None \<and> ServiceID s = rc_ServiceID config))
    \<and> (r = Ret () \<longrightarrow> (\<exists>s. RA_Register s \<in> set acts))
    \<and> (\<forall>db tables. RA_Migrate db tables \<in> set acts \<longrightarrow> ''MessageIndex'' \<notin> set tables)"
  using assms
  by (auto simp: royal_RunServerStart_def royal_entry_def ServiceID_def Let_def
      split: go.splits option.splits if_splits)

definition demo_env :: royal_env where
  "demo_env = \<lparr>re_base_db = None, re_base_migrate = None, re_message_db = None, re_message_migrate = None,
     re_idgen = (\<lambda>n. if 0 \<le> n \<and> n < 1024 then None else Some (ErrExt ''Node number'')), re_redis = None, re_consul = None,
     re_listen = Some (ErrExt ''address already in use'')\<rparr>"

lemma royal_start_outcome_example:
  "last (snd (royal_RunServerStart demo_env ''royal'' 0 (Ret (royal_zero\<lparr>rc_ServiceID := ''r1'', rc_NodeID := 7\<rparr>))))
     = RA_Deregister ''r1''"
proof -
  obtain r acts where o: "royal_RunServerStart demo_env ''royal'' 0 (Ret (royal_zero\<lparr>rc_ServiceID := ''r1'', rc_NodeID := 7\<rparr>)) = (r, acts)"
    by fastforce
  then have "RA_Register (royal_entry ''royal'' (royal_zero\<lparr>rc_ServiceID := ''r1'', rc_NodeID := 7\<rparr>) 0) \<in> set acts"
    by (auto simp: royal_RunServerStart_def demo_env_def royal_node_def Let_def)
  with royal_start_outcome [OF o] have "last acts
    = RA_Deregister (ServiceID (royal_entry ''royal'' (royal_zero\<lparr>rc_ServiceID := ''r1'', rc_NodeID := 7\<rparr>) 0))" by blast
  then show ?thesis by (simp add: o royal_entry_def ServiceID_def)
qed

end
