(* ===== verification/Downlink.thy ===== *)
theory Downlink
  imports Forward Server
begin

text \<open>
  The way down of \<open>container/container.go\<close>: \<open>Push\<close> sends a packet to a gateway, the gateway's
  \<open>readloop\<close> takes it off the connection and \<open>pushMessage\<close> hands it to the channels it names.
\<close>

section \<open>Push and pushMessage\<close>

text \<open>\<open>Push\<close> to the channel whose identifier is that of the gateway's server.\<close>

definition container_Push ::
    "'p pkt_lib \<Rightarrow> (string \<Rightarrow> bytes \<Rightarrow> 's \<Rightarrow> unit go \<times> 's) \<Rightarrow> string \<Rightarrow> 'p \<Rightarrow> 's \<Rightarrow> unit go \<times> 's" where
  "container_Push L push server p s = push server (p_marshal L (p_add_meta L (w_MetaDestServer L) server p)) s"

text \<open>The loop over the channels: the error of a push is only logged, a panic ends the process.\<close>

fun push_each ::
    "(string \<Rightarrow> bytes \<Rightarrow> 's \<Rightarrow> unit go \<times> 's) \<Rightarrow> string list \<Rightarrow> bytes \<Rightarrow> 's \<Rightarrow> unit go \<times> 's" where
  "push_each push [] payload s = (Ret (), s)"
| "push_each push (channel # channelIds) payload s =
     (case push channel payload s of
        (Panics m, s1) \<Rightarrow> (Panics m, s1)
      | (_, s1) \<Rightarrow> push_each push channelIds payload s1)"

text \<open>\<open>me\<close> is \<open>c.Srv.ServiceID()\<close>; the assertion that the channels are a string panics otherwise.\<close>

definition pushMessage ::
    "'p pkt_lib \<Rightarrow> string \<Rightarrow> (string \<Rightarrow> bytes \<Rightarrow> 's \<Rightarrow> unit go \<times> 's) \<Rightarrow> 'p \<Rightarrow> 's \<Rightarrow> unit go \<times> 's" where
  "pushMessage L me push packet s =
     (let server = p_get_meta L (w_MetaDestServer L) packet
      in if server \<noteq> Some (MStr me)
         then (Fail (ErrMsg (''dest_server is incorrect, '' @ meta_text server @ '' != '' @ me)), s)
         else case p_get_meta L (w_MetaDestChannels L) packet of
                None \<Rightarrow> (Fail (ErrMsg ''dest_channels is nil''), s)
              | Some (MOther _) \<Rightarrow> (Panics ''interface conversion'', s)
              | Some (MStr channels) \<Rightarrow>
                  let packet1 = p_del_meta L (w_MetaDestChannels L) (p_del_meta L (w_MetaDestServer L) packet)
                  in push_each push (go_split CHR '','' channels) (p_marshal L packet1) s)"

section \<open>readloop\<close>

text \<open>
  \<open>read\<close> is the client's \<open>Read\<close>; the loop ends with its error, and \<open>None\<close> is a loop that goes on for
  ever.  Frames that are not binary, payloads that do not decode and failed pushes are skipped.
\<close>

partial_function (option) container_readloop ::
    "'p pkt_lib \<Rightarrow> string \<Rightarrow> ('k \<Rightarrow> frame go \<times> 'k) \<Rightarrow> (string \<Rightarrow> bytes \<Rightarrow> 's \<Rightarrow> unit go \<times> 's)
       \<Rightarrow> 'k \<Rightarrow> 's \<Rightarrow> (unit go \<times> 'k \<times> 's) option" where
  "container_readloop L me read push cli s =
     (case read cli of
        (Fail e, cli1) \<Rightarrow> Some (Fail e, cli1, s)
      | (Panics m, cli1) \<Rightarrow> Some (Panics m, cli1, s)
      | (Ret fr, cli1) \<Rightarrow>
          if GetOpCode fr \<noteq> OpBinary then container_readloop L me read push cli1 s
          else case p_must_read L (GetPayload fr) of
                 Inl e \<Rightarrow> container_readloop L me read push cli1 s
               | Inr packet \<Rightarrow>
                   (case pushMessage L me push packet s of
                      (Panics m, s1) \<Rightarrow> Some (Panics m, cli1, s1)
                    | (_, s1) \<Rightarrow> container_readloop L me read push cli1 s1))"

text \<open>What one frame does to the server, and a list of them up to the first panic.\<close>

definition frame_effect ::
    "'p pkt_lib \<Rightarrow> string \<Rightarrow> (string \<Rightarrow> bytes \<Rightarrow> 's \<Rightarrow> unit go \<times> 's) \<Rightarrow> frame \<Rightarrow> 's \<Rightarrow> unit go \<times> 's" where
  "frame_effect L me push fr s =
     (if OpCode fr \<noteq> OpBinary then (Ret (), s)
      else case p_must_read L (Payload fr) of
             Inl _ \<Rightarrow> (Ret (), s)
           | Inr packet \<Rightarrow> ignore_error (pushMessage L me push packet s))"

fun frames_effect ::
    "'p pkt_lib \<Rightarrow> string \<Rightarrow> (string \<Rightarrow> bytes \<Rightarrow> 's \<Rightarrow> unit go \<times> 's) \<Rightarrow> frame list \<Rightarrow> 's \<Rightarrow> unit go \<times> 's" where
  "frames_effect L me push [] s = (Ret (), s)"
| "frames_effect L me push (f # fs) s = go_bind (frame_effect L me push f s) (\<lambda>_ s1. frames_effect L me push fs s1)"

lemma tcp_Read_frame:
  assumes "c_conn cli = Some k" "avail (rd k) = frame_enc f @ rest" "frame_ok f"
  shows "tcp_Read tcp_ops cli = (if OpCode f = OpClose then Fail (ErrMsg ''conn is closed'') else Ret f,
    cli\<lparr>c_conn := Some (k\<lparr>rd := (rd k)\<lparr>avail := rest\<rparr>\<rparr>)\<rparr>)"
  using assms by (simp add: tcp_Read_def tcp_ops_def tcp_ReadFrame_enc GetOpCode_def)

lemma tcp_Read_end:
  assumes "c_conn cli = Some k" "avail (rd k) = []"
  shows "tcp_Read tcp_ops cli = (Fail (rerr (rd k)), cli)"
  using assms by (simp add: tcp_Read_def tcp_ops_def tcp_ReadFrame_end)

lemma container_readloop_frames:
  assumes "c_conn cli = Some k" "avail (rd k) = concat (map frame_enc fs)"
    "\<forall>f \<in> set fs. frame_ok f \<and> OpCode f \<noteq> OpClose"
  shows "\<exists>cli'. container_readloop L me (tcp_Read tcp_ops) push cli s =
    Some (case fst (frames_effect L me push fs s) of Panics m \<Rightarrow> Panics m | _ \<Rightarrow> Fail (rerr (rd k)),
          cli', snd (frames_effect L me push fs s))"
  using assms
proof (induction fs arbitrary: cli k s)
  case Nil
  then show ?case by (subst container_readloop.simps) (simp add: tcp_Read_end)
next
  case (Cons f fs)
  let ?k = "k\<lparr>rd := (rd k)\<lparr>avail := concat (map frame_enc fs)\<rparr>\<rparr>"
  let ?cli = "cli\<lparr>c_conn := Some ?k\<rparr>"
  have read: "tcp_Read tcp_ops cli = (Ret f, ?cli)"
    using tcp_Read_frame [of cli k f "concat (map frame_enc fs)"] Cons.prems by simp
  have IH: "\<exists>cli'. container_readloop L me (tcp_Read tcp_ops) push ?cli s1 =
    Some (case fst (frames_effect L me push fs s1) of Panics m \<Rightarrow> Panics m | _ \<Rightarrow> Fail (rerr (rd k)),
          cli', snd (frames_effect L me push fs s1))" for s1
    using Cons.IH [of ?cli ?k s1] Cons.prems(3) by (simp cong: go.case_cong)
  show ?case
  proof (cases "OpCode f = OpBinary")
    case False
    then show ?thesis using IH [of s] read
      by (subst container_readloop.simps) (simp add: GetOpCode_def frame_effect_def)
  next
    case True
    show ?thesis
    proof (cases "p_must_read L (Payload f)")
      case (Inl e)
      then show ?thesis using IH [of s] read True
        by (subst container_readloop.simps) (simp add: GetOpCode_def GetPayload_def frame_effect_def)
    next
      case (Inr p)
      obtain r s1 where "pushMessage L me push p s = (r, s1)" by fastforce
      then show ?thesis using IH [of s1] read True Inr
        by (subst container_readloop.simps)
           (cases r; simp add: GetOpCode_def GetPayload_def frame_effect_def ignore_error_def)
    qed
  qed
qed

section \<open>Delivery to the channels of a server\<close>

text \<open>A server whose \<open>Push\<close> answers an unknown identifier with an error.\<close>

locale quiet_push_server = push_server +
  assumes miss_quiet: "target i s = None \<Longrightarrow> \<not> is_panic (fst (push i p s))"

context push_server begin

lemma push_each_counts:
  assumes "inv s" and "\<And>i t. i \<in> set is \<Longrightarrow> inv t \<Longrightarrow> (\<forall>j. target j t = target j s) \<Longrightarrow> \<not> is_panic (fst (push i p t))"
  shows "fst (push_each push is p s) = Ret () \<and> inv (snd (push_each push is p s))
    \<and> (\<forall>j. target j (snd (push_each push is p s)) = target j s)
    \<and> (\<forall>k. conn (snd (push_each push is p s)) k =
         ((\<lambda>c. snd (give p c)) ^^ length (filter (\<lambda>i. target i s = Some k) is)) (conn s k))"
  using assms
proof (induction "is" arbitrary: s)
  case (Cons i "is")
  obtain r t where push: "push i p s = (r, t)" by fastforce
  have np: "\<not> is_panic r" using Cons.prems(2) [of i s] Cons.prems(1) push by simp
  have t: "inv t \<and> (\<forall>j. target j t = target j s)
      \<and> (\<forall>k. conn t k = (if target i s = Some k then snd (give p (conn s k)) else conn s k))"
  proof (cases "target i s")
    case None
    then show ?thesis using push_miss [of i s p] push Cons.prems(1) by simp
  next
    case (Some k)
    then show ?thesis using push_hit [OF Cons.prems(1) Some, of p] push by auto
  qed
  have IH: "fst (push_each push is p t) = Ret () \<and> inv (snd (push_each push is p t))
    \<and> (\<forall>j. target j (snd (push_each push is p t)) = target j t)
    \<and> (\<forall>k. conn (snd (push_each push is p t)) k =
         ((\<lambda>c. snd (give p c)) ^^ length (filter (\<lambda>i. target i t = Some k) is)) (conn t k))"
    using t Cons.prems(2) by (intro Cons.IH) auto
  have eq: "push_each push (i # is) p s = push_each push is p t" using push np by (cases r) auto
  show ?case unfolding eq using IH t funpow_swap1 [of "\<lambda>c. snd (give p c)"] by simp
qed simp

lemma push_each_hits:
  assumes "inv s" "\<forall>i \<in> set is. target i s \<noteq> None" "\<And>c. \<not> is_panic (fst (give p c))"
  shows "fst (push_each push is p s) = Ret ()"
    and "conn (snd (push_each push is p s)) k =
      ((\<lambda>c. snd (give p c)) ^^ length (filter (\<lambda>i. target i s = Some k) is)) (conn s k)"
proof -
  have "\<not> is_panic (fst (push i p t))"
    if "i \<in> set is" "inv t" "\<forall>j. target j t = target j s" for i t
  proof -
    from that assms(2) obtain k where "target i t = Some k" by fastforce
    from push_hit [OF that(2) this, of p] assms(3) show ?thesis by simp
  qed
  from push_each_counts [OF assms(1) this] show "fst (push_each push is p s) = Ret ()"
    "conn (snd (push_each push is p s)) k =
      ((\<lambda>c. snd (give p c)) ^^ length (filter (\<lambda>i. target i s = Some k) is)) (conn s k)" by blast+
qed

end

context quiet_push_server begin

lemma push_each_all:
  assumes "inv s" "\<And>c. \<not> is_panic (fst (give p c))"
  shows "fst (push_each push is p s) = Ret ()"
    and "conn (snd (push_each push is p s)) k =
      ((\<lambda>c. snd (give p c)) ^^ length (filter (\<lambda>i. target i s = Some k) is)) (conn s k)"
proof -
  have "\<not> is_panic (fst (push i p t))" if "inv t" for i t
  proof (cases "target i t")
    case (Some k)
    from push_hit [OF that this, of p] assms(2) show ?thesis by simp
  qed (rule miss_quiet)
  then show "fst (push_each push is p s) = Ret ()"
    "conn (snd (push_each push is p s)) k =
      ((\<lambda>c. snd (give p c)) ^^ length (filter (\<lambda>i. target i s = Some k) is)) (conn s k)"
    using push_each_counts [OF assms(1), of "is" p] by blast+
qed

end

interpretation wsq: quiet_push_server "ws_srv_Push wfr" srv_target conn_of "deliver wfr" srv_inv
  for wfr :: "'c \<Rightarrow> opcode \<Rightarrow> bytes \<Rightarrow> unit go \<times> 'c"
  by unfold_locales (simp add: srv_target_def ws_srv_Push_def)

definition write_safe :: "('c \<Rightarrow> opcode \<Rightarrow> bytes \<Rightarrow> unit go \<times> 'c) \<Rightarrow> bool" where
  "write_safe wfr \<longleftrightarrow> (\<forall>c code p. \<not> is_panic (fst (wfr c code p)))"

lemma deliver_safe: "write_safe wfr \<Longrightarrow> \<not> is_panic (fst (deliver wfr p c))"
  by (simp add: deliver_def write_safe_def)

text \<open>A packet addressed to this gateway and to the channels \<open>is\<close>.\<close>

definition addressed :: "'p pkt_lib \<Rightarrow> string \<Rightarrow> string list \<Rightarrow> 'p \<Rightarrow> bool" where
  "addressed L me is p \<longleftrightarrow> p_get_meta L (w_MetaDestServer L) p = Some (MStr me)
     \<and> p_get_meta L (w_MetaDestChannels L) p = Some (MStr (go_join '','' is))
     \<and> is \<noteq> [] \<and> (\<forall>i \<in> set is. CHR '','' \<notin> set i)"

definition user_bytes :: "'p pkt_lib \<Rightarrow> 'p \<Rightarrow> bytes" where
  "user_bytes L p = p_marshal L (p_del_meta L (w_MetaDestChannels L) (p_del_meta L (w_MetaDestServer L) p))"

lemma pushMessage_addressed:
  "addressed L me is p \<Longrightarrow> pushMessage L me push p s = push_each push is (user_bytes L p) s"
  by (simp add: pushMessage_def addressed_def user_bytes_def Let_def go_split_join)

lemma tcp_write_safe: "write_safe tcp_WriteFrame"
  using tcp_ops_safe by (simp add: write_safe_def ops_safe_def tcp_ops_def)

text \<open>A chat server with the gateway gate01 as its only connection.\<close>

definition demo_chat :: "tcp_conn server" where
  "demo_chat = snd (the (tcp_run (served_run 0 ''gate01'') (srv_init demo_conns)))"

lemma demo_chat_facts:
  "srv_inv demo_chat" "srv_target ''gate01'' demo_chat = Some 0" "room (wr (conn_of demo_chat 0)) = None"
proof -
  obtain s where s: "tcp_run (served_run 0 ''gate01'') (srv_init demo_conns) = Some (Ret (), s)"
    using served_run_result by blast
  then have "demo_chat = s" by (simp add: demo_chat_def)
  with srv_run_inv [OF s is_order_rev srv_inv_init] show "srv_inv demo_chat" by simp
  show "srv_target ''gate01'' demo_chat = Some 0" "room (wr (conn_of demo_chat 0)) = None"
    by (simp_all add: demo_chat_def served_run_def srv_init_def srv_goto_def Done_ready_def NewEvent_def Let_def
        srv_target_def conn_of_def SetReadWait_def SetWriteWait_def NewChannel_def demo_conns_def buffer_def)
qed

definition demo_addressed :: demo_pkt where
  "demo_addressed = \<lparr>d_command = ''chat.user.talk'', d_channel = ''ch1'',
     d_metas = [(''dest.server'', ''g1''), (''dest.channels'', ''gate01,nobody'')]\<rparr>"

lemma demo_addressed: "addressed demo_lib ''g1'' [''gate01'', ''nobody''] demo_addressed"
  by (simp add: addressed_def demo_addressed_def demo_lib_def)

lemma demo_chat_nobody: "srv_target ''nobody'' demo_chat = None"
  by (simp add: demo_chat_def served_run_def srv_init_def srv_goto_def Done_ready_def NewEvent_def Let_def srv_target_def)

text \<open>On a WebSocket gateway a packet addressed to it is written to exactly the connections of the
  channels it names, as often as each is named, without the routing metadata; channels that are not
  connected are passed over.\<close>

lemma ws_push_message:
  assumes "srv_inv s" and "write_safe wfr" and "addressed L me is p"
  shows "fst (pushMessage L me (ws_srv_Push wfr) p s) = Ret ()
    \<and> conn_of (snd (pushMessage L me (ws_srv_Push wfr) p s)) k =
       ((\<lambda>c. snd (deliver wfr (user_bytes L p) c)) ^^ length (filter (\<lambda>i. srv_target i s = Some k) is)) (conn_of s k)"
  by (simp add: pushMessage_addressed [OF assms(3)] wsq.push_each_all [OF assms(1) deliver_safe [OF assms(2)]])

lemma ws_push_message_example:
  "conn_of (snd (pushMessage demo_lib ''g1'' (ws_srv_Push tcp_WriteFrame) demo_addressed demo_chat)) 0 =
     snd (deliver tcp_WriteFrame (user_bytes demo_lib demo_addressed) (conn_of demo_chat 0))"
  using ws_push_message [OF demo_chat_facts(1) tcp_write_safe demo_addressed, of 0]
  by (simp add: demo_chat_facts(2) demo_chat_nobody)

lemma tcp_push_each_miss:
  "srv_inv s \<Longrightarrow> write_safe wfr \<Longrightarrow> \<exists>i \<in> set is. srv_target i s = None
     \<Longrightarrow> is_panic (fst (push_each (tcp_srv_Push wfr) is p s))"
proof (induction "is" arbitrary: s)
  case (Cons i "is")
  show ?case
  proof (cases "srv_target i s")
    case None
    then show ?thesis by (simp add: tcp_srv_Push_def srv_target_def)
  next
    case (Some k)
    obtain r t where push: "tcp_srv_Push wfr i p s = (r, t)" by fastforce
    note hit = tcps.push_hit [OF Cons.prems(1) Some, of wfr p, unfolded push, simplified]
    have "\<not> is_panic r" using hit deliver_safe [OF Cons.prems(2)] by simp
    moreover have "is_panic (fst (push_each (tcp_srv_Push wfr) is p t))"
      using hit Some Cons.prems by (intro Cons.IH) auto
    ultimately show ?thesis using push by (cases r) simp_all
  qed
qed simp

text \<open>On a TCP gateway the same packet is written to exactly those connections when every channel it
  names is connected; when one of them is not, the process panics.\<close>

lemma tcp_push_message:
  assumes "srv_inv s" and "write_safe wfr" and "addressed L me is p"
    and "out = pushMessage L me (tcp_srv_Push wfr) p s"
  shows "if \<forall>i \<in> set is. srv_target i s \<noteq> None
    then fst out = Ret ()
      \<and> (\<forall>k. conn_of (snd out) k =
         ((\<lambda>c. snd (deliver wfr (user_bytes L p) c)) ^^ length (filter (\<lambda>i. srv_target i s = Some k) is)) (conn_of s k))
    else is_panic (fst out)"
proof (cases "\<forall>i \<in> set is. srv_target i s \<noteq> None")
  case True
  have "\<not> is_panic (fst (deliver wfr q c))" for q c by (rule deliver_safe [OF assms(2)])
  from tcps.push_each_hits [OF assms(1) True this] True show ?thesis
    by (simp add: assms(4) pushMessage_addressed [OF assms(3)])
next
  case False
  with tcp_push_each_miss [OF assms(1,2)] show ?thesis
    by (auto simp: assms(4) pushMessage_addressed [OF assms(3)])
qed

lemma tcp_push_message_example:
  "is_panic (fst (pushMessage demo_lib ''g1'' (tcp_srv_Push tcp_WriteFrame) demo_addressed demo_chat))"
  using tcp_push_message [OF demo_chat_facts(1) tcp_write_safe demo_addressed refl]
  by (simp add: demo_chat_nobody)

end
