(* ===== verification/Router.thy ===== *)
theory Router
  imports Storage Downlink
begin

text \<open>
  \<open>core/router.go\<close> and \<open>core/context.go\<close>: commands and their handlers, and the context a handler
  answers and dispatches through; the dispatcher of \<open>services/server/serv/handler.go\<close>.  \<open>'s\<close> is the
  state of the process the handlers change.  A dispatcher's \<open>Push\<close> changes the packet it is given, so
  the packet is part of its result.
\<close>

section \<open>The context\<close>

type_synonym ('p, 's) dispatcher = "string \<Rightarrow> string list \<Rightarrow> 'p \<Rightarrow> 's \<Rightarrow> unit go \<times> 'p \<times> 's"

record 'p ctx =
  cx_request :: 'p
  cx_session :: "session option"

definition auto_session :: "string \<Rightarrow> string \<Rightarrow> session" where
  "auto_session channel gate = no_session\<lparr>s_ChannelId := channel, s_GateId := gate, s_Tags := [''AutoGenerated'']\<rparr>"

text \<open>Without a session one is made from the packet; the gateway's name must be a string there.\<close>

definition Session :: "'p pkt_lib \<Rightarrow> 'p ctx \<Rightarrow> session go" where
  "Session L c =
     (case cx_session c of
        Some sn \<Rightarrow> Ret sn
      | None \<Rightarrow>
          (case p_get_meta L (w_MetaDestServer L) (cx_request c) of
             Some (MStr server) \<Rightarrow> Ret (auto_session (p_channel L (cx_request c)) server)
           | _ \<Rightarrow> Panics ''interface conversion''))"

definition Resp ::
    "'p pkt_lib \<Rightarrow> ('p, 's) dispatcher \<Rightarrow> 'p ctx \<Rightarrow> status \<Rightarrow> body \<Rightarrow> 's \<Rightarrow> unit go \<times> 's" where
  "Resp L push c status body s =
     (let packet = p_set_flag L Flag_Response (p_write_body L body (p_set_status L status (p_new_from L (cx_request c))))
      in case Session L c of
           Ret sn \<Rightarrow> (let (r, _, s1) = push (s_GateId sn) [s_ChannelId sn] packet s in (r, s1))
         | Fail e \<Rightarrow> (Fail e, s)
         | Panics m \<Rightarrow> (Panics m, s))"

definition RespWithError ::
    "'p pkt_lib \<Rightarrow> ('p, 's) dispatcher \<Rightarrow> 'p ctx \<Rightarrow> status \<Rightarrow> error \<Rightarrow> 's \<Rightarrow> unit go \<times> 's" where
  "RespWithError L push c status err s = Resp L push c status (B_ErrorResp (err_text err)) s"

text \<open>The receivers by gateway, without the channel of the sender itself.\<close>

fun group_recvs :: "string \<Rightarrow> location list \<Rightarrow> (string \<times> string list) list \<Rightarrow> (string \<times> string list) list" where
  "group_recvs own [] g = g"
| "group_recvs own (revc # revcs) g =
     (if ChannelID revc = own then group_recvs own revcs g
      else
        let g1 = (if map_of g (GateId revc) = None then AList.update (GateId revc) [] g else g)
        in group_recvs own revcs
             (AList.update (GateId revc) (the (map_of g1 (GateId revc)) @ [ChannelID revc]) g1))"

text \<open>One packet for all gateways; the first error ends the loop.\<close>

fun push_groups ::
    "('p, 's) dispatcher \<Rightarrow> (string \<times> string list) list \<Rightarrow> 'p \<Rightarrow> 's \<Rightarrow> unit go \<times> 's" where
  "push_groups push [] packet s = (Ret (), s)"
| "push_groups push ((gateway, ids) # groups) packet s =
     (case push gateway ids packet s of
        (Ret _, packet1, s1) \<Rightarrow> push_groups push groups packet1 s1
      | (r, _, s1) \<Rightarrow> (r, s1))"

definition Dispatch ::
    "'p pkt_lib \<Rightarrow> ('p, 's) dispatcher \<Rightarrow> ((string \<times> string list) list \<Rightarrow> (string \<times> string list) list)
       \<Rightarrow> 'p ctx \<Rightarrow> body \<Rightarrow> location list \<Rightarrow> 's \<Rightarrow> unit go \<times> 's" where
  "Dispatch L push \<pi> c body revcs s =
     (if length revcs = 0 then (Ret (), s)
      else
        let packet = p_write_body L body (p_set_flag L Flag_Push (p_new_from L (cx_request c)))
        in case Session L c of
             Ret sn \<Rightarrow> push_groups push (\<pi> (group_recvs (s_ChannelId sn) revcs [])) packet s
           | Fail e \<Rightarrow> (Fail e, s)
           | Panics m \<Rightarrow> (Panics m, s))"

section \<open>The router\<close>

text \<open>
  A handler sees the context through \<open>IContext\<close>, which has no \<open>Next\<close>: what it can do is change the
  state of the process.  A nil handler is \<open>None\<close>.
\<close>

type_synonym ('p, 's) handler = "'p ctx \<Rightarrow> 's \<Rightarrow> unit go \<times> 's"

type_synonym ('p, 's) func_tree = "string \<Rightarrow> ('p, 's) handler option list option"

definition NewTree :: "('p, 's) func_tree" where "NewTree = (\<lambda>_. None)"

definition Handle :: "string \<Rightarrow> ('p, 's) handler option list \<Rightarrow> ('p, 's) func_tree \<Rightarrow> ('p, 's) func_tree" where
  "Handle path handlers t = t(path \<mapsto> (case t path of None \<Rightarrow> [] | Some hs \<Rightarrow> hs) @ handlers)"

definition GetPath :: "string \<Rightarrow> ('p, 's) func_tree \<Rightarrow> ('p, 's) handler option list option" where
  "GetPath path t = t path"

text \<open>\<open>Next\<close> from index \<open>i\<close>: the index moves before the handler runs, and comes back with the result.\<close>

definition Next ::
    "('p, 's) handler option list \<Rightarrow> nat \<Rightarrow> 'p ctx \<Rightarrow> 's \<Rightarrow> (unit go \<times> 's) \<times> nat" where
  "Next handlers i c s =
     (if i \<ge> length handlers then ((Ret (), s), i)
      else case handlers ! i of None \<Rightarrow> ((Ret (), s), Suc i) | Some f \<Rightarrow> (f c s, Suc i))"

definition serveContext ::
    "'p pkt_lib \<Rightarrow> ('p, 's) func_tree \<Rightarrow> 'p ctx \<Rightarrow> 's \<Rightarrow> unit go \<times> 's" where
  "serveContext L t c s =
     (case GetPath (p_command L (cx_request c)) t of
        None \<Rightarrow> fst (Next [] 0 c s)
      | Some chain \<Rightarrow> fst (Next chain 0 c s))"

text \<open>\<open>has_dispatcher\<close> and \<open>has_cache\<close> say that the arguments of \<open>Serve\<close> are not nil.\<close>

definition Serve ::
    "'p pkt_lib \<Rightarrow> ('p, 's) func_tree \<Rightarrow> bool \<Rightarrow> bool \<Rightarrow> 'p \<Rightarrow> session option \<Rightarrow> 's \<Rightarrow> unit go \<times> 's" where
  "Serve L t has_dispatcher has_cache packet session s =
     (if \<not> has_dispatcher then (Fail (ErrMsg ''dispacher is nil''), s)
      else if \<not> has_cache then (Fail (ErrMsg ''cache is nil''), s)
      else serveContext L t \<lparr>cx_request = packet, cx_session = session\<rparr> s)"

section \<open>serv.ServerDispatcher\<close>

text \<open>Both \<open>Push\<close> here and \<open>container.Push\<close> add their entry to the caller's packet.\<close>

definition ServerDispatcher_Push ::
    "'p pkt_lib \<Rightarrow> (string \<Rightarrow> bytes \<Rightarrow> 's \<Rightarrow> unit go \<times> 's) \<Rightarrow> ('p, 's) dispatcher" where
  "ServerDispatcher_Push L push gateway channels p s =
     (let p1 = p_add_meta L (w_MetaDestChannels L) (go_join '','' channels) p;
          (r, s1) = container_Push L push gateway p1 s
      in (r, p_add_meta L (w_MetaDestServer L) gateway p1, s1))"

section \<open>Which handler runs\<close>

fun handle_all :: "(string \<times> ('p, 's) handler option list) list \<Rightarrow> ('p, 's) func_tree \<Rightarrow> ('p, 's) func_tree" where
  "handle_all [] t = t"
| "handle_all ((path, hs) # rs) t = handle_all rs (Handle path hs t)"

lemma no_path: "path \<notin> fst ` set rs \<Longrightarrow> filter (\<lambda>r. fst r = path) rs = []"
  by (force simp: filter_empty_conv)

lemma handle_all_path:
  "handle_all rs t path = (if path \<in> fst ` set rs
     then Some ((case t path of None \<Rightarrow> [] | Some hs \<Rightarrow> hs) @ concat (map snd (filter (\<lambda>r. fst r = path) rs)))
     else t path)"
proof (induction rs arbitrary: t)
  case (Cons r rs)
  obtain q hs where r: "r = (q, hs)" by fastforce
  have none: "filter (\<lambda>r. fst r = path) rs = []" if "path \<notin> fst ` set rs"
    using that by (rule no_path)
  show ?case
  proof (cases "q = path")
    case True
    then have "Handle q hs t path = Some ((case t path of None \<Rightarrow> [] | Some l \<Rightarrow> l) @ hs)"
      by (simp add: Handle_def)
    with True show ?thesis using Cons.IH [of "Handle q hs t"] none by (cases "path \<in> fst ` set rs") (simp_all add: r)
  next
    case False
    then have "Handle q hs t path = t path" by (simp add: Handle_def)
    with False show ?thesis using Cons.IH [of "Handle q hs t"] none by (cases "path \<in> fst ` set rs") (simp_all add: r)
  qed
qed simp

lemma Next_hd: "fst (Next hs 0 c s) = (case hs of Some f # _ \<Rightarrow> f c s | _ \<Rightarrow> (Ret (), s))"
  by (cases hs) (auto simp: Next_def split: option.splits)

text \<open>After any registrations, serving a packet runs the first handler ever registered for its command
  and no other, and does nothing at all, not even an answer, for a command without handlers.\<close>

lemma serve_first_handler:
  "Serve L (handle_all rs NewTree) True True packet session s =
     (case concat (map snd (filter (\<lambda>r. fst r = p_command L packet) rs)) of
        Some f # _ \<Rightarrow> f \<lparr>cx_request = packet, cx_session = session\<rparr> s
      | _ \<Rightarrow> (Ret (), s))"
proof (cases "p_command L packet \<in> fst ` set rs")
  case True
  then show ?thesis
    by (simp add: Serve_def serveContext_def GetPath_def handle_all_path NewTree_def Next_hd)
next
  case False
  then show ?thesis
    by (simp add: Serve_def serveContext_def GetPath_def handle_all_path NewTree_def Next_hd no_path)
qed

section \<open>Grouping the receivers\<close>

definition gate_ids :: "string \<Rightarrow> string \<Rightarrow> location list \<Rightarrow> string list" where
  "gate_ids own gate revcs = map ChannelID (filter (\<lambda>l. ChannelID l \<noteq> own \<and> GateId l = gate) revcs)"

lemma group_recvs_map:
  "map_of (group_recvs own revcs g) gate =
     (if gate_ids own gate revcs = [] then map_of g gate
      else Some ((case map_of g gate of None \<Rightarrow> [] | Some ids \<Rightarrow> ids) @ gate_ids own gate revcs))"
proof (induction revcs arbitrary: g)
  case (Cons r revcs)
  then show ?case by (auto simp: gate_ids_def Let_def update_conv' split: option.splits)
qed (simp add: gate_ids_def)

lemma group_recvs_distinct: "distinct (map fst g) \<Longrightarrow> distinct (map fst (group_recvs own revcs g))"
  by (induction revcs arbitrary: g) (simp_all add: Let_def distinct_update)

text \<open>The receivers of a dispatch are grouped by gateway, each gateway once, with the channels in the
  order they were given; the sender's own channel is in no group and every other receiver is in the
  group of its gateway.\<close>

lemma dispatch_groups:
  "distinct (map fst (group_recvs own revcs []))
   \<and> set (group_recvs own revcs []) = {(gate, ids). ids = gate_ids own gate revcs \<and> ids \<noteq> []}"
proof
  show d: "distinct (map fst (group_recvs own revcs []))" by (rule group_recvs_distinct) simp
  show "set (group_recvs own revcs []) = {(gate, ids). ids = gate_ids own gate revcs \<and> ids \<noteq> []}"
  proof -
    have "(gate, ids) \<in> set (group_recvs own revcs []) \<longleftrightarrow> ids = gate_ids own gate revcs \<and> ids \<noteq> []" for gate ids
      unfolding map_of_eq_Some_iff [OF d, symmetric] group_recvs_map by auto
    then show ?thesis by auto
  qed
qed

end
