(* ===== verification/Delivery.thy ===== *)
theory Delivery
  imports Router
begin

text \<open>
  What the parts do together on the way down: the dispatcher of a chat server, its connection to a
  gateway, the gateway's read loop and its channels.  The packet library enters through its documented
  behaviour: a meta entry that is added is found, entries are appended, so the first one added under
  a key stays the one that is found, and a marshalled packet is read back.
\<close>

section \<open>One packet for several gateways\<close>

definition metas_first :: "'p pkt_lib \<Rightarrow> bool" where
  "metas_first L \<longleftrightarrow> (\<forall>k v v' p. p_get_meta L k p = Some v \<longrightarrow> p_get_meta L k (p_add_meta L k v' p) = Some v)"

lemma demo_metas_first: "metas_first demo_lib"
  by (auto simp: metas_first_def demo_lib_def map_add_def split: option.splits)

definition route_metas :: "'p pkt_lib \<Rightarrow> string \<Rightarrow> string list \<Rightarrow> 'p \<Rightarrow> 'p" where
  "route_metas L gateway ids p = p_add_meta L (w_MetaDestServer L) gateway (p_add_meta L (w_MetaDestChannels L) (go_join '','' ids) p)"

lemma ServerDispatcher_Push_eq:
  "ServerDispatcher_Push L push g ids p s =
     (fst (push g (p_marshal L (route_metas L g ids p)) s), route_metas L g ids p,
      snd (push g (p_marshal L (route_metas L g ids p)) s))"
  by (simp add: ServerDispatcher_Push_def container_Push_def route_metas_def Let_def split_beta)

definition no_metas :: "'p pkt_lib \<Rightarrow> 'p \<Rightarrow> bool" where
  "no_metas L p \<longleftrightarrow> p_get_meta L (w_MetaDestServer L) p = None \<and> p_get_meta L (w_MetaDestChannels L) p = None"

lemma route_metas_fresh:
  assumes "meta_laws L" "no_metas L p"
  shows "p_get_meta L (w_MetaDestServer L) (route_metas L g ids p) = Some (MStr g)"
    "p_get_meta L (w_MetaDestChannels L) (route_metas L g ids p) = Some (MStr (go_join '','' ids))"
  using assms by (auto simp: meta_laws_def no_metas_def route_metas_def)

lemma route_metas_again:
  assumes "meta_laws L" "metas_first L" "p_get_meta L (w_MetaDestServer L) p = Some v"
  shows "p_get_meta L (w_MetaDestServer L) (route_metas L g ids p) = Some v"
  using assms by (simp add: meta_laws_def metas_first_def route_metas_def)

text \<open>A server that records what is pushed on which channel.\<close>

definition record_push :: "string \<Rightarrow> bytes \<Rightarrow> (string \<times> bytes) list \<Rightarrow> unit go \<times> (string \<times> bytes) list" where
  "record_push g b log = (Ret (), log @ [(g, b)])"

lemma push_groups_record:
  "push_groups (ServerDispatcher_Push L record_push) ((g, ids) # gs) p log =
     push_groups (ServerDispatcher_Push L record_push) gs (route_metas L g ids p)
       (log @ [(g, p_marshal L (route_metas L g ids p))])"
  by (simp add: ServerDispatcher_Push_eq [of L record_push g ids p log] record_push_def)

definition ignored_by :: "'p pkt_lib \<Rightarrow> string \<Rightarrow> bytes \<Rightarrow> bool" where
  "ignored_by L me b \<longleftrightarrow> (\<forall>q. p_must_read L b = Inr q \<longrightarrow> p_get_meta L (w_MetaDestServer L) q \<noteq> Some (MStr me))"

lemma ignored_effect:
  "ignored_by L me b \<Longrightarrow> frame_effect L me push \<lparr>OpCode = OpBinary, Payload = b\<rparr> s = (Ret (), s)"
  by (auto simp: frame_effect_def ignored_by_def pushMessage_def ignore_error_def Let_def split: sum.splits)

lemma push_groups_stale:
  assumes "meta_laws L" "metas_first L" "wire_laws L" "p_get_meta L (w_MetaDestServer L) p = Some (MStr g1)"
    "g1 \<notin> set (map fst gs)"
  shows "\<exists>log'. push_groups (ServerDispatcher_Push L record_push) gs p log = (Ret (), log @ log')
    \<and> map fst log' = map fst gs \<and> (\<forall>(g, b) \<in> set log'. ignored_by L g b)"
  using assms(4,5)
proof (induction gs arbitrary: p log)
  case (Cons x gs)
  obtain g ids where x: "x = (g, ids)" by fastforce
  let ?p = "route_metas L g ids p"
  have meta: "p_get_meta L (w_MetaDestServer L) ?p = Some (MStr g1)"
    by (rule route_metas_again [OF assms(1,2) Cons.prems(1)])
  have "ignored_by L g (p_marshal L ?p)"
    using assms(3) meta Cons.prems(2) x by (auto simp: ignored_by_def wire_laws_def)
  moreover obtain log' where "push_groups (ServerDispatcher_Push L record_push) gs ?p (log @ [(g, p_marshal L ?p)]) =
      (Ret (), (log @ [(g, p_marshal L ?p)]) @ log')" "map fst log' = map fst gs" "\<forall>(g, b) \<in> set log'. ignored_by L g b"
    using Cons.IH [OF meta, of "log @ [(g, p_marshal L ?p)]"] Cons.prems(2) by auto
  ultimately show ?case
    by (intro exI [of _ "(g, p_marshal L ?p) # log'"]) (simp add: x push_groups_record del: push_groups.simps)
qed simp

text \<open>When a message goes to receivers on several gateways, the same packet is sent to each of them and
  keeps the routing entries of the first: the first gateway is addressed with its own channels, and
  every other gateway refuses the packet as not meant for it, so that none of its users gets it.\<close>

lemma later_gateways_refuse:
  assumes "meta_laws L" and "metas_first L" and "wire_laws L" and "no_metas L p"
    and "distinct (g1 # map fst gs)" and "ids1 \<noteq> []" and "\<forall>i \<in> set ids1. CHR '','' \<notin> set i"
  shows "\<exists>b log q. push_groups (ServerDispatcher_Push L record_push) ((g1, ids1) # gs) p [] = (Ret (), (g1, b) # log)
    \<and> p_must_read L b = Inr q \<and> addressed L g1 ids1 q
    \<and> map fst log = map fst gs
    \<and> (\<forall>(g, b') \<in> set log. \<forall>push t. frame_effect L g push \<lparr>OpCode = OpBinary, Payload = b'\<rparr> t = (Ret (), t))"
proof -
  let ?q = "route_metas L g1 ids1 p"
  note meta = route_metas_fresh [OF assms(1,4), of g1 ids1]
  obtain log where log: "push_groups (ServerDispatcher_Push L record_push) gs ?q [(g1, p_marshal L ?q)] =
      (Ret (), [(g1, p_marshal L ?q)] @ log)" "map fst log = map fst gs" "\<forall>(g, b) \<in> set log. ignored_by L g b"
    using push_groups_stale [OF assms(1-3) meta(1)] assms(5) by fastforce
  have "push_groups (ServerDispatcher_Push L record_push) ((g1, ids1) # gs) p [] = (Ret (), (g1, p_marshal L ?q) # log)"
    using log(1) by (simp add: push_groups_record del: push_groups.simps)
  moreover have "p_must_read L (p_marshal L ?q) = Inr ?q" using assms(3) by (simp add: wire_laws_def)
  moreover have "addressed L g1 ids1 ?q" using meta assms(6,7) by (simp add: addressed_def)
  moreover have "\<forall>(g, b') \<in> set log. \<forall>push t. frame_effect L g push \<lparr>OpCode = OpBinary, Payload = b'\<rparr> t = (Ret (), t)"
    using log(3) ignored_effect by fastforce
  ultimately show ?thesis using log(2) by blast
qed

section \<open>From the dispatcher to the user's connection\<close>

lemma tcp_deliver:
  assumes "room (wr c) = None" "payload \<noteq> []"
  shows "deliver tcp_WriteFrame payload c = (Ret (), c\<lparr>wr := (wr c)\<lparr>written := written (wr c)
    @ frame_enc \<lparr>OpCode = OpBinary, Payload = payload\<rparr>\<rparr>\<rparr>)"
  using assms by (simp add: deliver_def tcp_WriteFrame_healthy)

text \<open>C7: A packet a chat server dispatches to channels of a gateway goes out on the gateway's connection as
  bytes from which the gateway's read loop writes the packet to exactly the connections of those
  channels, each as often as it is named, and to no other.\<close>

theorem downlink_delivers:
  assumes "meta_laws L" and "wire_laws L" and "no_metas L p"
    and "ids \<noteq> []" and "\<forall>i \<in> set ids. CHR '','' \<notin> set i"
    and "q = route_metas L gate ids p" and "p_marshal L q \<noteq> []" and "length (p_marshal L q) < 2 ^ 32"
    and "srv_inv s" and "srv_target gate s = Some k" and "room (wr (conn_of s k)) = None"
    and "write_safe wfr"
    and "ServerDispatcher_Push L (tcp_srv_Push tcp_WriteFrame) gate ids p s = (r, q', s')"
  shows "r = Ret () \<and> (\<exists>bs. written (wr (conn_of s' k)) = written (wr (conn_of s k)) @ bs
    \<and> (\<forall>cli conn t. c_conn cli = Some conn \<and> avail (rd conn) = bs \<and> srv_inv t \<longrightarrow>
         (\<exists>cli' t'. container_readloop L gate (tcp_Read tcp_ops) (ws_srv_Push wfr) cli t =
              Some (Fail (rerr (rd conn)), cli', t')
            \<and> (\<forall>j. conn_of t' j = ((\<lambda>c. snd (deliver wfr (user_bytes L q) c))
                 ^^ length (filter (\<lambda>i. srv_target i t = Some j) ids)) (conn_of t j)))))"
proof -
  let ?f = "\<lparr>OpCode = OpBinary, Payload = p_marshal L q\<rparr>"
  note hit = tcps.push_hit [OF assms(9,10), of tcp_WriteFrame "p_marshal L q"]
  have r: "r = fst (tcp_srv_Push tcp_WriteFrame gate (p_marshal L q) s)"
    "s' = snd (tcp_srv_Push tcp_WriteFrame gate (p_marshal L q) s)"
    using assms(13) by (auto simp: ServerDispatcher_Push_eq assms(6))
  note out = tcp_deliver [OF assms(11,7)]
  have sent: "r = Ret ()" "written (wr (conn_of s' k)) = written (wr (conn_of s k)) @ frame_enc ?f"
    using hit out by (simp_all add: r)
  have addr: "addressed L gate ids q"
    using route_metas_fresh [OF assms(1,3), of gate ids] assms(4,5) by (simp add: addressed_def assms(6))
  have ok: "frame_ok ?f" using assms(8) by (simp add: frame_ok_def)
  have "\<exists>cli' t'. container_readloop L gate (tcp_Read tcp_ops) (ws_srv_Push wfr) cli t = Some (Fail (rerr (rd conn)), cli', t')
      \<and> (\<forall>j. conn_of t' j = ((\<lambda>c. snd (deliver wfr (user_bytes L q) c))
           ^^ length (filter (\<lambda>i. srv_target i t = Some j) ids)) (conn_of t j))"
    if hyps: "c_conn cli = Some conn" "avail (rd conn) = frame_enc ?f" "srv_inv t" for cli conn t
  proof -
    have all: "fst (push_each (ws_srv_Push wfr) ids b t) = Ret ()"
      "conn_of (snd (push_each (ws_srv_Push wfr) ids b t)) j = ((\<lambda>c. snd (deliver wfr b c))
         ^^ length (filter (\<lambda>i. srv_target i t = Some j) ids)) (conn_of t j)" for b j
      by (rule wsq.push_each_all [OF hyps(3) deliver_safe [OF assms(12)]])+
    have nil: "frames_effect L gate (ws_srv_Push wfr) [] = (\<lambda>u. (Ret (), u))" by (simp add: fun_eq_iff)
    have effect: "frames_effect L gate (ws_srv_Push wfr) [?f] t = ignore_error (push_each (ws_srv_Push wfr) ids (user_bytes L q) t)"
      using assms(2) by (simp add: frame_effect_def wire_laws_def pushMessage_addressed [OF addr] nil)
    moreover have "fst (ignore_error (push_each (ws_srv_Push wfr) ids (user_bytes L q) t)) = Ret ()"
      using all(1) by (simp add: ignore_error_def split_beta)
    moreover obtain cli' where "container_readloop L gate (tcp_Read tcp_ops) (ws_srv_Push wfr) cli t =
        Some (case fst (frames_effect L gate (ws_srv_Push wfr) [?f] t) of Panics m \<Rightarrow> Panics m | _ \<Rightarrow> Fail (rerr (rd conn)),
          cli', snd (frames_effect L gate (ws_srv_Push wfr) [?f] t))"
      using container_readloop_frames [OF hyps(1), of "[?f]" L gate "ws_srv_Push wfr" t] hyps(2) ok by auto
    ultimately show ?thesis using all(2) by simp
  qed
  with sent show ?thesis by (intro conjI exI [of _ "frame_enc ?f"]) blast+
qed

definition demo_push_pkt :: demo_pkt where
  "demo_push_pkt = \<lparr>d_command = ''chat.user.talk'', d_channel = ''ch1'', d_metas = []\<rparr>"

lemma demo_no_metas: "no_metas demo_lib demo_push_pkt"
  by (simp add: no_metas_def demo_lib_def demo_push_pkt_def)

lemma later_gateways_refuse_example:
  "\<exists>b b2. push_groups (ServerDispatcher_Push demo_lib record_push) [(''g1'', [''u1'']), (''g2'', [''u2''])] demo_push_pkt []
      = (Ret (), [(''g1'', b), (''g2'', b2)])
    \<and> frame_effect demo_lib ''g2'' record_push \<lparr>OpCode = OpBinary, Payload = b2\<rparr> [] = (Ret (), [])"
proof -
  obtain b log where r: "push_groups (ServerDispatcher_Push demo_lib record_push) ((''g1'', [''u1'']) # [(''g2'', [''u2''])]) demo_push_pkt []
      = (Ret (), (''g1'', b) # log)" "map fst log = map fst [(''g2'', [''u2''])]"
    "\<forall>(g, b') \<in> set log. \<forall>push (t :: (string \<times> bytes) list).
       frame_effect demo_lib g push \<lparr>OpCode = OpBinary, Payload = b'\<rparr> t = (Ret (), t)"
    using later_gateways_refuse [OF demo_meta_laws demo_metas_first demo_wire_laws demo_no_metas,
        of "''g1''" "[(''g2'', [''u2''])]" "[''u1'']"] by auto
  then obtain b2 where "log = [(''g2'', b2)]" by (cases log) auto
  with r show ?thesis by auto
qed

lemma demo_routed: "p_marshal demo_lib (route_metas demo_lib ''gate01'' [''u1''] demo_push_pkt) \<noteq> []"
    "length (p_marshal demo_lib (route_metas demo_lib ''gate01'' [''u1''] demo_push_pkt)) < 2 ^ 32"
  by (simp_all add: route_metas_def demo_lib_def demo_push_pkt_def demo_enc_def enc_str_def)

theorem downlink_delivers_witness:
  "fst (ServerDispatcher_Push demo_lib (tcp_srv_Push tcp_WriteFrame) ''gate01'' [''u1''] demo_push_pkt demo_chat) = Ret ()"
proof -
  obtain r q' s' where o: "ServerDispatcher_Push demo_lib (tcp_srv_Push tcp_WriteFrame) ''gate01'' [''u1''] demo_push_pkt demo_chat
      = (r, q', s')" by (rule prod_cases3)
  from downlink_delivers [OF demo_meta_laws demo_wire_laws demo_no_metas _ _ refl demo_routed demo_chat_facts
      tcp_write_safe o] o
  show ?thesis by simp
qed

end
