(* ===== verification/Services.thy ===== *)
theory Services
  imports Delivery
begin

text \<open>
  The chat and login server: \<open>services/server/serv/handler.go\<close> (handshake of a gateway, dispatch of its
  packets to the router) and the handlers of \<open>services/server/handler\<close>.  \<open>ISessionStorage\<close> is a record of
  functions on the state of the process, as the Go interface is; the message service of the royal
  service is reached over HTTP and is an argument.
\<close>

section \<open>Interfaces\<close>

record 's session_store =
  ss_Add :: "session \<Rightarrow> 's \<Rightarrow> unit go \<times> 's"
  ss_Delete :: "string \<Rightarrow> string \<Rightarrow> 's \<Rightarrow> unit go \<times> 's"
  ss_Get :: "string \<Rightarrow> 's \<Rightarrow> session go"
  ss_GetLocation :: "string \<Rightarrow> string \<Rightarrow> 's \<Rightarrow> location go"

record insert_req =
  rq_Sender :: string
  rq_Dest :: string
  rq_SendTime :: int
  rq_Message :: message_req

section \<open>LoginHandler\<close>

definition DoSysLogin ::
    "'p pkt_lib \<Rightarrow> ('p, 's) dispatcher \<Rightarrow> ((string \<times> string list) list \<Rightarrow> (string \<times> string list) list)
       \<Rightarrow> 's session_store \<Rightarrow> ('p, 's) handler" where
  "DoSysLogin L push \<pi> store c s =
     (case p_read_session L (cx_request c) of
        Inl err \<Rightarrow> ignore_error (RespWithError L push c St_InvalidPacketBody err s)
      | Inr session \<Rightarrow>
          let found = ss_GetLocation store (s_Account session) '''' s;
              rest = (\<lambda>kicked. go_bind kicked (\<lambda>_ s1.
                case ss_Add store session s1 of
                  (Panics m, s2) \<Rightarrow> (Panics m, s2)
                | (Fail err, s2) \<Rightarrow> ignore_error (RespWithError L push c St_SystemException err s2)
                | (Ret _, s2) \<Rightarrow> ignore_error (Resp L push c St_Success (B_LoginResp (s_ChannelId session)) s2)))
          in case found of
               Panics m \<Rightarrow> (Panics m, s)
             | Fail err \<Rightarrow>
                 if err \<noteq> ErrSessionNil
                 then ignore_error (RespWithError L push c St_SystemException ErrSessionNil s)
                 else rest (Ret (), s)
             | Ret old \<Rightarrow> rest (ignore_error (Dispatch L push \<pi> c (B_KickoutNotify (ChannelID old)) [old] s)))"

definition DoSysLogout ::
    "'p pkt_lib \<Rightarrow> ('p, 's) dispatcher \<Rightarrow> 's session_store \<Rightarrow> ('p, 's) handler" where
  "DoSysLogout L push store c s =
     (case Session L c of
        Panics m \<Rightarrow> (Panics m, s)
      | Fail e \<Rightarrow> (Fail e, s)
      | Ret sn \<Rightarrow>
          (case ss_Delete store (s_Account sn) (s_ChannelId sn) s of
             (Panics m, s1) \<Rightarrow> (Panics m, s1)
           | (Fail err, s1) \<Rightarrow> ignore_error (RespWithError L push c St_SystemException err s1)
           | (Ret _, s1) \<Rightarrow> ignore_error (Resp L push c St_Success B_nil s1)))"

section \<open>ChatHandler\<close>

definition ErrNoDestination :: error where "ErrNoDestination = ErrMsg ''dest is empty''"

text \<open>
  \<open>insert_user\<close> is \<open>msgService.InsertUser\<close>, which stores the message, \<open>now\<close> the time in nanoseconds.
  The rest of the handler, once the receiver's location is known (\<open>None\<close>: not online):
\<close>

definition talk ::
    "'p pkt_lib \<Rightarrow> ('p, 's) dispatcher \<Rightarrow> ((string \<times> string list) list \<Rightarrow> (string \<times> string list) list)
       \<Rightarrow> (string \<Rightarrow> insert_req \<Rightarrow> 's \<Rightarrow> (error + int) \<times> 's) \<Rightarrow> int \<Rightarrow> message_req \<Rightarrow> location option \<Rightarrow> ('p, 's) handler" where
  "talk L push \<pi> insert_user now req loc c s =
     (case Session L c of
        Panics m \<Rightarrow> (Panics m, s)
      | Fail e \<Rightarrow> (Fail e, s)
      | Ret sn \<Rightarrow>
          (case insert_user (s_App sn)
              \<lparr>rq_Sender = s_Account sn, rq_Dest = p_dest L (cx_request c), rq_SendTime = now, rq_Message = req\<rparr> s of
             (Inl err, s1) \<Rightarrow> ignore_error (RespWithError L push c St_SystemException err s1)
           | (Inr msgId, s1) \<Rightarrow>
               (case (case loc of
                    None \<Rightarrow> (Ret (), s1)
                  | Some l \<Rightarrow> Dispatch L push \<pi> c (B_MessagePush msgId req (s_Account sn) now) [l] s1) of
                  (Panics m, s2) \<Rightarrow> (Panics m, s2)
                | (Fail err, s2) \<Rightarrow> ignore_error (RespWithError L push c St_SystemException err s2)
                | (Ret _, s2) \<Rightarrow> ignore_error (Resp L push c St_Success (B_MessageResp msgId now) s2))))"

definition DoUserTalk ::
    "'p pkt_lib \<Rightarrow> ('p, 's) dispatcher \<Rightarrow> ((string \<times> string list) list \<Rightarrow> (string \<times> string list) list)
       \<Rightarrow> 's session_store \<Rightarrow> (string \<Rightarrow> insert_req \<Rightarrow> 's \<Rightarrow> (error + int) \<times> 's) \<Rightarrow> int \<Rightarrow> ('p, 's) handler" where
  "DoUserTalk L push \<pi> store insert_user now c s =
     (if p_dest L (cx_request c) = ''''
      then ignore_error (RespWithError L push c St_NoDestination ErrNoDestination s)
      else case p_read_message L (cx_request c) of
        Inl err \<Rightarrow> ignore_error (RespWithError L push c St_InvalidPacketBody err s)
      | Inr req \<Rightarrow>
          (case ss_GetLocation store (p_dest L (cx_request c)) '''' s of
             Panics m \<Rightarrow> (Panics m, s)
           | Fail err \<Rightarrow>
               if err \<noteq> ErrSessionNil then ignore_error (RespWithError L push c St_SystemException err s)
               else talk L push \<pi> insert_user now req None c s
           | Ret l \<Rightarrow> talk L push \<pi> insert_user now req (Some l) c s))"

section \<open>ServHandler\<close>

text \<open>\<open>service_id\<close> reads the handshake message; an error of the decoder is ignored by the code.\<close>

definition ServHandler_Accept ::
    "('c \<Rightarrow> frame go \<times> 'c) \<Rightarrow> (bytes \<Rightarrow> string) \<Rightarrow> 'c \<Rightarrow> string go \<times> 'c" where
  "ServHandler_Accept rfr service_id conn =
     (case rfr conn of
        (Fail e, c1) \<Rightarrow> (Fail e, c1)
      | (Panics m, c1) \<Rightarrow> (Panics m, c1)
      | (Ret fr, c1) \<Rightarrow> (Ret (service_id (GetPayload fr)), c1))"

definition RespErr ::
    "'p pkt_lib \<Rightarrow> (bytes \<Rightarrow> 's \<Rightarrow> unit go \<times> 's) \<Rightarrow> 'p \<Rightarrow> status \<Rightarrow> 's \<Rightarrow> unit go \<times> 's" where
  "RespErr L ag_push p status s =
     ag_push (p_marshal L (p_set_flag L Flag_Response (p_set_status L status (p_new_from L p)))) s"

definition ServHandler_Receive ::
    "'p pkt_lib \<Rightarrow> ('p, 's) func_tree \<Rightarrow> 's session_store \<Rightarrow> (bytes \<Rightarrow> 's \<Rightarrow> unit go \<times> 's) \<Rightarrow> bytes \<Rightarrow> 's \<Rightarrow> unit go \<times> 's" where
  "ServHandler_Receive L t store ag_push payload s =
     (case p_must_read L payload of
        Inl _ \<Rightarrow> (Ret (), s)
      | Inr packet \<Rightarrow>
          if p_command L packet = w_CommandLoginSignIn L
          then case p_get_meta L (w_MetaDestServer L) packet of
                 Some (MStr server) \<Rightarrow>
                   ignore_error (Serve L t True True packet (Some (auto_session (p_channel L packet) server)) s)
               | _ \<Rightarrow> (Panics ''interface conversion'', s)
          else case ss_Get store (p_channel L packet) s of
                 Panics m \<Rightarrow> (Panics m, s)
               | Fail err \<Rightarrow>
                   ignore_error (RespErr L ag_push packet
                     (if err = ErrSessionNil then St_SessionNotFound else St_SystemException) s)
               | Ret session \<Rightarrow> ignore_error (Serve L t True True packet (Some session) s))"

definition ServHandler_Disconnect :: "string \<Rightarrow> 's \<Rightarrow> unit go \<times> 's" where
  "ServHandler_Disconnect i s = (Ret (), s)"

text \<open>The routes \<open>RunServerStart\<close> registers: the chat handler is not among them.\<close>

definition server_routes ::
    "'p pkt_lib \<Rightarrow> ('p, 's) dispatcher \<Rightarrow> ((string \<times> string list) list \<Rightarrow> (string \<times> string list) list)
       \<Rightarrow> 's session_store \<Rightarrow> ('p, 's) func_tree" where
  "server_routes L push \<pi> store =
     Handle (w_CommandLoginSignOut L) [Some (DoSysLogout L push store)]
       (Handle (w_CommandLoginSignIn L) [Some (DoSysLogin L push \<pi> store)] NewTree)"

section \<open>A dispatcher that keeps a log\<close>

text \<open>
  The state is what the store keeps and the list of pushes made so far: the gateway, the channels and
  the packet.
\<close>

type_synonym ('p, 'r) logged = "'r \<times> (string \<times> string list \<times> 'p) list"

definition log_push :: "('p, ('p, 'r) logged) dispatcher" where
  "log_push g ids p s = (Ret (), p, (fst s, snd s @ [(g, ids, p)]))"

definition redis_store :: "session_codec \<Rightarrow> 'r redis \<Rightarrow> ('r \<times> 'x) session_store" where
  "redis_store C R =
     \<lparr>ss_Add = (\<lambda>sn s. let (x, r) = rs_Add C R sn (fst s) in (x, (r, snd s))),
      ss_Delete = (\<lambda>a c s. let (x, r) = rs_Delete R a c (fst s) in (x, (r, snd s))),
      ss_Get = (\<lambda>c s. rs_Get C R c (fst s)),
      ss_GetLocation = (\<lambda>a d s. rs_GetLocation R a d (fst s))\<rparr>"

definition reply :: "'p pkt_lib \<Rightarrow> 'p ctx \<Rightarrow> status \<Rightarrow> body \<Rightarrow> 'p" where
  "reply L c status body = p_set_flag L Flag_Response (p_write_body L body (p_set_status L status (p_new_from L (cx_request c))))"

definition notice :: "'p pkt_lib \<Rightarrow> 'p ctx \<Rightarrow> body \<Rightarrow> 'p" where
  "notice L c body = p_write_body L body (p_set_flag L Flag_Push (p_new_from L (cx_request c)))"

lemma Resp_log:
  "cx_session c = Some own \<Longrightarrow> Resp L log_push c status body (r, l) =
     (Ret (), (r, l @ [(s_GateId own, [s_ChannelId own], reply L c status body)]))"
  by (simp add: Resp_def Session_def log_push_def reply_def Let_def)

lemma RespWithError_log:
  "cx_session c = Some own \<Longrightarrow> RespWithError L log_push c status err (r, l) =
     (Ret (), (r, l @ [(s_GateId own, [s_ChannelId own], reply L c status (B_ErrorResp (err_text err)))]))"
  by (simp add: RespWithError_def Resp_log)

text \<open>A message for one location, which is not sent to the sender itself.\<close>

definition to_location :: "session \<Rightarrow> 'p \<Rightarrow> location \<Rightarrow> (string \<times> string list \<times> 'p) list" where
  "to_location own p l = (if ChannelID l = s_ChannelId own then [] else [(GateId l, [ChannelID l], p)])"

lemma is_order_single: "is_order \<pi> \<Longrightarrow> \<pi> [x] = [x]"
  using is_order_set [of \<pi> "[x]"] is_order_length [of \<pi> "[x]"] by (cases "\<pi> [x]") auto

lemma Dispatch_log:
  assumes "cx_session c = Some own" "is_order \<pi>"
  shows "Dispatch L log_push \<pi> c body [l] (r, lg) = (Ret (), (r, lg @ to_location own (notice L c body) l))"
  using assms
  by (simp add: Dispatch_def Session_def to_location_def notice_def Let_def is_order_single log_push_def)

lemma ignore_error_Ret [simp]: "ignore_error (Ret x, s) = (Ret (), s)"
  by (simp add: ignore_error_def)

section \<open>Login\<close>

definition answer :: "session \<Rightarrow> 'p \<Rightarrow> string \<times> string list \<times> 'p" where
  "answer own p = (s_GateId own, [s_ChannelId own], p)"


definition demo_own :: session where
  "demo_own = auto_session ''ch1'' ''gate01''"

definition demo_ctx :: "demo_pkt ctx" where
  "demo_ctx = \<lparr>cx_request = demo_push_pkt, cx_session = Some demo_own\<rparr>"

lemma demo_ctx_session: "cx_session demo_ctx = Some demo_own"
  by (simp add: demo_ctx_def)


text \<open>A logout deletes the location of the session's account and the session of its channel, and is
  answered exactly once, with success when redis accepted both.\<close>

lemma logout_outcome:
  assumes "cx_session c = Some own"
    and "rs_Delete R (s_Account own) (s_ChannelId own) r = (x, r1)"
  shows "\<exists>p. DoSysLogout L log_push (redis_store C R) c (r, lg) = (Ret (), (r1, lg @ [answer own p]))
    \<and> (x = Ret () \<longrightarrow> p = reply L c St_Success B_nil)
    \<and> (\<forall>e. x = Fail e \<longrightarrow> p = reply L c St_SystemException (B_ErrorResp (err_text e)))"
proof -
  have "\<not> is_panic x"
    using assms(2) by (auto simp: rs_Delete_def redis_err_def split: prod.splits option.splits)
  then show ?thesis using assms
    by (cases x) (simp_all add: DoSysLogout_def Session_def redis_store_def RespWithError_log Resp_log answer_def)
qed

lemma logout_outcome_example:
  "\<exists>p. DoSysLogout demo_lib log_push (redis_store demo_codec demo_redis) demo_ctx (Map.empty, []) =
     (Ret (), (Map.empty, [answer demo_own p]))"
proof -
  have "rs_Delete demo_redis (s_Account demo_own) (s_ChannelId demo_own) Map.empty = (Ret (), Map.empty)"
    by (simp add: rs_Delete_def demo_redis_def redis_err_def)
  from logout_outcome [OF demo_ctx_session this, of demo_lib demo_codec "[]"] show ?thesis by auto
qed

section \<open>Chat\<close>

text \<open>C24: A message to an account is refused when it names no receiver, does not decode or the store fails;
  otherwise it is stored before anything is sent, then pushed to the receiver's location when there
  is one, and the sender gets exactly one answer, carrying the stored message's identifier.\<close>

theorem talk_outcome:
  assumes "cx_session c = Some own" and "is_order \<pi>" and "p_dest L (cx_request c) \<noteq> ''''"
    and "p_read_message L (cx_request c) = Inr req"
    and "loc = rs_GetLocation R (p_dest L (cx_request c)) '''' r" and "is_ret loc \<or> loc = Fail ErrSessionNil"
    and "insert_user (s_App own) \<lparr>rq_Sender = s_Account own, rq_Dest = p_dest L (cx_request c),
           rq_SendTime = now, rq_Message = req\<rparr> (r, lg) = (stored, (r1, lg1))"
  shows "DoUserTalk L log_push \<pi> (redis_store C R) insert_user now c (r, lg) =
     (Ret (), (r1, lg1 @ (case stored of
        Inl e \<Rightarrow> [answer own (reply L c St_SystemException (B_ErrorResp (err_text e)))]
      | Inr i \<Rightarrow>
          (case loc of Ret l \<Rightarrow> to_location own (notice L c (B_MessagePush i req (s_Account own) now)) l | _ \<Rightarrow> [])
          @ [answer own (reply L c St_Success (B_MessageResp i now))])))"
proof -
  have ses: "Session L c = Ret own" using assms(1) by (simp add: Session_def)
  note sims = DoUserTalk_def talk_def redis_store_def ses assms(3,4,7) RespWithError_log [OF assms(1)]
    Resp_log [OF assms(1)] Dispatch_log [OF assms(1,2)] answer_def
  show ?thesis
  proof (cases loc)
    case (Ret l)
    then show ?thesis using assms(5) by (cases stored) (simp_all add: sims)
  next
    case (Fail e)
    then show ?thesis using assms(5,6) by (cases stored) (simp_all add: sims)
  next
    case (Panics m)
    then show ?thesis using assms(6) by simp
  qed
qed

theorem talk_outcome_witness:
  "\<exists>p. DoUserTalk (demo_lib\<lparr>p_dest := \<lambda>_. ''bob''\<rparr>) log_push rev (redis_store demo_codec demo_redis)
       (\<lambda>_ _ s. (Inr 7, s)) 1000 demo_ctx (Map.empty, []) = (Ret (), (Map.empty, [answer demo_own p]))"
proof -
  let ?L = "demo_lib\<lparr>p_dest := \<lambda>_. ''bob''\<rparr>"
  have read: "p_read_message ?L (cx_request demo_ctx) = Inr \<lparr>mr_Type = 1, mr_Body = ''hi'', mr_Extra = ''''\<rparr>"
    and dest: "p_dest ?L (cx_request demo_ctx) \<noteq> ''''" by (simp_all add: demo_lib_def)
  have off: "rs_GetLocation demo_redis (p_dest ?L (cx_request demo_ctx)) '''' Map.empty = Fail ErrSessionNil"
    by (simp add: rs_GetLocation_def demo_redis_def)
  show ?thesis
    using talk_outcome [OF demo_ctx_session is_order_rev dest read off [symmetric], of "\<lambda>_ _ s. (Inr 7, s)" 1000 "[]"
        "Inr 7" Map.empty "[]" demo_codec] by auto
qed

section \<open>What the server does not serve\<close>

definition fresh_from :: "'p pkt_lib \<Rightarrow> bool" where
  "fresh_from L \<longleftrightarrow> (\<forall>p st. p_get_meta L (w_MetaDestServer L) (p_set_flag L Flag_Response (p_set_status L st (p_new_from L p))) = None)"

text \<open>A packet whose channel has no session in the store is answered, on the gateway's own channel, with
  a packet that carries no routing metadata; every gateway refuses such a packet, so the answer never
  reaches the user, and no handler runs.\<close>

lemma no_session_answer_lost:
  assumes "p_must_read L payload = Inr p" and "p_command L p \<noteq> w_CommandLoginSignIn L"
    and "ss_Get store (p_channel L p) s = Fail ErrSessionNil" and "fresh_from L" and "wire_laws L"
  shows "\<exists>b. ServHandler_Receive L t store ag_push payload s = ignore_error (ag_push b s)
    \<and> (\<forall>me push u. frame_effect L me push \<lparr>OpCode = OpBinary, Payload = b\<rparr> u = (Ret (), u))"
proof -
  let ?q = "p_set_flag L Flag_Response (p_set_status L St_SessionNotFound (p_new_from L p))"
  have "ignored_by L me (p_marshal L ?q)" for me
    using assms(4,5) by (simp add: ignored_by_def fresh_from_def wire_laws_def)
  then have "\<forall>me push u. frame_effect L me push \<lparr>OpCode = OpBinary, Payload = p_marshal L ?q\<rparr> u = (Ret (), u)"
    by (intro allI ignored_effect)
  moreover have "ServHandler_Receive L t store ag_push payload s = ignore_error (ag_push (p_marshal L ?q) s)"
    using assms(1-3) by (simp add: ServHandler_Receive_def RespErr_def)
  ultimately show ?thesis by blast
qed

lemma demo_fresh_from: "fresh_from demo_lib"
  by (simp add: fresh_from_def demo_lib_def)

lemma demo_read: "p_must_read demo_lib (demo_enc p) = Inr p"
  using demo_wire_laws by (simp add: wire_laws_def demo_lib_def)

lemma no_session_answer_lost_example:
  "\<exists>b. ServHandler_Receive demo_lib NewTree (redis_store demo_codec demo_redis)
      (\<lambda>x s. (Ret (), (fst s, snd s @ [(''gate01'', [], x)]))) (demo_enc demo_push_pkt) (Map.empty, [])
     = (Ret (), (Map.empty, [(''gate01'', [], b)]))"
proof -
  have get: "ss_Get (redis_store demo_codec demo_redis) (p_channel demo_lib demo_push_pkt) (Map.empty, []) = Fail ErrSessionNil"
    by (simp add: redis_store_def rs_Get_def demo_redis_def)
  have cmd: "p_command demo_lib demo_push_pkt \<noteq> w_CommandLoginSignIn demo_lib"
    by (simp add: demo_lib_def demo_push_pkt_def)
  from no_session_answer_lost [OF demo_read cmd get demo_fresh_from demo_wire_laws, of NewTree
      "\<lambda>x s. (Ret (), (fst s, snd s @ [(''gate01'', [], x)]))"]
  show ?thesis by auto
qed

text \<open>The server as it is assembled runs no handler for any command but login and logout: a message to
  another user, received from a channel with a valid session, changes nothing and is not answered.\<close>

lemma chat_not_routed:
  assumes "p_must_read L payload = Inr p"
    and "p_command L p \<noteq> w_CommandLoginSignIn L" and "p_command L p \<noteq> w_CommandLoginSignOut L"
    and "ss_Get store (p_channel L p) s = Ret session"
  shows "ServHandler_Receive L (server_routes L push \<pi> store) store ag_push payload s = (Ret (), s)"
proof -
  have "GetPath (p_command L p) (server_routes L push \<pi> store) = None"
    using assms(2,3) by (simp add: GetPath_def server_routes_def Handle_def NewTree_def)
  then show ?thesis using assms(1,2,4)
    by (simp add: ServHandler_Receive_def Serve_def serveContext_def Next_def)
qed

lemma chat_not_routed_example:
  "ServHandler_Receive demo_lib (server_routes demo_lib log_push rev (redis_store demo_codec demo_redis))
     (redis_store demo_codec demo_redis) (\<lambda>_ s. (Ret (), s)) (demo_enc demo_push_pkt)
     ([KeySession ''ch1'' \<mapsto> sn_Marshal demo_codec demo_own], [])
   = (Ret (), ([KeySession ''ch1'' \<mapsto> sn_Marshal demo_codec demo_own], []))"
proof -
  have get: "ss_Get (redis_store demo_codec demo_redis) (p_channel demo_lib demo_push_pkt)
      ([KeySession ''ch1'' \<mapsto> sn_Marshal demo_codec demo_own], []) = Ret demo_own"
    using demo_codec_laws
    by (simp add: redis_store_def rs_Get_def demo_redis_def demo_lib_def demo_push_pkt_def codec_laws_def)
  have cmd: "p_command demo_lib demo_push_pkt \<noteq> w_CommandLoginSignIn demo_lib"
    "p_command demo_lib demo_push_pkt \<noteq> w_CommandLoginSignOut demo_lib"
    by (simp_all add: demo_lib_def demo_push_pkt_def)
  show ?thesis by (rule chat_not_routed [OF demo_read cmd get])
qed

end
