(* ===== verification/Gateway.thy ===== *)
theory Gateway
  imports Services
begin

text \<open>
  The gateway: \<open>services/gateway/serv/handler.go\<close> (the login handshake of a user, the forwarding of his
  packets, the logout when he is gone), \<open>serv/dialer.go\<close> (the handshake with a service) and the assembly
  in \<open>services/gateway/server.go\<close>.  \<open>forward\<close> is \<open>container.Forward\<close>; the token parser, the sequence
  numbers of \<open>wire.Seq\<close> and the message encodings are outside the repository and are arguments.
\<close>

section \<open>Addresses and identifiers\<close>

text \<open>\<open>ReplaceAllString\<close> with the pattern \<open>:[0-9]+$\<close>: a final colon with digits is cut off.\<close>

definition getIP :: "string \<Rightarrow> string" where
  "getIP remoteAddr =
     (if remoteAddr = '''' then ''''
      else
        let digits = takeWhile is_digit_char (rev remoteAddr);
            front = dropWhile is_digit_char (rev remoteAddr)
        in if digits \<noteq> [] \<and> front \<noteq> [] \<and> hd front = CHR '':'' then rev (tl front) else remoteAddr)"

definition generateChannelID :: "string \<Rightarrow> string \<Rightarrow> nat \<Rightarrow> string" where
  "generateChannelID serviceID account n = serviceID @ ''_'' @ account @ ''_'' @ show_nat n"

text \<open>A channel identifier determines the part before the sequence number and the number, whatever
  characters the account has.\<close>

lemma generateChannelID_inj:
  "generateChannelID g a m = generateChannelID h b n \<longleftrightarrow> m = n \<and> g @ ''_'' @ a = h @ ''_'' @ b"
proof
  assume eq: "generateChannelID g a m = generateChannelID h b n"
  have no: "CHR ''_'' \<notin> set (show_nat k)" for k
    using show_nat_digits [of "CHR ''_''" k] by (auto simp: is_digit_char_def)
  have "(g @ ''_'' @ a) @ CHR ''_'' # show_nat m = (h @ ''_'' @ b) @ CHR ''_'' # show_nat n"
    using eq by (simp add: generateChannelID_def)
  from append_sep_inj [OF this no no] show "m = n \<and> g @ ''_'' @ a = h @ ''_'' @ b" using show_nat_inj by blast
next
  assume "m = n \<and> g @ ''_'' @ a = h @ ''_'' @ b"
  then have "(g @ ''_'' @ a) @ ''_'' @ show_nat m = (h @ ''_'' @ b) @ ''_'' @ show_nat n" by simp
  then show "generateChannelID g a m = generateChannelID h b n" by (simp add: generateChannelID_def)
qed

lemma generateChannelID_number: "generateChannelID g a m = generateChannelID h b n \<Longrightarrow> m = n"
  by (simp add: generateChannelID_inj)

text \<open>The address of a connection is \<open>host:port\<close>; the port is what is cut off.\<close>

lemma getIP_host_port: "getIP (host @ CHR '':'' # show_nat port) = host"
proof -
  have nd: "\<not> is_digit_char CHR '':''" by (simp add: is_digit_char_def)
  have all: "\<forall>c \<in> set (rev (show_nat port)). is_digit_char c" using show_nat_digits by auto
  have t: "takeWhile is_digit_char (rev (show_nat port) @ CHR '':'' # rev host) = rev (show_nat port)"
    and d: "dropWhile is_digit_char (rev (show_nat port) @ CHR '':'' # rev host) = CHR '':'' # rev host"
    using all nd by (simp_all add: takeWhile_append dropWhile_append)
  show ?thesis using t d by (simp add: getIP_def)
qed

section \<open>The handshake with a service\<close>

text \<open>
  \<open>dial\<close> is \<open>net.DialTimeout\<close>, \<open>handshake\<close> the encoding of the request; a connection on which the request
  could not be written is dropped without being closed.
\<close>

definition DialAndHandshake ::
    "(string \<Rightarrow> int \<Rightarrow> error + 'c) \<Rightarrow> ('c \<Rightarrow> opcode \<Rightarrow> bytes \<Rightarrow> unit go \<times> 'c) \<Rightarrow> (string \<Rightarrow> bytes) \<Rightarrow> string \<Rightarrow> 'c dialer" where
  "DialAndHandshake dial wfr handshake me ctx =
     (case dial (dc_Address ctx) (dc_Timeout ctx) of
        Inl e \<Rightarrow> Fail e
      | Inr conn \<Rightarrow>
          (case wfr conn OpBinary (handshake me) of
             (Ret _, conn1) \<Rightarrow> Ret (Some conn1)
           | (Fail e, _) \<Rightarrow> Fail e
           | (Panics m, _) \<Rightarrow> Panics m))"

lemma DialAndHandshake_good: "write_safe wfr \<Longrightarrow> good_dialer (DialAndHandshake dial wfr handshake me)"
proof -
  assume w: "write_safe wfr"
  have "wfr c code p \<noteq> (Panics m, c1)" for c code p m c1
  proof
    assume "wfr c code p = (Panics m, c1)"
    then have "is_panic (fst (wfr c code p))" by simp
    then show False using w by (simp add: write_safe_def)
  qed
  then show ?thesis
    by (auto simp: good_dialer_def DialAndHandshake_def split: sum.splits prod.splits go.splits)
qed

text \<open>C27: The bytes the dialer of a gateway writes on a fresh connection make the acceptor of the service it
  dialled return the gateway's identifier, which is where \<open>container.Push\<close> will look for it.\<close>

theorem handshake_roundtrip:
  assumes "\<forall>i. service_id (handshake i) = i" and "length (handshake me) < 2 ^ 32"
    and "dial (dc_Address ctx) (dc_Timeout ctx) = Inr k" and "room (wr k) = None"
    and "DialAndHandshake dial tcp_WriteFrame handshake me ctx = Ret (Some k')"
    and "written (wr k') = written (wr k) @ bs" and "avail (rd peer) = bs"
  shows "fst (ServHandler_Accept tcp_ReadFrame service_id peer) = Ret me"
proof -
  let ?f = "\<lparr>OpCode = OpBinary, Payload = handshake me\<rparr>"
  have "k' = k\<lparr>wr := (wr k)\<lparr>written := written (wr k) @ frame_enc ?f\<rparr>\<rparr>"
    using assms(3-5) by (simp add: DialAndHandshake_def tcp_WriteFrame_healthy)
  then have "bs = frame_enc ?f" using assms(6) by simp
  moreover have "frame_ok ?f" using assms(2) by (simp add: frame_ok_def)
  ultimately have "fst (tcp_ReadFrame peer) = Ret ?f"
    using tcp_ReadFrame_enc [of ?f peer "[]"] assms(7) by simp
  then show ?thesis
    using assms(1) by (cases "tcp_ReadFrame peer") (simp add: ServHandler_Accept_def GetPayload_def)
qed

theorem handshake_roundtrip_witness:
  "fst (ServHandler_Accept tcp_ReadFrame of_bytes
     \<lparr>rd = \<lparr>avail = frame_enc \<lparr>OpCode = OpBinary, Payload = to_bytes ''gate01''\<rparr>, rerr = ErrEOF\<rparr>, wr = buffer\<rparr>) = Ret ''gate01''"
proof -
  let ?ctx = "\<lparr>dc_Id = ''c1'', dc_Name = ''chat'', dc_Address = ''10.0.0.2:8005'', dc_Timeout = 3\<rparr>"
  let ?f = "\<lparr>OpCode = OpBinary, Payload = to_bytes ''gate01''\<rparr>"
  let ?k' = "demo_conn\<lparr>wr := (wr demo_conn)\<lparr>written := frame_enc ?f\<rparr>\<rparr>"
  have d: "DialAndHandshake (\<lambda>_ _. Inr demo_conn) tcp_WriteFrame to_bytes ''gate01'' ?ctx = Ret (Some ?k')"
    by (simp add: DialAndHandshake_def tcp_WriteFrame_healthy demo_conn_def buffer_def)
  show ?thesis
    by (rule handshake_roundtrip [OF _ _ _ _ d, where bs = "frame_enc ?f" and service_id = of_bytes and k = demo_conn])
       (simp_all add: demo_conn_def buffer_def)
qed

section \<open>The handler of the gateway\<close>

text \<open>\<open>account_app\<close> is \<open>token.Parse\<close> with the default secret, \<open>n\<close> the next sequence number.\<close>

definition Gateway_Accept ::
    "'p pkt_lib \<Rightarrow> ('c \<Rightarrow> frame go \<times> 'c) \<Rightarrow> ('c \<Rightarrow> opcode \<Rightarrow> bytes \<Rightarrow> unit go \<times> 'c)
       \<Rightarrow> (string \<Rightarrow> error + string \<times> string) \<Rightarrow> (string \<Rightarrow> 'p option \<Rightarrow> 's \<Rightarrow> unit go \<times> 's)
       \<Rightarrow> nat \<Rightarrow> string \<Rightarrow> string \<Rightarrow> 'c \<Rightarrow> 's \<Rightarrow> string go \<times> 'c \<times> 's" where
  "Gateway_Accept L rfr wfr account_app forward n addr me conn s =
     (case rfr conn of
        (Fail e, c1) \<Rightarrow> (Fail e, c1, s)
      | (Panics m, c1) \<Rightarrow> (Panics m, c1, s)
      | (Ret fr, c1) \<Rightarrow>
          (case p_must_read L (GetPayload fr) of
             Inl e \<Rightarrow> (Fail e, c1, s)
           | Inr req \<Rightarrow>
               let refuse = (\<lambda>st. snd (wfr c1 OpBinary (p_marshal L (p_set_status L st (p_new_from L req)))))
               in if p_command L req \<noteq> w_CommandLoginSignIn L
                  then (Fail (ErrMsg ''must be a InvalidCommand command''), refuse St_InvalidCommand, s)
                  else case p_read_login L req of
                    Inl e \<Rightarrow> (Fail e, c1, s)
                  | Inr tok \<Rightarrow>
                      (case account_app tok of
                         Inl e \<Rightarrow> (Fail e, refuse St_Unauthorized, s)
                       | Inr (account, app) \<Rightarrow>
                           let i = generateChannelID me account n;
                               body = no_session\<lparr>s_Account := account, s_ChannelId := i, s_GateId := me,
                                 s_App := app, s_RemoteIP := getIP addr\<rparr>;
                               req1 = p_write_body L (B_Session body) (p_set_channel L i req)
                           in case forward (w_SNLogin L) (Some req1) s of
                                (Fail e, s1) \<Rightarrow> (Fail e, c1, s1)
                              | (Panics m, s1) \<Rightarrow> (Panics m, c1, s1)
                              | (Ret _, s1) \<Rightarrow> (Ret i, c1, s1))))"

definition Gateway_Receive ::
    "'p pkt_lib \<Rightarrow> (bytes \<Rightarrow> 's \<Rightarrow> unit go \<times> 's) \<Rightarrow> (string \<Rightarrow> 'p option \<Rightarrow> 's \<Rightarrow> unit go \<times> 's)
       \<Rightarrow> string \<Rightarrow> bytes \<Rightarrow> 's \<Rightarrow> unit go \<times> 's" where
  "Gateway_Receive L ag_push forward ag_id payload s =
     (case p_read L payload of
        Inl e \<Rightarrow> (Ret (), s)
      | Inr (Basic_pkt code) \<Rightarrow>
          if code = w_CodePing L then ignore_error (ag_push (p_marshal_basic L (w_CodePong L)) s) else (Ret (), s)
      | Inr (Logic_pkt p) \<Rightarrow>
          let p1 = p_set_channel L ag_id p
          in ignore_error (forward (p_service L p1) (Some p1) s))"

definition Gateway_Disconnect ::
    "'p pkt_lib \<Rightarrow> (string \<Rightarrow> 'p option \<Rightarrow> 's \<Rightarrow> unit go \<times> 's) \<Rightarrow> string \<Rightarrow> 's \<Rightarrow> unit go \<times> 's" where
  "Gateway_Disconnect L forward i s =
     ignore_error (forward (w_SNLogin L) (Some (p_new L (w_CommandLoginSignOut L) (Some i))) s)"

text \<open>C26: A user is accepted only when his first frame is a login packet with a valid token and that very
  packet, with his channel and session filled in, could be forwarded to the login service; the
  identifier he gets is made of the gateway, his account and the sequence number.  In every other
  case he is refused and nothing is forwarded, unless the forwarding itself failed.\<close>

theorem accept_only_logged_in:
  assumes "Gateway_Accept L rfr wfr account_app forward n addr me conn s = (r, conn', s')"
  shows "case r of
      Ret i \<Rightarrow> \<exists>fr c1 req tok account app.
          rfr conn = (Ret fr, c1) \<and> p_must_read L (GetPayload fr) = Inr req
        \<and> p_command L req = w_CommandLoginSignIn L \<and> p_read_login L req = Inr tok
        \<and> account_app tok = Inr (account, app) \<and> i = generateChannelID me account n
        \<and> forward (w_SNLogin L) (Some (p_write_body L (B_Session (no_session\<lparr>s_Account := account, s_ChannelId := i,
             s_GateId := me, s_App := app, s_RemoteIP := getIP addr\<rparr>)) (p_set_channel L i req))) s = (Ret (), s')
    | _ \<Rightarrow> s' = s \<or> (\<exists>p. forward (w_SNLogin L) (Some p) s = (case r of Fail e \<Rightarrow> Fail e | Panics m \<Rightarrow> Panics m | _ \<Rightarrow> Ret (), s'))"
  using assms
  by (auto simp: Gateway_Accept_def Let_def split: prod.splits go.splits sum.splits if_splits)

definition demo_login :: demo_pkt where
  "demo_login = \<lparr>d_command = ''login.signin'', d_channel = '''', d_metas = []\<rparr>"

definition login_conn :: tcp_conn where
  "login_conn = demo_conn\<lparr>rd := \<lparr>avail = frame_enc \<lparr>OpCode = OpBinary, Payload = demo_enc demo_login\<rparr>, rerr = ErrEOF\<rparr>\<rparr>"

lemma login_conn_read: "\<exists>c. tcp_ReadFrame login_conn = (Ret \<lparr>OpCode = OpBinary, Payload = demo_enc demo_login\<rparr>, c)"
proof -
  let ?f = "\<lparr>OpCode = OpBinary, Payload = demo_enc demo_login\<rparr>"
  have "frame_ok ?f" by (simp add: frame_ok_def demo_enc_def enc_str_def demo_login_def)
  then have "fst (tcp_ReadFrame login_conn) = Ret ?f"
    using tcp_ReadFrame_enc [of ?f login_conn "[]"] by (simp add: login_conn_def)
  then show ?thesis by (cases "tcp_ReadFrame login_conn") auto
qed

theorem accept_only_logged_in_witness:
  "\<exists>c. Gateway_Accept demo_lib tcp_ReadFrame tcp_WriteFrame (\<lambda>_. Inr (''ann'', ''app''))
      (\<lambda>_ _ s. (Ret (), Suc s)) 7 ''1.2.3.4:99'' ''gate01'' login_conn 0 = (Ret (generateChannelID ''gate01'' ''ann'' 7), c, 1)"
proof -
  obtain c where c: "tcp_ReadFrame login_conn = (Ret \<lparr>OpCode = OpBinary, Payload = demo_enc demo_login\<rparr>, c)"
    using login_conn_read by blast
  have cmd: "p_command demo_lib demo_login = w_CommandLoginSignIn demo_lib" and tok: "p_read_login demo_lib demo_login = Inr ''token''"
    by (simp_all add: demo_lib_def demo_login_def)
  have a: "Gateway_Accept demo_lib tcp_ReadFrame tcp_WriteFrame (\<lambda>_. Inr (''ann'', ''app''))
      (\<lambda>_ _ s. (Ret (), Suc s)) 7 ''1.2.3.4:99'' ''gate01'' login_conn 0
      = (Ret (generateChannelID ''gate01'' ''ann'' 7), c, 1)"
    by (simp add: Gateway_Accept_def c GetPayload_def demo_read cmd tok Let_def)
  from accept_only_logged_in [OF this] a show ?thesis by auto
qed

section \<open>The way up\<close>

text \<open>The gateway of a container: \<open>forward\<close> is the container's own \<open>Forward\<close>.\<close>

definition set_channel_law :: "'p pkt_lib \<Rightarrow> bool" where
  "set_channel_law L \<longleftrightarrow> (\<forall>i p. p_channel L (p_set_channel L i p) = i \<and> p_command L (p_set_channel L i p) = p_command L p)"

lemma demo_set_channel: "set_channel_law demo_lib"
  by (simp add: set_channel_law_def demo_lib_def)

text \<open>C17: A packet a user sends reaches exactly one adult instance of the service its command names, with
  the user's own channel in it whatever channel the user had put there, and with the gateway's
  identifier; nothing else changes and no panic results.\<close>

theorem uplink_stamped:
  assumes "ct_ok ct" and "is_order \<pi>" and "ops_safe ops" and "Srv ct = Some srv" and "set_channel_law L"
    and "p_read L payload = Inr (Logic_pkt p)" and "p_command L p \<noteq> ''''" and "i \<noteq> ''''"
    and "q = p_set_channel L i p" and "adults (p_service L q) ct \<noteq> {}"
  shows "p_channel L q = i
    \<and> (\<exists>cli \<in> adults (p_service L q) ct. \<exists>cli'.
         cli' = snd (tcp_Send ops (p_marshal L (p_add_meta L (w_MetaDestServer L) (ServiceID srv) q)) cli)
       \<and> Gateway_Receive L ag_push (Forward L ops \<pi>) i payload ct =
           (Ret (), set_clients (p_service L q) (cl_Add cli' (clients_of (p_service L q) ct)) ct))"
proof -
  let ?send = "tcp_Send ops (p_marshal L (p_add_meta L (w_MetaDestServer L) (ServiceID srv) q))"
  have q: "p_channel L q = i" "p_command L q = p_command L p"
    using assms(5) by (simp_all add: set_channel_law_def assms(9))
  have "forwardable L (Some q)" using q assms(7,8) by (simp add: forwardable_def)
  from Forward_sends [OF assms(1,2,4) this assms(10), of ops] obtain cli where cli: "cli \<in> adults (p_service L q) ct"
    and f: "Forward L ops \<pi> (p_service L q) (Some q) ct =
      (fst (?send cli), set_clients (p_service L q) (cl_Add (snd (?send cli)) (clients_of (p_service L q) ct)) ct)"
    by (auto simp: Let_def)
  have "\<not> is_panic (fst (?send cli))" by (rule send_up(1) [OF assms(3) adults_up [OF assms(1) cli]])
  then have "ignore_error (Forward L ops \<pi> (p_service L q) (Some q) ct) =
      (Ret (), set_clients (p_service L q) (cl_Add (snd (?send cli)) (clients_of (p_service L q) ct)) ct)"
    by (cases "fst (?send cli)") (simp_all add: f ignore_error_def)
  then have "Gateway_Receive L ag_push (Forward L ops \<pi>) i payload ct =
      (Ret (), set_clients (p_service L q) (cl_Add (snd (?send cli)) (clients_of (p_service L q) ct)) ct)"
    using assms(6) by (simp add: Gateway_Receive_def assms(9) Let_def)
  with q(1) cli show ?thesis by blast
qed

theorem uplink_stamped_witness:
  "fst (Gateway_Receive demo_lib (\<lambda>_ s. (Ret (), s)) (Forward demo_lib tcp_ops rev) ''u1'' (demo_enc demo_up) demo_ct) = Ret ()"
proof -
  have srv: "Srv demo_ct = Some demo_gate" by (simp add: demo_ct_def)
  have "demo_pkt_of (dec_strs (demo_enc demo_up) []) = Inr demo_up"
    using demo_read [of demo_up] by (simp add: demo_lib_def)
  then have read: "p_read demo_lib (demo_enc demo_up) = Inr (Logic_pkt demo_up)" by (simp add: demo_lib_def)
  have ad: "adults (p_service demo_lib (p_set_channel demo_lib ''u1'' demo_up)) demo_ct \<noteq> {}"
    using demo_ct_adults by (simp add: demo_lib_def)
  show ?thesis
    using uplink_stamped [OF demo_ct_ok is_order_rev tcp_ops_safe srv demo_set_channel read _ _ refl ad,
        of "\<lambda>_ s. (Ret (), s)"]
    by (auto simp: demo_lib_def demo_up_def)
qed

section \<open>Assembly\<close>

text \<open>
  What \<open>RunServerStart\<close> makes of the option \<open>protocol\<close>: only for \<open>ws\<close> is a server constructed; the
  setters that follow are called on a nil interface otherwise.
\<close>

definition gateway_server :: "string \<Rightarrow> string \<Rightarrow> service \<Rightarrow> server_conf go" where
  "gateway_server protocol listen service =
     (if protocol = ''ws''
      then Ret (ws_SetStateListener (ws_SetMessageListener (ws_SetAcceptor (ws_SetReadWait (minute * 2) (ws_NewServer listen service)))))
      else Panics ''nil server'')"

lemma gateway_server_starts:
  "gateway_server ''ws'' listen service = Ret c \<Longrightarrow> fst (ws_Start c) = Ret ()"
  by (auto simp: gateway_server_def ws_Start_def ws_setters ws_NewServer_def)

end
