(* ===== verification/Assembly.thy ===== *)
theory Assembly
  imports Gateway Config
begin

text \<open>
  How a chat server and a gateway are put together: \<open>RunServerStart\<close> of \<open>services/server/server.go\<close> and
  of \<open>services/gateway/server.go\<close>, and what one of them then finds of the other through consul.  What the
  configuration, redis and consul answer are arguments, as is the iteration order of the dependencies.
\<close>

section \<open>The chat server\<close>

definition chat_service :: "string \<Rightarrow> string \<Rightarrow> chat_conf \<Rightarrow> service" where
  "chat_service protocolTCP serviceName config =
     \<lparr>sv_Id = sc_ServiceID config, sv_Name = serviceName, sv_Address = sc_PublicAddress config,
      sv_Port = sc_PublicPort config, sv_Protocol = protocolTCP, sv_Namespace = '''', sv_Tags = sc_Tags config,
      sv_Meta = None\<rparr>"

definition chat_server_conf :: "string \<Rightarrow> service \<Rightarrow> server_conf" where
  "chat_server_conf listen service =
     SetStateListener (SetMessageListener (SetAcceptor (srv_SetReadWait DefaultReadWait (tcp_NewServer listen service))))"

text \<open>The result is that of \<open>container.Start\<close> up to its wait for a signal, with the server that was built.\<close>

definition chat_RunServerStart ::
    "string \<Rightarrow> chat_conf go \<Rightarrow> string \<Rightarrow> error option \<Rightarrow> error option \<Rightarrow> (string list \<Rightarrow> string list) \<Rightarrow> 'c container
       \<Rightarrow> unit go \<times> server_conf option \<times> 'c container \<times> ct_action list" where
  "chat_RunServerStart protocolTCP conf serviceName ping consul order ct =
     (case conf of
        Fail e \<Rightarrow> (Fail e, None, ct, [])
      | Panics m \<Rightarrow> (Panics m, None, ct, [])
      | Ret config \<Rightarrow>
          (case InitRedis (\<lambda>_. ()) (\<lambda>_. ping) (sc_RedisAddrs config) '''' of
             Fail e \<Rightarrow> (Fail e, None, ct, [])
           | Panics m \<Rightarrow> (Panics m, None, ct, [])
           | Ret _ \<Rightarrow>
               let service = chat_service protocolTCP serviceName config;
                   srv = chat_server_conf (sc_Listen config) service
               in (case Init (Some service) [] ct of
                     (Fail e, ct1) \<Rightarrow> (Fail e, Some srv, ct1, [])
                   | (Panics m, ct1) \<Rightarrow> (Panics m, Some srv, ct1, [])
                   | (Ret _, ct1) \<Rightarrow>
                       (case consul of
                          Some e \<Rightarrow> (Fail e, Some srv, ct1, [])
                        | None \<Rightarrow> (let (r, ct2, acts) = Start order (SetServiceNaming ct1) in (r, Some srv, ct2, acts))))))"

section \<open>The gateway\<close>

definition gateway_service :: "string \<Rightarrow> gateway_conf \<Rightarrow> service" where
  "gateway_service protocol config =
     \<lparr>sv_Id = gc_ServiceID config, sv_Name = gc_ServiceName config, sv_Address = gc_PublicAddress config,
      sv_Port = gc_PublicPort config, sv_Protocol = protocol, sv_Namespace = '''', sv_Tags = gc_Tags config,
      sv_Meta = None\<rparr>"

text \<open>The error of \<open>container.Init\<close> is dropped; \<open>dialer\<close> is \<open>serv.NewDialer\<close> of the gateway's identifier.\<close>

definition gateway_RunServerStart ::
    "gateway_conf go \<Rightarrow> string \<Rightarrow> string list \<Rightarrow> error option \<Rightarrow> (string \<Rightarrow> 'c dialer) \<Rightarrow> (string list \<Rightarrow> string list)
       \<Rightarrow> 'c container \<Rightarrow> unit go \<times> server_conf option \<times> 'c container \<times> ct_action list" where
  "gateway_RunServerStart conf protocol ds consul dialer order ct =
     (case conf of
        Fail e \<Rightarrow> (Fail e, None, ct, [])
      | Panics m \<Rightarrow> (Panics m, None, ct, [])
      | Ret config \<Rightarrow>
          let service = gateway_service protocol config
          in (case gateway_server protocol (gc_Listen config) service of
                Panics m \<Rightarrow> (Panics m, None, ct, [])
              | Fail e \<Rightarrow> (Fail e, None, ct, [])
              | Ret srv \<Rightarrow>
                  (case ignore_error (Init (Some service) ds ct) of
                     (Panics m, ct1) \<Rightarrow> (Panics m, Some srv, ct1, [])
                   | (_, ct1) \<Rightarrow>
                       (case consul of
                          Some e \<Rightarrow> (Fail e, Some srv, ct1, [])
                        | None \<Rightarrow>
                            (let (r, ct2, acts) = Start order (ct_SetDialer (dialer (gc_ServiceID config)) (SetServiceNaming ct1))
                             in (r, Some srv, ct2, acts))))))"

section \<open>A process that starts\<close>

lemma chat_server_ready:
  "fst (tcp_Start None (chat_server_conf listen service)) = Ret ()"
  "cf_listener (chat_server_conf listen service)" "cf_acceptor (chat_server_conf listen service)"
  "cf_service (chat_server_conf listen service) = service"
  by (simp_all add: chat_server_conf_def tcp_Start_def SetStateListener_def SetMessageListener_def SetAcceptor_def
      srv_SetReadWait_def tcp_NewServer_def)

definition registers :: "service \<Rightarrow> ct_action list" where
  "registers s = (if PublicAddress s \<noteq> '''' \<and> PublicPort s \<noteq> 0 then [A_Register s] else [])"

lemma Default_fields:
  "ct_state Default = stateUninitialized" "deps Default = []" "srvclients Default = (\<lambda>_. None)"
  by (simp_all add: Default_def)

lemma Init_Default:
  "Init (Some s) ds Default = (Ret (), Default\<lparr>ct_state := stateInitialized, Srv := Some s, deps := add_deps ds [], srvclients := (\<lambda>_. None)\<rparr>)"
  by (simp add: Init_def Default_fields)

text \<open>A container that was initialized and given a naming starts with these actions.\<close>

lemma Start_initialized:
  assumes "ct_named ct" "ct_state ct = stateInitialized" "Srv ct = Some s"
  shows "Start order ct = (Ret (), ct\<lparr>ct_state := stateStarted\<rparr>, A_ServerStart # map A_Connect (order (deps ct)) @ registers s)"
  using assms by (simp add: Start_def registers_def)

lemma chat_run_ok:
  assumes "is_order order"
  shows "chat_RunServerStart tcp (Ret config) name None None order Default =
    (Ret (), Some (chat_server_conf (sc_Listen config) (chat_service tcp name config)),
     Default\<lparr>ct_state := stateStarted, Srv := Some (chat_service tcp name config), ct_named := True\<rparr>,
     A_ServerStart # registers (chat_service tcp name config))"
proof -
  have "order [] = []" using assms by simp
  then show ?thesis
    by (simp add: chat_RunServerStart_def InitRedis_def Init_Default Let_def SetServiceNaming_def Start_initialized add_deps_def)
       (simp add: Default_def)
qed

lemma chat_run_fails:
  assumes "\<not> is_panic conf" "is_ret conf \<longrightarrow> ping \<noteq> None \<or> consul \<noteq> None"
  shows "\<exists>e srv ct. chat_RunServerStart tcp conf name ping consul order Default = (Fail e, srv, ct, [])
    \<and> (conf = Fail e \<or> ping = Some e \<or> consul = Some e) \<and> ct_state ct \<noteq> stateStarted"
proof (cases conf)
  case (Ret config)
  show ?thesis using assms Ret
    by (cases ping; cases consul)
       (auto simp: chat_RunServerStart_def InitRedis_def Init_Default Let_def Default_fields)
qed (use assms in \<open>auto simp: chat_RunServerStart_def Default_fields\<close>)

text \<open>A chat server starts exactly when its configuration could be read and redis and consul answered:
  then its container is started around a TCP server that passes its own checks and has the handler
  as its listener, it serves at once, connects to no other service and registers the entry that its
  configuration describes when that has an address and a port.  Otherwise it ends with the first of
  those errors and nothing was started or registered.\<close>

lemma chat_server_starts:
  assumes "is_order order" and "\<not> is_panic conf"
    and "chat_RunServerStart tcp conf name ping consul order Default = (r, srv, ct, acts)"
  shows "(r = Ret () \<longleftrightarrow> is_ret conf \<and> ping = None \<and> consul = None)
    \<and> (r = Ret () \<longrightarrow> (\<exists>config. conf = Ret config \<and> ct_state ct = stateStarted \<and> Srv ct = Some (chat_service tcp name config)
        \<and> (\<exists>s. srv = Some s \<and> fst (tcp_Start None s) = Ret () \<and> cf_listener s \<and> cf_service s = chat_service tcp name config)
        \<and> acts = A_ServerStart # registers (chat_service tcp name config)))
    \<and> (r \<noteq> Ret () \<longrightarrow> acts = [] \<and> ct_state ct \<noteq> stateStarted
        \<and> (\<exists>e. r = Fail e \<and> (conf = Fail e \<or> ping = Some e \<or> consul = Some e)))"
proof (cases "is_ret conf \<and> ping = None \<and> consul = None")
  case True
  then obtain config where config: "conf = Ret config" by (cases conf) auto
  have run: "r = Ret ()" "srv = Some (chat_server_conf (sc_Listen config) (chat_service tcp name config))"
    "ct = Default\<lparr>ct_state := stateStarted, Srv := Some (chat_service tcp name config), ct_named := True\<rparr>"
    "acts = A_ServerStart # registers (chat_service tcp name config)"
    using assms(3) True by (simp_all add: config chat_run_ok [OF assms(1)])
  then show ?thesis using True config by (simp add: chat_server_ready)
next
  case False
  then have "is_ret conf \<longrightarrow> ping \<noteq> None \<or> consul \<noteq> None" by auto
  then have "\<exists>e srv' ct'. (r, srv, ct, acts) = (Fail e, srv', ct', [])
    \<and> (conf = Fail e \<or> ping = Some e \<or> consul = Some e) \<and> ct_state ct' \<noteq> stateStarted"
    unfolding assms(3) [symmetric] by (rule chat_run_fails [OF assms(2)])
  then show ?thesis using False by auto
qed

definition demo_chat_conf :: chat_conf where
  "demo_chat_conf = chat_zero\<lparr>sc_ServiceID := ''chat02'', sc_Listen := '':8005'', sc_PublicAddress := ''localhost'', sc_PublicPort := 8005\<rparr>"

lemma chat_server_starts_example:
  "ct_state (fst (snd (snd (chat_RunServerStart ''tcp'' (Ret demo_chat_conf) ''chat'' None None rev (Default :: nat container))))) = stateStarted"
proof -
  obtain r srv and ct :: "nat container" and acts
    where o: "chat_RunServerStart ''tcp'' (Ret demo_chat_conf) ''chat'' None None rev Default = (r, srv, ct, acts)"
    by (metis surj_pair)
  from chat_server_starts [OF is_order_rev _ o] show ?thesis by (auto simp: o)
qed

text \<open>What consul tells a gateway of a chat server that was registered leads to the server's own address.\<close>

lemma gateway_finds_chat:
  assumes "registered_as (fst (Register_request (chat_service tcp name config) ms)) ms' c" and "cs_Status c = HealthPassing"
  shows "\<exists>f. Find ms' (Inr ([c], ix)) = Inr [Some f] \<and> ServiceID f = sc_ServiceID config \<and> GetProtocol f = tcp
    \<and> DialURL f = DialURL (chat_service tcp name config)"
  using register_find [OF assms(1), of ix] assms(2)
  by (auto simp: ServiceID_def GetProtocol_def chat_service_def)

section \<open>The gateway starts\<close>

lemma gateway_not_ws: "protocol \<noteq> ''ws'' \<Longrightarrow> gateway_server protocol listen service = Panics ''nil server''"
  by (simp add: gateway_server_def)

lemma set_add_deps: "set (add_deps ds have) = set ds \<union> set have"
  unfolding add_deps_def by (induction ds arbitrary: "have") auto

text \<open>A gateway with the protocol ws, with its configuration and consul at hand, starts a container around a
  WebSocket server that passes its own checks, with a dialer that introduces itself with the
  gateway's identifier, and connects to every service it depends on; with any other protocol, the
  documented tcp included, it panics before anything is started.\<close>

lemma gateway_starts:
  assumes "is_order order"
    and "gateway_RunServerStart (Ret config) protocol ds None dialer order Default = (r, srv, ct, acts)"
  shows "if protocol = ''ws''
    then r = Ret () \<and> ct_state ct = stateStarted \<and> Srv ct = Some (gateway_service protocol config)
      \<and> ct_dialer ct = Some (dialer (gc_ServiceID config))
      \<and> (\<exists>s. srv = Some s \<and> fst (ws_Start s) = Ret () \<and> cf_service s = gateway_service protocol config)
      \<and> A_ServerStart \<in> set acts \<and> {d. A_Connect d \<in> set acts} = set ds
      \<and> (A_Register (gateway_service protocol config) \<in> set acts \<longleftrightarrow> gc_PublicAddress config \<noteq> '''' \<and> gc_PublicPort config \<noteq> 0)
    else is_panic r \<and> acts = []"
proof (cases "protocol = ''ws''")
  case False
  then show ?thesis using assms(2) by (auto simp: gateway_RunServerStart_def gateway_not_ws Let_def)
next
  case True
  let ?s = "gateway_service ''ws'' config"
  obtain c where c: "gateway_server ''ws'' (gc_Listen config) ?s = Ret c" by (simp add: gateway_server_def)
  have cs: "fst (ws_Start c) = Ret ()" "cf_service c = ?s"
    using gateway_server_starts [OF c] c
    by (auto simp: gateway_server_def ws_setters ws_NewServer_def)
  have ds: "set (order (add_deps ds [])) = set ds" using set_add_deps [of ds "[]"] by (simp add: is_order_set [OF assms(1)])
  have run: "r = Ret ()" "srv = Some c" "acts = A_ServerStart # map A_Connect (order (add_deps ds [])) @ registers ?s"
    "ct_state ct = stateStarted" "Srv ct = Some ?s" "ct_dialer ct = Some (dialer (gc_ServiceID config))"
    using assms(2) True
    by (auto simp: gateway_RunServerStart_def c Init_Default ignore_error_def SetServiceNaming_def ct_SetDialer_def
        Start_initialized Let_def)
  have "{d. A_Connect d \<in> set acts} = set ds" using ds by (auto simp: run registers_def)
  moreover have "A_Register ?s \<in> set acts \<longleftrightarrow> gc_PublicAddress config \<noteq> '''' \<and> gc_PublicPort config \<noteq> 0"
    by (auto simp: run registers_def gateway_service_def PublicAddress_def PublicPort_def)
  ultimately show ?thesis using True cs run by simp
qed

lemma gateway_starts_example:
  "is_panic (fst (gateway_RunServerStart (Ret gateway_zero) ''tcp'' [''chat'', ''login''] None (\<lambda>_ _. Ret (Some (0 :: nat))) rev Default))"
proof -
  obtain r srv ct acts where
    o: "gateway_RunServerStart (Ret gateway_zero) ''tcp'' [''chat'', ''login''] None (\<lambda>_ _. Ret (Some (0 :: nat))) rev Default = (r, srv, ct, acts)"
    by (metis surj_pair)
  from gateway_starts [OF is_order_rev o] show ?thesis by (simp add: o)
qed

end
