(* ===== verification/Commands.thy ===== *)
theory Commands
  imports Assembly
begin

text \<open>
  The command line: \<open>services/main.go\<close> and the \<open>NewServerStartCmd\<close> of \<open>services/gateway/server.go\<close> and
  \<open>services/server/server.go\<close>.  The command library (\<open>cobra\<close>) is outside the repository: its \<open>Execute\<close> and
  its reading of flags are parameters.  \<open>flag.Parse\<close> of the standard library is modelled for a program
  that has declared no flags of its own.
\<close>

section \<open>Commands and flags\<close>

record flag =
  fl_Name :: string
  fl_Shorthand :: string
  fl_Value :: string
  fl_Usage :: string

text \<open>\<open>cm_RunE\<close> is given the values of the flags; a flag's variable has its default when it was not given.\<close>

record 'r command =
  cm_Use :: string
  cm_Short :: string
  cm_Flags :: "flag list"
  cm_RunE :: "(string \<Rightarrow> string) \<Rightarrow> 'r"

record root_command =
  rt_Use :: string
  rt_Version :: string
  rt_Short :: string

record gateway_options =
  gp_config :: string
  gp_protocol :: string

record server_options =
  sp_config :: string
  sp_serviceName :: string

definition gateway_flags :: "flag list" where
  "gateway_flags =
     [\<lparr>fl_Name = ''config'', fl_Shorthand = ''c'', fl_Value = ''./gateway/conf.yaml'', fl_Usage = ''Config file''\<rparr>,
      \<lparr>fl_Name = ''protocol'', fl_Shorthand = ''p'', fl_Value = ''ws'', fl_Usage = ''protocol of ws or tcp''\<rparr>]"

definition gateway_ServerStartCmd :: "(gateway_options \<Rightarrow> 'r) \<Rightarrow> 'r command" where
  "gateway_ServerStartCmd run =
     \<lparr>cm_Use = ''gateway'', cm_Short = ''start a gateway'', cm_Flags = gateway_flags,
      cm_RunE = (\<lambda>v. run \<lparr>gp_config = v ''config'', gp_protocol = v ''protocol''\<rparr>)\<rparr>"

definition server_flags :: "flag list" where
  "server_flags =
     [\<lparr>fl_Name = ''config'', fl_Shorthand = ''c'', fl_Value = ''./server/conf.yaml'', fl_Usage = ''Config file''\<rparr>,
      \<lparr>fl_Name = ''serviceName'', fl_Shorthand = ''s'', fl_Value = ''chat'',
       fl_Usage = ''defined a service name,option is login or chat''\<rparr>]"

text \<open>The short text is \<open>start the chat service\<close> in Chinese, here its bytes.\<close>

definition chat_ServerStartCmd :: "(server_options \<Rightarrow> 'r) \<Rightarrow> 'r command" where
  "chat_ServerStartCmd run =
     \<lparr>cm_Use = ''server'',
      cm_Short = of_bytes [0xe5, 0x90, 0xaf, 0xe5, 0x8a, 0xa8] @ ''chat'' @ of_bytes [0xe6, 0x9c, 0x8d, 0xe5, 0x8a, 0xa1],
      cm_Flags = server_flags,
      cm_RunE = (\<lambda>v. run \<lparr>sp_config = v ''config'', sp_serviceName = v ''serviceName''\<rparr>)\<rparr>"

section \<open>The program\<close>

text \<open>\<open>flag.Parse\<close> with no flag declared: the exit code when it ends the program, which it does for any first
  argument that looks like a flag.\<close>

definition flag_Parse :: "string list \<Rightarrow> int option" where
  "flag_Parse args =
     (case args of
        [] \<Rightarrow> None
      | a # _ \<Rightarrow>
          if length a < 2 \<or> hd a \<noteq> CHR ''-'' \<or> a = ''--'' then None
          else
            let name = (if a ! 1 = CHR ''-'' then drop 2 a else drop 1 a)
            in if hd name \<in> {CHR ''-'', CHR ''=''} then Some 2
               else if takeWhile (\<lambda>c. c \<noteq> CHR ''='') name \<in> {''help'', ''h''} then Some 0 else Some 2)"

datatype 'r ran = Shown | Refused error | Ran 'r

definition im_root :: root_command where
  "im_root = \<lparr>rt_Use = ''im'', rt_Version = ''v1'', rt_Short = ''IM Cloud''\<rparr>"

text \<open>
  \<open>main\<close>: the exit code, and what the command that ran left.  An error of \<open>Execute\<close> is logged with \<open>Fatal\<close>,
  which ends the program with 1; a panic ends it with 2.
\<close>

definition services_main ::
    "(root_command \<Rightarrow> (unit go \<times> 's) command list \<Rightarrow> string list \<Rightarrow> (unit go \<times> 's) ran)
       \<Rightarrow> (gateway_options \<Rightarrow> unit go \<times> 's) \<Rightarrow> (server_options \<Rightarrow> unit go \<times> 's) \<Rightarrow> string list \<Rightarrow> int \<times> 's option" where
  "services_main execute gw srv args =
     (case flag_Parse args of
        Some code \<Rightarrow> (code, None)
      | None \<Rightarrow>
          (case execute im_root [gateway_ServerStartCmd gw, chat_ServerStartCmd srv] args of
             Shown \<Rightarrow> (0, None)
           | Refused e \<Rightarrow> (1, None)
           | Ran (Ret _, s) \<Rightarrow> (0, Some s)
           | Ran (Fail e, s) \<Rightarrow> (1, Some s)
           | Ran (Panics m, s) \<Rightarrow> (2, Some s)))"

section \<open>Documented behaviour of cobra\<close>

definition flag_default :: "flag list \<Rightarrow> string \<Rightarrow> string" where
  "flag_default fs n = (case filter (\<lambda>f. fl_Name f = n) fs of [] \<Rightarrow> '''' | f # _ \<Rightarrow> fl_Value f)"

definition flag_values :: "flag list \<Rightarrow> (string \<Rightarrow> string option) \<Rightarrow> string \<Rightarrow> string" where
  "flag_values fs given n = (case given n of Some v \<Rightarrow> v | None \<Rightarrow> flag_default fs n)"

text \<open>A line that begins with the name of a command and whose flags are read runs that command.\<close>

definition cobra_law ::
    "(root_command \<Rightarrow> 'r command list \<Rightarrow> string list \<Rightarrow> 'r ran)
       \<Rightarrow> (flag list \<Rightarrow> string list \<Rightarrow> error + (string \<Rightarrow> string option)) \<Rightarrow> bool" where
  "cobra_law execute parse \<longleftrightarrow>
     (\<forall>root cmds cm rest given. cm \<in> set cmds \<longrightarrow> distinct (map cm_Use cmds) \<longrightarrow> parse (cm_Flags cm) rest = Inr given \<longrightarrow>
        execute root cmds (cm_Use cm # rest) = Ran (cm_RunE cm (flag_values (cm_Flags cm) given)))"

lemma main_runs:
  assumes "cobra_law execute parse"
  shows "parse gateway_flags rest = Inr given \<Longrightarrow>
      execute im_root [gateway_ServerStartCmd gw, chat_ServerStartCmd srv] (''gateway'' # rest) =
        Ran (gw \<lparr>gp_config = flag_values gateway_flags given ''config'', gp_protocol = flag_values gateway_flags given ''protocol''\<rparr>)"
    and "parse server_flags rest = Inr given \<Longrightarrow>
      execute im_root [gateway_ServerStartCmd gw, chat_ServerStartCmd srv] (''server'' # rest) =
        Ran (srv \<lparr>sp_config = flag_values server_flags given ''config'', sp_serviceName = flag_values server_flags given ''serviceName''\<rparr>)"
proof -
  let ?cs = "[gateway_ServerStartCmd gw, chat_ServerStartCmd srv]"
  have d: "distinct (map cm_Use ?cs)" by (simp add: gateway_ServerStartCmd_def chat_ServerStartCmd_def)
  have law: "parse (cm_Flags cm) rest = Inr given \<Longrightarrow> cm \<in> set ?cs \<Longrightarrow>
      execute im_root ?cs (cm_Use cm # rest) = Ran (cm_RunE cm (flag_values (cm_Flags cm) given))" for cm
    using assms d unfolding cobra_law_def by blast
  show "parse gateway_flags rest = Inr given \<Longrightarrow> execute im_root ?cs (''gateway'' # rest) =
      Ran (gw \<lparr>gp_config = flag_values gateway_flags given ''config'', gp_protocol = flag_values gateway_flags given ''protocol''\<rparr>)"
    using law [of "gateway_ServerStartCmd gw"] by (simp add: gateway_ServerStartCmd_def)
  show "parse server_flags rest = Inr given \<Longrightarrow> execute im_root ?cs (''server'' # rest) =
      Ran (srv \<lparr>sp_config = flag_values server_flags given ''config'', sp_serviceName = flag_values server_flags given ''serviceName''\<rparr>)"
    using law [of "chat_ServerStartCmd srv"] by (simp add: chat_ServerStartCmd_def)
qed

section \<open>What a command line starts\<close>

type_synonym 'c process = "server_conf option \<times> 'c container \<times> ct_action list"

text \<open>The two commands, with the files they may name; \<open>V\<close> is what \<open>viper\<close> makes of a file.\<close>

definition run_gateway ::
    "(string \<Rightarrow> gateway_conf config_lib) \<Rightarrow> string list \<Rightarrow> error option \<Rightarrow> (string \<Rightarrow> 'c dialer) \<Rightarrow> (string list \<Rightarrow> string list)
       \<Rightarrow> gateway_options \<Rightarrow> unit go \<times> 'c process" where
  "run_gateway V ds consul dialer order opts =
     gateway_RunServerStart (gateway_conf_Init (V (gp_config opts))) (gp_protocol opts) ds consul dialer order Default"

definition run_chat ::
    "string \<Rightarrow> (string \<Rightarrow> chat_conf config_lib) \<Rightarrow> error option \<Rightarrow> error option \<Rightarrow> (string list \<Rightarrow> string list)
       \<Rightarrow> server_options \<Rightarrow> unit go \<times> 'c process" where
  "run_chat tcp V ping consul order opts =
     chat_RunServerStart tcp (chat_conf_Init (V (sp_config opts))) (sp_serviceName opts) ping consul order Default"

lemma conf_Init_calm: "\<not> is_panic (gateway_conf_Init V)" "\<not> is_panic (chat_conf_Init W)"
  by (simp_all add: gateway_conf_Init_def chat_conf_Init_def split: option.split prod.split)

lemma gateway_run_fails:
  assumes "\<not> is_panic conf" "is_ret conf \<longrightarrow> protocol \<noteq> ''ws'' \<or> consul \<noteq> None"
  shows "\<exists>r srv ct. gateway_RunServerStart conf protocol ds consul dialer order Default = (r, srv, ct, []) \<and> r \<noteq> Ret ()"
proof (cases conf)
  case (Ret config)
  show ?thesis
  proof (cases "protocol = ''ws''")
    case True
    then obtain e where "consul = Some e" using assms(2) Ret by auto
    then show ?thesis using Ret True by (simp add: gateway_RunServerStart_def gateway_server_def Init_Default ignore_error_def Let_def)
  next
    case False
    then show ?thesis using Ret by (simp add: gateway_RunServerStart_def gateway_not_ws)
  qed
qed (use assms in \<open>auto simp: gateway_RunServerStart_def\<close>)

lemma gateway_run_outcome:
  assumes "is_order order" "\<not> is_panic conf"
    and run: "gateway_RunServerStart conf protocol ds consul dialer order Default = (r, srv, ct, acts)"
  shows "(r = Ret () \<longleftrightarrow> is_ret conf \<and> consul = None \<and> protocol = ''ws'') \<and> (r \<noteq> Ret () \<longrightarrow> acts = [])
    \<and> (r = Ret () \<longrightarrow> (\<exists>config s. conf = Ret config \<and> ct_state ct = stateStarted
         \<and> srv = Some s \<and> fst (ws_Start s) = Ret () \<and> Srv ct = Some (gateway_service ''ws'' config)
         \<and> A_ServerStart \<in> set acts \<and> {d. A_Connect d \<in> set acts} = set ds))"
proof (cases "is_ret conf \<and> consul = None \<and> protocol = ''ws''")
  case True
  then obtain config where "conf = Ret config" by (cases conf) auto
  with gateway_starts [OF assms(1), of config protocol ds dialer r srv ct acts] run True show ?thesis by auto
next
  case False
  then have "is_ret conf \<longrightarrow> protocol \<noteq> ''ws'' \<or> consul \<noteq> None" by auto
  from gateway_run_fails [OF assms(2) this, of ds dialer order] run have "r \<noteq> Ret () \<and> acts = []" by fastforce
  then show ?thesis using False by blast
qed


text \<open>A command library that knows the short forms of flags.\<close>

fun demo_parse :: "flag list \<Rightarrow> string list \<Rightarrow> error + (string \<Rightarrow> string option)" where
  "demo_parse fs [] = Inr (\<lambda>_. None)"
| "demo_parse fs [a] = Inl (ErrExt ''flag needs an argument'')"
| "demo_parse fs (a # v # rest) =
     (case filter (\<lambda>f. a = ''-'' @ fl_Shorthand f) fs of
        [] \<Rightarrow> Inl (ErrExt ''unknown flag'')
      | f # _ \<Rightarrow> (case demo_parse fs rest of Inl e \<Rightarrow> Inl e | Inr given \<Rightarrow> Inr (given(fl_Name f \<mapsto> v))))"

definition demo_execute :: "root_command \<Rightarrow> 'r command list \<Rightarrow> string list \<Rightarrow> 'r ran" where
  "demo_execute root cmds args =
     (case args of
        [] \<Rightarrow> Shown
      | u # rest \<Rightarrow>
          (case filter (\<lambda>c. cm_Use c = u) cmds of
             [] \<Rightarrow> Refused (ErrExt ''unknown command'')
           | c # _ \<Rightarrow>
               (case demo_parse (cm_Flags c) rest of
                  Inl e \<Rightarrow> Refused e
                | Inr given \<Rightarrow> Ran (cm_RunE c (flag_values (cm_Flags c) given)))))"

lemma filter_distinct_key: "distinct (map f xs) \<Longrightarrow> x \<in> set xs \<Longrightarrow> filter (\<lambda>y. f y = f x) xs = [x]"
  by (induction xs) (auto simp: filter_empty_conv image_iff)

lemma demo_cobra: "cobra_law demo_execute demo_parse"
  by (simp add: cobra_law_def demo_execute_def filter_distinct_key)

definition demo_files :: "error option \<Rightarrow> 'k config_lib" where
  "demo_files e = \<lparr>vp_Read = e, vp_Unmarshal = (\<lambda>c. (None, c)), env_Process = (\<lambda>c. (None, c))\<rparr>"


end
