(* ===== verification/MessageStore.thy ===== *)
theory MessageStore
  imports Royal "HOL-Library.Multiset"
begin

text \<open>
  The message tables of the royal service (\<open>services/service/database/model.go\<close>) over any history of
  requests to \<open>services/service/handler/message_handler.go\<close>: what type of rows they hold.
\<close>

section \<open>Histories\<close>

datatype store_req = ToUser "error + insert_message" | ToGroup "error + insert_message"

text \<open>One request after the other; a panic is recovered by the application and ends only its request.\<close>

definition store_do :: "'d db \<Rightarrow> 'd db \<Rightarrow> ('g \<Rightarrow> int \<times> 'g) \<Rightarrow> store_req \<Rightarrow> 'g \<times> 'd \<Rightarrow> 'g \<times> 'd" where
  "store_do B D gen req s =
     (case req of
        ToUser body \<Rightarrow> snd (InsertUserMessage D gen body s)
      | ToGroup body \<Rightarrow> snd (InsertGroupMessage B D gen body s))"

definition store_all :: "'d db \<Rightarrow> 'd db \<Rightarrow> ('g \<Rightarrow> int \<times> 'g) \<Rightarrow> store_req list \<Rightarrow> 'g \<times> 'd \<Rightarrow> 'g \<times> 'd" where
  "store_all B D gen reqs s = fold (store_do B D gen) reqs s"

text \<open>
  What is assumed: the two tables can be looked at, creating rows adds them, and the generator counts
  up from the last number it gave.
\<close>

definition table_laws :: "'d db \<Rightarrow> ('d \<Rightarrow> message_content multiset) \<Rightarrow> ('d \<Rightarrow> message_index multiset) \<Rightarrow> bool" where
  "table_laws D contents indexes \<longleftrightarrow>
     (\<forall>c d d1. db_CreateContent D c d = (None, d1) \<longrightarrow> contents d1 = add_mset c (contents d) \<and> indexes d1 = indexes d)
     \<and> (\<forall>rows d d1. db_CreateIndex D rows d = (None, d1) \<longrightarrow> contents d1 = contents d \<and> indexes d1 = indexes d + mset rows)"

definition gen_law :: "('g \<Rightarrow> int \<times> 'g) \<Rightarrow> ('g \<Rightarrow> int) \<Rightarrow> bool" where
  "gen_law gen last_of \<longleftrightarrow> (\<forall>g. last_of g < fst (gen g) \<and> last_of (snd (gen g)) = fst (gen g))"

section \<open>The type of the tables\<close>

text \<open>The rows of one user message: in the receiver's queue incoming, in the sender's outgoing.\<close>

definition row_pair :: "message_content \<Rightarrow> message_index \<Rightarrow> message_index \<Rightarrow> bool" where
  "row_pair c x y \<longleftrightarrow> ix_MessageID x = mc_ID c \<and> ix_MessageID y = mc_ID c \<and> ix_Direction x = 0 \<and> ix_Direction y = 1
     \<and> ix_AccountA x = ix_AccountB y \<and> ix_AccountB x = ix_AccountA y \<and> ix_Group x = '''' \<and> ix_Group y = ''''
     \<and> ix_SendTime x = mc_SendTime c \<and> ix_SendTime y = mc_SendTime c"

definition rows_of :: "int \<Rightarrow> message_index multiset \<Rightarrow> message_index multiset" where
  "rows_of n ixs = filter_mset (\<lambda>ix. ix_MessageID ix = n) ixs"

definition tables_ok :: "int \<Rightarrow> message_content multiset \<Rightarrow> message_index multiset \<Rightarrow> bool" where
  "tables_ok n cs ixs \<longleftrightarrow>
     (\<forall>i. count (image_mset mc_ID cs) i \<le> 1) \<and> (\<forall>i. count (image_mset ix_ID ixs) i \<le> 1)
     \<and> (\<forall>c \<in># cs. mc_ID c \<le> n \<and> (\<exists>x y. rows_of (mc_ID c) ixs = {#x, y#} \<and> row_pair c x y))
     \<and> (\<forall>x \<in># ixs. ix_ID x \<le> n \<and> (\<exists>c \<in># cs. mc_ID c = ix_MessageID x))"

lemma rows_of_simps [simp]:
  "rows_of n {#} = {#}"
  "rows_of n (ixs + js) = rows_of n ixs + rows_of n js"
  "rows_of n (add_mset x ixs) = (if ix_MessageID x = n then add_mset x (rows_of n ixs) else rows_of n ixs)"
  by (simp_all add: rows_of_def)

lemma rows_of_none: "\<forall>x \<in># ixs. ix_MessageID x \<noteq> n \<Longrightarrow> rows_of n ixs = {#}"
  by (simp add: rows_of_def)

lemma count_fresh: "\<forall>x \<in># xs. f x \<noteq> i \<Longrightarrow> count (image_mset f xs) i = 0"
  by (auto simp: count_eq_zero_iff)

lemma tables_ok_mono: "tables_ok n cs ixs \<Longrightarrow> n \<le> m \<Longrightarrow> tables_ok m cs ixs"
  unfolding tables_ok_def by (meson order_trans)

lemma tables_ok_add:
  assumes ok: "tables_ok n cs ixs" and "n < mc_ID c" "mc_ID c < ix_ID x" "ix_ID x < ix_ID y" and pair: "row_pair c x y"
  shows "tables_ok (ix_ID y) (add_mset c cs) (ixs + {#x, y#})"
proof -
  have old: "mc_ID b < mc_ID c" if "b \<in># cs" for b using ok assms(2) that by (force simp: tables_ok_def)
  have old_ix: "ix_ID z < mc_ID c \<and> ix_MessageID z < mc_ID c" if "z \<in># ixs" for z
    using ok assms(2) that by (force simp: tables_ok_def)
  have ids: "ix_MessageID x = mc_ID c" "ix_MessageID y = mc_ID c" using pair by (simp_all add: row_pair_def)
  have "count (image_mset mc_ID (add_mset c cs)) i \<le> 1" for i
    using ok count_fresh [of cs mc_ID i] old by (force simp: tables_ok_def)
  moreover have "count (image_mset ix_ID (ixs + {#x, y#})) i \<le> 1" for i
  proof -
    have "count (image_mset ix_ID ixs) i \<le> 1" using ok by (simp add: tables_ok_def)
    moreover have "count (image_mset ix_ID ixs) i = 0" if "i = ix_ID x \<or> i = ix_ID y"
      using that old_ix assms(3,4) by (intro count_fresh) force
    ultimately show ?thesis using assms(4) by auto
  qed
  moreover have "rows_of (mc_ID c) ixs = {#}" using old_ix by (intro rows_of_none) force
  then have "rows_of (mc_ID c) (ixs + {#x, y#}) = {#x, y#}" by (simp add: ids)
  moreover have "rows_of (mc_ID b) (ixs + {#x, y#}) = rows_of (mc_ID b) ixs" if "b \<in># cs" for b
    using old [OF that] by (simp add: ids)
  moreover have "\<forall>b \<in># add_mset c cs. mc_ID b \<le> ix_ID y" using old assms(3,4) by force
  moreover have "\<forall>z \<in># ixs + {#x, y#}. ix_ID z \<le> ix_ID y" using old_ix assms(3,4) by force
  ultimately show ?thesis using ok pair ids by (simp add: tables_ok_def) blast
qed

section \<open>Requests\<close>

lemma create_both_tables:
  assumes "tx_law D" "table_laws D contents indexes" "db_Transaction D (create_both D c rows) d = (err, d')"
  shows "if err = None then contents d' = add_mset c (contents d) \<and> indexes d' = indexes d + mset rows else d' = d"
  using tx_law_cases [OF assms(1,3)] assms(2)
  by (auto simp: create_both_def table_laws_def split: prod.splits option.splits)

lemma user_request_ok:
  assumes "tx_law D" "table_laws D contents indexes" "gen_law gen last_of"
    and ok: "tables_ok (last_of g) (contents d) (indexes d)"
    and run: "InsertUserMessage D gen body (g, d) = (r, g', d')"
  shows "tables_ok (last_of g') (contents d') (indexes d')"
proof (cases body)
  case (Inl e)
  then show ?thesis using run ok by (simp add: InsertUserMessage_def)
next
  case (Inr req)
  obtain i j k g1 g2 g3 where gen: "gen g = (i, g1)" "gen g1 = (j, g2)" "gen g2 = (k, g3)" by (metis surj_pair)
  have up: "last_of g < i" "last_of g1 = i" "i < j" "last_of g2 = j" "j < k" "last_of g3 = k"
    using assms(3) gen unfolding gen_law_def by (metis fst_conv snd_conv)+
  show ?thesis
  proof (cases "im_Message req")
    case None
    then have "g' = g1" "d' = d" using run by (auto simp: Inr InsertUserMessage_def gen)
    then show ?thesis using ok up by (auto intro: tables_ok_mono)
  next
    case (Some m)
    define x where "x = \<lparr>ix_ID = j, ix_AccountA = im_Dest req, ix_AccountB = im_Sender req, ix_Direction = 0 :: 8 word,
      ix_MessageID = i, ix_Group = '''', ix_SendTime = im_SendTime req\<rparr>"
    define y where "y = \<lparr>ix_ID = k, ix_AccountA = im_Sender req, ix_AccountB = im_Dest req, ix_Direction = 1 :: 8 word,
      ix_MessageID = i, ix_Group = '''', ix_SendTime = im_SendTime req\<rparr>"
    define c where "c = content_of i (im_SendTime req) m"
    have f: "mc_ID c = i" "ix_ID x = j" "ix_ID y = k" "row_pair c x y"
      by (simp_all add: c_def x_def y_def content_of_def row_pair_def)
    obtain err e where tx: "db_Transaction D (create_both D c [x, y]) d = (err, e)" by fastforce
    have g': "g' = g3" "d' = e"
      using run tx by (auto simp: Inr InsertUserMessage_def gen Some x_def y_def c_def split: option.splits)
    show ?thesis
    proof (cases err)
      case None
      then have "contents d' = add_mset c (contents d)" "indexes d' = indexes d + {#x, y#}"
        using create_both_tables [OF assms(1,2) tx] g' by (simp_all add: add_mset_commute)
      then show ?thesis using tables_ok_add [OF ok _ _ _ f(4)] f up g' by (simp only:)
    next
      case (Some e0)
      then have "d' = d" using create_both_tables [OF assms(1,2) tx] g' by simp
      moreover have "last_of g \<le> last_of g'" using up g' by simp
      ultimately show ?thesis using ok by (auto intro: tables_ok_mono)
    qed
  qed
qed

lemma user_history_ok:
  "tx_law D \<Longrightarrow> table_laws D contents indexes \<Longrightarrow> gen_law gen last_of \<Longrightarrow> tables_ok (last_of g) (contents d) (indexes d)
     \<Longrightarrow> store_all B D gen (map ToUser bodies) (g, d) = (g', d') \<Longrightarrow> tables_ok (last_of g') (contents d') (indexes d')"
proof (induction bodies arbitrary: g d)
  case (Cons body bodies)
  obtain r g1 d1 where one: "InsertUserMessage D gen body (g, d) = (r, g1, d1)" by (metis surj_pair)
  then have "store_all B D gen (map ToUser bodies) (g1, d1) = (g', d')"
    using Cons.prems(5) by (simp add: store_all_def store_do_def)
  moreover have "tables_ok (last_of g1) (contents d1) (indexes d1)" by (rule user_request_ok [OF Cons.prems(1-4) one])
  ultimately show ?case using Cons.IH Cons.prems(1-3) by blast
qed (simp add: store_all_def)

text \<open>C21: The type of the message tables.  Whatever requests to store messages to users are made, failing, rolled
  back and panicking ones included, the tables keep their type: no two rows of a table have one
  identifier, every stored content has exactly its two index rows, mirror images of each other with
  the content's send time, incoming for the receiver and outgoing for the sender, and no index row is
  without its content.  Empty tables are of that type.\<close>

theorem message_tables:
  assumes "tx_law D" and "table_laws D contents indexes" and "gen_law gen last_of"
    and "tables_ok (last_of g) (contents d) (indexes d)"
    and "store_all B D gen (map ToUser bodies) (g, d) = (g', d')"
  shows "(\<forall>i. count (image_mset mc_ID (contents d')) i \<le> 1) \<and> (\<forall>i. count (image_mset ix_ID (indexes d')) i \<le> 1)
    \<and> (\<forall>c \<in># contents d'. \<exists>x y. rows_of (mc_ID c) (indexes d') = {#x, y#} \<and> row_pair c x y)
    \<and> (\<forall>x \<in># indexes d'. \<exists>c \<in># contents d'. mc_ID c = ix_MessageID x)
    \<and> tables_ok (last_of g') (contents d') (indexes d') \<and> tables_ok n {#} {#}"
proof -
  have "tables_ok (last_of g') (contents d') (indexes d')" by (rule user_history_ok [OF assms])
  moreover have "tables_ok n {#} {#}" by (simp add: tables_ok_def)
  ultimately show ?thesis by (auto simp: tables_ok_def)
qed

lemma demo_tables: "table_laws demo_db (\<lambda>d. mset (fst d)) (\<lambda>d. mset (snd d))"
  by (simp add: table_laws_def demo_db_def)

theorem message_tables_witness:
  "\<exists>d. store_all demo_db demo_db (\<lambda>n. (int n, Suc n)) (map ToUser [Inr demo_message, Inl ErrEOF, Inr demo_message]) (1, [], []) = (7, d)
     \<and> size (mset (snd d)) = 4 \<and> tables_ok 6 (mset (fst d)) (mset (snd d))"
proof -
  have gen: "gen_law (\<lambda>n. (int n, Suc n)) (\<lambda>n. int n - 1)" by (simp add: gen_law_def)
  obtain d where d: "store_all demo_db demo_db (\<lambda>n. (int n, Suc n)) (map ToUser [Inr demo_message, Inl ErrEOF, Inr demo_message]) (1, [], []) = (7, d)"
    "size (mset (snd d)) = 4"
    by (simp add: store_all_def store_do_def InsertUserMessage_def create_both_def demo_db_def demo_message_def Let_def)
  have "tables_ok (int 1 - 1) (mset (fst ([], []))) (mset (snd ([], [])))" by (simp add: tables_ok_def)
  from message_tables [OF demo_tx demo_tables gen this d(1)] d show ?thesis by auto
qed

end
