(* ===== verification/Offline.thy ===== *)
theory Offline
  imports MessageStore Config
begin

text \<open>
  Offline synchronisation (\<open>services/service/handler/message_handler.go\<close>): the read index that the cache
  keeps for an account, and a client that fetches the index of its messages page after page, each
  request naming the last message of the page before.
\<close>

section \<open>The read index in the cache\<close>

text \<open>The number is read with \<open>Int64\<close> of the redis client, which parses the decimal text and whose error is dropped.\<close>

definition cached_ack :: "'r redis \<Rightarrow> string \<Rightarrow> 'r \<Rightarrow> int" where
  "cached_ack R account r =
     (case rd_Get R (KeyMessageAckIndex account) r of Inl _ \<Rightarrow> 0 | Inr bts \<Rightarrow> go_Atoi (of_bytes bts))"

lemma go_Atoi_show_int:
  assumes "- (2 ^ 63) \<le> i" and "i < 2 ^ 63"
  shows "go_Atoi (show_int i) = i"
proof (cases "i < 0")
  case True
  have "show_nat (nat (- i)) \<noteq> []" by (simp add: show_nat.simps [of "nat (- i)"])
  moreover have "\<forall>c \<in> set (show_nat (nat (- i))). is_digit_char c" by (simp add: show_nat_digits)
  ultimately show ?thesis using True assms(1) by (auto simp: show_int_def go_Atoi_def Let_def digits_value_show)
next
  case False
  then show ?thesis using assms(2) by (simp add: show_int_def go_Atoi_show nat_less_iff)
qed

lemma cached_ack_set:
  assumes "redis_laws R" and "setMessageAck R account m r = (None, r1)" and "m \<noteq> 0" "- (2 ^ 63) \<le> m" "m < 2 ^ 63"
  shows "cached_ack R account r1 = m"
proof -
  have "rd_Set R (KeyMessageAckIndex account) (to_bytes (show_int m)) r = (None, r1)"
    using assms(2,3) by (simp add: setMessageAck_def)
  then have "rd_Get R (KeyMessageAckIndex account) r1 = Inr (to_bytes (show_int m))"
    using assms(1) by (simp add: redis_laws_def)
  then show ?thesis by (simp add: cached_ack_def go_Atoi_show_int [OF assms(4,5)])
qed

lemma cached_ack_other:
  assumes "redis_laws R" and "setMessageAck R account m r = (None, r1)" and "b \<noteq> account"
  shows "cached_ack R b r1 = cached_ack R b r"
  using assms by (auto simp: setMessageAck_def cached_ack_def redis_laws_def KeyMessageAckIndex_def split: if_splits)

section \<open>What is assumed of the tables\<close>

text \<open>
  A request selects five columns; \<open>shown\<close> is the database's reading of the part of the condition after
  the send time, which the code leaves without a comparison; \<open>N\<close> is the bound on the rows of a page.
\<close>

definition picked :: "message_index \<Rightarrow> message_index" where
  "picked x = x\<lparr>ix_ID := 0, ix_AccountA := ''''\<rparr>"

lemma picked_simps [simp]:
  "ix_SendTime (picked x) = ix_SendTime x" "ix_MessageID (picked x) = ix_MessageID x"
  by (simp_all add: picked_def)

definition wanted ::
    "('d \<Rightarrow> message_index multiset) \<Rightarrow> (message_index \<Rightarrow> bool) \<Rightarrow> string \<Rightarrow> int \<Rightarrow> 'd \<Rightarrow> message_index multiset" where
  "wanted indexes shown account t d =
     image_mset picked (filter_mset (\<lambda>x. ix_AccountA x = account \<and> t < ix_SendTime x \<and> shown x) (indexes d))"

definition index_law ::
    "'d db \<Rightarrow> ('d \<Rightarrow> message_index multiset) \<Rightarrow> (message_index \<Rightarrow> bool) \<Rightarrow> nat \<Rightarrow> bool" where
  "index_law D indexes shown N \<longleftrightarrow>
     (\<forall>account t d. \<exists>rows. db_Index D account t d = Inr (take N rows) \<and> sorted (map ix_SendTime rows)
        \<and> mset rows = wanted indexes shown account t d)"

definition sent_law :: "'d db \<Rightarrow> ('d \<Rightarrow> message_content multiset) \<Rightarrow> bool" where
  "sent_law D contents \<longleftrightarrow>
     (\<forall>d c. c \<in># contents d \<longrightarrow> (\<forall>b \<in># contents d. mc_ID b = mc_ID c \<longrightarrow> mc_SendTime b = mc_SendTime c)
        \<longrightarrow> db_SendTime D (mc_ID c) d = Inr (mc_SendTime c))"

definition sets_ok :: "'r redis \<Rightarrow> bool" where
  "sets_ok R \<longleftrightarrow> (\<forall>k v r. \<exists>r1. rd_Set R k v r = (None, r1))"

lemma sets_okE: "sets_ok R \<Longrightarrow> (\<And>r1. setMessageAck R account m r = (None, r1) \<Longrightarrow> thesis) \<Longrightarrow> thesis"
  unfolding sets_ok_def setMessageAck_def by (cases "m = 0") auto

lemma tables_ok_unique:
  assumes "tables_ok n cs ixs" and "c \<in># cs" "b \<in># cs" "mc_ID b = mc_ID c"
  shows "b = c"
proof (rule ccontr)
  assume "b \<noteq> c"
  then obtain es where "cs = add_mset b (add_mset c es)"
    using assms(2,3) by (metis insert_DiffM insert_noteq_member)
  then have "2 \<le> count (image_mset mc_ID cs) (mc_ID c)" using assms(4) by simp
  moreover have "count (image_mset mc_ID cs) (mc_ID c) \<le> 1" using assms(1) by (simp add: tables_ok_def)
  ultimately show False by simp
qed

text \<open>In tables of their type the send time of a row's message is the row's.\<close>

lemma row_sent:
  assumes "sent_law D contents" and ok: "tables_ok n (contents d) (indexes d)" and "x \<in># indexes d"
  shows "db_SendTime D (ix_MessageID x) d = Inr (ix_SendTime x)"
proof -
  obtain c where c: "c \<in># contents d" "mc_ID c = ix_MessageID x"
    using ok assms(3) by (auto simp: tables_ok_def)
  obtain y z where yz: "rows_of (mc_ID c) (indexes d) = {#y, z#}" "row_pair c y z"
    using ok c(1) by (auto simp: tables_ok_def)
  have "x \<in># rows_of (mc_ID c) (indexes d)" using assms(3) c(2) by (simp add: rows_of_def)
  then have "x = y \<or> x = z" using yz(1) by simp
  then have "ix_SendTime x = mc_SendTime c" using yz(2) by (auto simp: row_pair_def)
  moreover have "db_SendTime D (mc_ID c) d = Inr (mc_SendTime c)"
    using assms(1) c(1) tables_ok_unique [OF ok c(1)] unfolding sent_law_def by blast
  ultimately show ?thesis using c(2) by simp
qed

lemma wanted_row:
  assumes "z \<in># wanted indexes shown account t d"
  obtains x where "x \<in># indexes d" "ix_MessageID x = ix_MessageID z" "ix_SendTime x = ix_SendTime z" "t < ix_SendTime z"
  using assms by (auto simp: wanted_def)

lemma wanted_later:
  "t \<le> u \<Longrightarrow> wanted indexes shown account u d = filter_mset (\<lambda>x. u < ix_SendTime x) (wanted indexes shown account t d)"
  by (auto simp: wanted_def filter_mset_image_mset filter_filter_mset intro!: arg_cong [where f = "image_mset picked"] filter_mset_cong)

section \<open>A client that fetches its pages\<close>

text \<open>
  One request for each moment (the times the handler takes: a day ago, and the days a message is kept
  ago), until a page is empty: the rows fetched, whether the empty page was reached, and the cache.
\<close>

fun pages ::
    "'d db \<Rightarrow> 'r redis \<Rightarrow> string \<Rightarrow> (int \<times> int) list \<Rightarrow> int \<Rightarrow> 'r \<Rightarrow> 'd \<Rightarrow> message_index list \<times> bool \<times> 'r" where
  "pages D R account [] m r d = ([], False, r)"
| "pages D R account ((yesterday, earliest) # moments) m r d =
     (case GetOfflineMessageIndex D R (cached_ack R) yesterday earliest (Inr (account, m)) (r, d) of
        (Negotiate rows, r1) \<Rightarrow>
          if rows = [] then ([], True, r1)
          else (case pages D R account moments (ix_MessageID (last rows)) r1 d of
                  (rest, fin, r2) \<Rightarrow> (rows @ rest, fin, r2))
      | (_, r1) \<Rightarrow> ([], False, r1))"

lemma pages_request:
  assumes "index_law D indexes shown N" and "sets_ok R"
    and "getSentTime D (cached_ack R account r) yesterday earliest m d = t"
  obtains rows r1 where "mset rows = wanted indexes shown account t d" "sorted (map ix_SendTime rows)"
    "setMessageAck R account m r = (None, r1)"
    "GetOfflineMessageIndex D R (cached_ack R) yesterday earliest (Inr (account, m)) (r, d) = (Negotiate (take N rows), r1)"
proof -
  obtain rows where rows: "db_Index D account t d = Inr (take N rows)" "sorted (map ix_SendTime rows)"
    "mset rows = wanted indexes shown account t d" using assms(1) unfolding index_law_def by blast
  obtain r1 where r1: "setMessageAck R account m r = (None, r1)" by (rule sets_okE [OF assms(2)])
  show thesis by (rule that [OF rows(3,2) r1]) (simp add: GetOfflineMessageIndex_def assms(3) rows(1) r1)
qed

lemma sorted_times_strict:
  assumes "sorted (map ix_SendTime rows)" and "\<forall>u. count (image_mset ix_SendTime (mset rows)) u \<le> 1"
  shows "sorted_wrt (<) (map ix_SendTime rows)"
proof -
  have "distinct (map ix_SendTime rows)"
    using assms(2) by (auto simp: distinct_count_atmost_1 le_antisym simp flip: mset_map)
  then show ?thesis using assms(1) by (simp add: strict_sorted_iff)
qed

text \<open>The rows after the last row of a page are the rest of the list, when the send times differ.\<close>

lemma rest_of_page:
  assumes "sorted_wrt (<) (map ix_SendTime rows)" and "rows \<noteq> []" "0 < N"
  shows "filter (\<lambda>x. ix_SendTime (last (take N rows)) < ix_SendTime x) rows = drop N rows"
proof -
  obtain ys z where page: "take N rows = ys @ [z]"
    using assms(2,3) by (metis append_butlast_last_id take_eq_Nil2 neq0_conv)
  then have rows: "rows = ys @ z # drop N rows" by (metis append.assoc append_Cons append_Nil append_take_drop_id)
  then have "sorted_wrt (<) (map ix_SendTime (ys @ z # drop N rows))" using assms(1) by simp
  then have s: "\<forall>x \<in> set ys. ix_SendTime x < ix_SendTime z" "\<forall>x \<in> set (drop N rows). ix_SendTime z < ix_SendTime x"
    by (auto simp: sorted_wrt_append)
  then have "filter (\<lambda>x. ix_SendTime z < ix_SendTime x) ys = []" by (auto simp: filter_empty_conv not_less)
  moreover have "filter (\<lambda>x. ix_SendTime z < ix_SendTime x) (drop N rows) = drop N rows" using s(2) by simp
  ultimately have "filter (\<lambda>x. ix_SendTime z < ix_SendTime x) (ys @ z # drop N rows) = drop N rows" by simp
  then show ?thesis using page rows by simp
qed

lemma row_start:
  assumes "sent_law D contents" and "tables_ok n (contents d) (indexes d)" and "z \<in># wanted indexes shown account t d"
    and "0 < ix_MessageID z" "0 < earliest"
  shows "getSentTime D c yesterday earliest (ix_MessageID z) d = max earliest (ix_SendTime z)"
proof -
  obtain x where "x \<in># indexes d" "ix_MessageID x = ix_MessageID z" "ix_SendTime x = ix_SendTime z"
    by (rule wanted_row [OF assms(3)])
  then have "db_SendTime D (ix_MessageID z) d = Inr (ix_SendTime z)" using row_sent [of D contents n d indexes x] assms(1,2) by simp
  then show ?thesis using assms(4,5) by (auto simp: getSentTime_def Let_def)
qed

lemma times_unique:
  assumes "sorted_wrt (<) (map ix_SendTime xs)" "sorted_wrt (<) (map ix_SendTime ys)" and "mset xs = mset ys"
  shows "xs = ys"
proof -
  have "set xs = set ys" using assms(3) by (rule mset_eq_setD)
  moreover have "inj_on ix_SendTime (set xs)" using assms(1) by (simp add: strict_sorted_iff distinct_map)
  ultimately show ?thesis
    using assms(1,2) map_sorted_distinct_set_unique [of ix_SendTime xs ys] by (simp add: strict_sorted_iff)
qed

lemma pages_all:
  assumes laws: "redis_laws R" "sets_ok R" "index_law D indexes shown N" "sent_law D contents"
    and ok: "tables_ok n (contents d) (indexes d)" and N: "0 < N"
  shows "moments \<noteq> [] \<Longrightarrow> getSentTime D (cached_ack R account r) (fst (hd moments)) (snd (hd moments)) m d = t \<Longrightarrow>
     \<forall>x \<in># wanted indexes shown account t d. 0 < ix_MessageID x \<and> ix_MessageID x < 2 ^ 63 \<Longrightarrow>
     \<forall>w \<in> set moments. 0 < snd w \<and> (\<forall>x \<in># wanted indexes shown account t d. snd w \<le> ix_SendTime x) \<Longrightarrow>
     \<forall>u. count (image_mset ix_SendTime (wanted indexes shown account t d)) u \<le> 1 \<Longrightarrow>
     size (wanted indexes shown account t d) + N \<le> N * length moments \<Longrightarrow>
     \<exists>rows r'. pages D R account moments m r d = (rows, True, r') \<and> mset rows = wanted indexes shown account t d
       \<and> sorted_wrt (<) (map ix_SendTime rows) \<and> (rows = [] \<longrightarrow> setMessageAck R account m r = (None, r'))
       \<and> (rows \<noteq> [] \<longrightarrow> cached_ack R account r' = ix_MessageID (last rows))"
proof (induction moments arbitrary: m r t)
  case (Cons w moments)
  obtain yesterday earliest where w: "w = (yesterday, earliest)" by (cases w)
  have t: "getSentTime D (cached_ack R account r) yesterday earliest m d = t" using Cons.prems(2) w by simp
  obtain rows r1 where rows: "mset rows = wanted indexes shown account t d" "sorted (map ix_SendTime rows)"
      and ack: "setMessageAck R account m r = (None, r1)"
      and req: "GetOfflineMessageIndex D R (cached_ack R) yesterday earliest (Inr (account, m)) (r, d) = (Negotiate (take N rows), r1)"
    by (rule pages_request [OF laws(3,2) t])
  have strict: "sorted_wrt (<) (map ix_SendTime rows)"
    by (rule sorted_times_strict [OF rows(2)]) (use Cons.prems(5) rows(1) in simp)
  show ?case
  proof (cases "rows = []")
    case True
    then show ?thesis using req ack rows(1) w by auto
  next
    case False
    define z where "z = last (take N rows)"
    have ne: "take N rows \<noteq> []" using False N by simp
    then have "z \<in> set rows" unfolding z_def by (meson in_set_takeD last_in_set)
    then have z: "z \<in># wanted indexes shown account t d" using rows(1) by (metis set_mset_mset)
    have "t < ix_SendTime z" using z by (rule wanted_row)
    then have "wanted indexes shown account (ix_SendTime z) d
        = filter_mset (\<lambda>x. ix_SendTime z < ix_SendTime x) (wanted indexes shown account t d)"
      by (intro wanted_later) simp
    also have "\<dots> = mset (filter (\<lambda>x. ix_SendTime z < ix_SendTime x) rows)" using rows(1) by (metis mset_filter)
    also have "filter (\<lambda>x. ix_SendTime z < ix_SendTime x) rows = drop N rows"
      unfolding z_def by (rule rest_of_page [OF strict False N])
    finally have later: "wanted indexes shown account (ix_SendTime z) d = mset (drop N rows)" .
    have sub: "x \<in># wanted indexes shown account t d" if "x \<in> set (drop N rows)" for x
      using that rows(1) by (metis in_set_dropD set_mset_mset)
    have size: "size (wanted indexes shown account t d) = length rows" using rows(1) by (metis size_mset)
    have len: "length rows \<le> N * length moments" using Cons.prems(6) size by simp
    then have mom: "moments \<noteq> []" using False by auto
    obtain rest r' where rest: "pages D R account moments (ix_MessageID z) r1 d = (rest, True, r')"
      "mset rest = mset (drop N rows)" "sorted_wrt (<) (map ix_SendTime rest)"
      "rest = [] \<Longrightarrow> setMessageAck R account (ix_MessageID z) r1 = (None, r')"
      "rest \<noteq> [] \<Longrightarrow> cached_ack R account r' = ix_MessageID (last rest)"
    proof -
      have "0 < snd (hd moments) \<and> snd (hd moments) \<le> ix_SendTime z" using Cons.prems(4) mom z by simp
      then have 1: "getSentTime D (cached_ack R account r1) (fst (hd moments)) (snd (hd moments)) (ix_MessageID z) d = ix_SendTime z"
        using row_start [OF laws(4) ok z] Cons.prems(3) z by (simp add: max_def)
      have count: "count (image_mset ix_SendTime (mset (drop N rows))) u \<le> 1" for u
      proof -
        have "mset rows = mset (take N rows) + mset (drop N rows)" by (metis append_take_drop_id mset_append)
        then have "count (image_mset ix_SendTime (mset (drop N rows))) u \<le> count (image_mset ix_SendTime (mset rows)) u" by simp
        then show ?thesis using Cons.prems(5) rows(1) by (metis order_trans)
      qed
      have enough: "length rows - N + N \<le> N * length moments" using len mom by (cases moments) auto
      show thesis
        using Cons.IH [OF mom 1, unfolded later] Cons.prems(3,4) sub count enough that by auto
    qed
    have eq: "rest = drop N rows"
    by (rule times_unique [OF rest(3) _ rest(2)]) (use strict in \<open>simp add: sorted_wrt_drop flip: drop_map\<close>)
    have rows': "rows = take N rows @ rest" using eq by simp
    have "pages D R account (w # moments) m r d = (take N rows @ rest, True, r')"
      using req ne rest(1) by (simp add: w z_def)
    moreover have "cached_ack R account r' = ix_MessageID (last (take N rows @ rest))"
    proof (cases "rest = []")
      case True
      then have "setMessageAck R account (ix_MessageID z) r1 = (None, r')" by (rule rest(4))
      then have "cached_ack R account r' = ix_MessageID z"
        by (rule cached_ack_set [OF laws(1)]) (use Cons.prems(3) z in force)+
      then show ?thesis by (simp add: True z_def)
    qed (simp add: rest(5))
    ultimately show ?thesis using rows(1) strict rows' False by metis
  qed
qed simp

section \<open>What a client gets\<close>

text \<open>
  What a synchronisation needs: tables of their type, messages with positive 64-bit identifiers that
  are still kept when they are asked for and were not sent at one instant, and a request for each page
  and the empty one.
\<close>

definition fetchable ::
    "('d \<Rightarrow> message_content multiset) \<Rightarrow> ('d \<Rightarrow> message_index multiset) \<Rightarrow> (message_index \<Rightarrow> bool) \<Rightarrow> nat \<Rightarrow> string
       \<Rightarrow> (int \<times> int) list \<Rightarrow> int \<Rightarrow> 'd \<Rightarrow> bool" where
  "fetchable contents indexes shown N account moments t d \<longleftrightarrow>
     moments \<noteq> [] \<and> (\<exists>n. tables_ok n (contents d) (indexes d))
     \<and> (\<forall>x \<in># wanted indexes shown account t d. 0 < ix_MessageID x \<and> ix_MessageID x < 2 ^ 63)
     \<and> (\<forall>w \<in> set moments. 0 < snd w \<and> (\<forall>x \<in># wanted indexes shown account t d. snd w \<le> ix_SendTime x))
     \<and> (\<forall>u. count (image_mset ix_SendTime (wanted indexes shown account t d)) u \<le> 1)
     \<and> size (wanted indexes shown account t d) + N \<le> N * length moments"

lemma fetch_all:
  assumes laws: "redis_laws R" "sets_ok R" "index_law D indexes shown N" "sent_law D contents" "0 < N"
    and start: "getSentTime D (cached_ack R account r) (fst (hd moments)) (snd (hd moments)) m d = t"
    and fetch: "fetchable contents indexes shown N account moments t d"
    and run: "pages D R account moments m r d = (rows, fin, r1)"
  shows "fin" "mset rows = wanted indexes shown account t d" "sorted_wrt (<) (map ix_SendTime rows)"
    "rows \<noteq> [] \<Longrightarrow> cached_ack R account r1 = ix_MessageID (last rows)"
proof -
  obtain n where ok: "tables_ok n (contents d) (indexes d)" using fetch unfolding fetchable_def by blast
  note f = fetch [unfolded fetchable_def]
  obtain rows' r' where p: "pages D R account moments m r d = (rows', True, r')" "mset rows' = wanted indexes shown account t d"
      "sorted_wrt (<) (map ix_SendTime rows')" "rows' \<noteq> [] \<longrightarrow> cached_ack R account r' = ix_MessageID (last rows')"
    using pages_all [where contents = contents and indexes = indexes, OF laws(1-4) ok laws(5) _ start] f by blast
  then show "fin" "mset rows = wanted indexes shown account t d" "sorted_wrt (<) (map ix_SendTime rows)"
    "rows \<noteq> [] \<Longrightarrow> cached_ack R account r1 = ix_MessageID (last rows)"
    using run by simp_all
qed

lemma cold_start:
  assumes "sent_law D contents" "tables_ok n (contents d) (indexes d)" "contents d \<subseteq># contents d2"
    and "tables_ok n2 (contents d2) (indexes d2)" "z \<in># wanted indexes shown account t d"
    and "0 < ix_MessageID z" "0 < earliest"
  shows "getSentTime D (ix_MessageID z) yesterday earliest 0 d2 = max earliest (ix_SendTime z)"
proof -
  obtain x where x: "x \<in># indexes d" "ix_MessageID x = ix_MessageID z" "ix_SendTime x = ix_SendTime z"
    by (rule wanted_row [OF assms(5)])
  then obtain c where c: "c \<in># contents d" "mc_ID c = ix_MessageID z" using assms(2) by (auto simp: tables_ok_def)
  have "db_SendTime D (ix_MessageID z) d = Inr (ix_SendTime z)"
    using row_sent [of D contents n d indexes x] assms(1,2) x by simp
  moreover have "db_SendTime D (mc_ID c) d = Inr (mc_SendTime c)"
    using assms(1) c(1) tables_ok_unique [OF assms(2) c(1)] unfolding sent_law_def by blast
  moreover have "db_SendTime D (mc_ID c) d2 = Inr (mc_SendTime c)"
    using assms(1) mset_subset_eqD [OF assms(3) c(1)] tables_ok_unique [OF assms(4)] unfolding sent_law_def by blast
  ultimately have "db_SendTime D (ix_MessageID z) d2 = Inr (ix_SendTime z)" using c(2) by simp
  then show ?thesis using assms(6,7) by (auto simp: getSentTime_def Let_def)
qed

lemma times_last:
  assumes "sorted_wrt (<) (map ix_SendTime rows)"
  shows "\<forall>x \<in> set rows. ix_SendTime x \<le> ix_SendTime (last rows)"
proof (cases rows rule: rev_cases)
  case (snoc ys z)
  then show ?thesis using assms by (auto simp: sorted_wrt_append)
qed simp


section \<open>Group messages\<close>

text \<open>A message that is not in the table is not found.\<close>

definition missing_law :: "'d db \<Rightarrow> ('d \<Rightarrow> message_content multiset) \<Rightarrow> bool" where
  "missing_law D contents \<longleftrightarrow> (\<forall>d i. (\<forall>c \<in># contents d. mc_ID c \<noteq> i) \<longrightarrow> (\<exists>e. db_SendTime D i d = Inl e))"

lemma member_indexes_rows:
  "x \<in> set (fst (member_indexes gen req ms g)) \<Longrightarrow>
     (\<exists>m \<in> set ms. ix_MessageID x = gm_ID m \<and> ix_AccountA x = gm_Account m) \<and> ix_SendTime x = im_SendTime req"
  by (induction ms arbitrary: g) (auto simp: Let_def split_beta)

lemma group_rows:
  assumes "tx_law D" "table_laws D contents indexes" and "db_Members B (im_Dest req) d = Inr members"
    and run: "InsertGroupMessage B D gen (Inr req) (g, d) = (Ret (Negotiate i), g', d')"
  obtains rows where "indexes d' = indexes d + mset rows" "map ix_AccountA rows = map gm_Account members"
    "\<forall>x \<in> set rows. ix_MessageID x \<in> gm_ID ` set members \<and> ix_SendTime x = im_SendTime req"
proof -
  obtain n g1 where g1: "gen g = (n, g1)" by (cases "gen g")
  obtain rows g2 where rows: "member_indexes gen req members g1 = (rows, g2)" by (cases "member_indexes gen req members g1")
  obtain m where m: "im_Message req = Some m"
    using assms(3) run by (cases "im_Message req") (auto simp: InsertGroupMessage_def g1 rows)
  obtain err d1 where tx: "db_Transaction D (create_both D (content_of n (im_SendTime req) m) rows) d = (err, d1)"
    by (cases "db_Transaction D (create_both D (content_of n (im_SendTime req) m) rows) d")
  have "err = None" "d1 = d'" using run assms(3) m tx by (auto simp: InsertGroupMessage_def g1 rows split: option.splits)
  then have "indexes d' = indexes d + mset rows" using create_both_tables [OF assms(1,2) tx] by simp
  then show thesis
  proof (rule that)
    show "map ix_AccountA rows = map gm_Account members"
      using member_indexes_map [of gen req members g1] by (simp add: rows)
    show "\<forall>x \<in> set rows. ix_MessageID x \<in> gm_ID ` set members \<and> ix_SendTime x = im_SendTime req"
      using member_indexes_rows [of _ gen req members g1] by (auto simp: rows)
  qed
qed

text \<open>A page whose last row has the latest send time of a queue that ends in dangling rows.\<close>

lemma dangling_pages:
  assumes laws: "sets_ok R" "index_law D indexes shown N" and "0 < earliest" "earliest \<le> yesterday" "yesterday < u"
    and few: "size (wanted indexes shown account 0 d) \<le> N"
    and last: "x0 \<in># wanted indexes shown account 0 d" "ix_SendTime x0 = u"
    and ids: "\<forall>x \<in># wanted indexes shown account 0 d. u \<le> ix_SendTime x \<longrightarrow>
       0 < ix_MessageID x \<and> (\<exists>e. db_SendTime D (ix_MessageID x) d = Inl e)"
  shows "getSentTime D (cached_ack R account r) yesterday earliest m d < u \<Longrightarrow>
    \<exists>rows r1. pages D R account (replicate k (yesterday, earliest)) m r d = (rows, False, r1) \<and> k \<le> length rows"
proof (induction k arbitrary: m r)
  case (Suc k)
  define t where "t = getSentTime D (cached_ack R account r) yesterday earliest m d"
  have t: "0 < t" "t < u" using Suc.prems assms(3) by (auto simp: t_def getSentTime_def Let_def)
  obtain rows r1 where rows: "mset rows = wanted indexes shown account t d" "sorted (map ix_SendTime rows)"
      and req: "GetOfflineMessageIndex D R (cached_ack R) yesterday earliest (Inr (account, m)) (r, d) = (Negotiate (take N rows), r1)"
    by (rule pages_request [OF laws(2,1) t_def [symmetric]])
  have mset: "mset rows = filter_mset (\<lambda>x. t < ix_SendTime x) (wanted indexes shown account 0 d)"
    using rows(1) wanted_later [of 0 t] t by simp
  have "size (mset rows) \<le> N" using few size_filter_mset_lesseq by (metis mset order_trans)
  then have len: "take N rows = rows" by simp
  have "x0 \<in># mset rows" using mset last t by simp
  then have x0: "x0 \<in> set rows" by simp
  then have ne: "rows \<noteq> []" by auto
  have "ix_SendTime x0 \<le> ix_SendTime (List.last rows)"
    using rows(2) x0 by (cases rows rule: rev_cases) (auto simp: sorted_append)
  moreover have "List.last rows \<in># wanted indexes shown account 0 d"
    using mset ne by (metis last_in_set mset_subset_eqD multiset_filter_subset set_mset_mset)
  ultimately obtain e where e: "0 < ix_MessageID (List.last rows)" "db_SendTime D (ix_MessageID (List.last rows)) d = Inl e"
    using ids last(2) by blast
  then have "getSentTime D (cached_ack R account r1) yesterday earliest (ix_MessageID (List.last rows)) d < u"
    using assms(3-5) by (simp add: getSentTime_def Let_def)
  from Suc.IH [OF this] obtain rest r2 where
    "pages D R account (replicate k (yesterday, earliest)) (ix_MessageID (List.last rows)) r1 d = (rest, False, r2)" "k \<le> length rest"
    by blast
  then show ?case using req len ne by (cases rows) auto
qed simp


section \<open>A database that can be asked\<close>

text \<open>The rows whose direction is not 0, in the order of their send times, one to a page.\<close>

definition sync_db :: "nat \<Rightarrow> (message_content list \<times> message_index list) db" where
  "sync_db N = demo_db\<lparr>db_Index := \<lambda>a t d. Inr (take N (map picked (sort_key ix_SendTime
     (filter (\<lambda>x. ix_AccountA x = a \<and> t < ix_SendTime x \<and> ix_Direction x \<noteq> 0) (snd d)))))\<rparr>"

lemma sync_db_laws:
  "tx_law (sync_db N)" "table_laws (sync_db N) (\<lambda>d. mset (fst d)) (\<lambda>d. mset (snd d))"
  "index_law (sync_db N) (\<lambda>d. mset (snd d)) (\<lambda>x. ix_Direction x \<noteq> 0) N"
  "sent_law (sync_db N) (\<lambda>d. mset (fst d))" "missing_law (sync_db N) (\<lambda>d. mset (fst d))"
proof -
  show "tx_law (sync_db N)" using demo_tx by (simp add: sync_db_def tx_law_def)
  show "table_laws (sync_db N) (\<lambda>d. mset (fst d)) (\<lambda>d. mset (snd d))"
    using demo_tables by (simp add: sync_db_def table_laws_def)
  have "sorted (map ix_SendTime (map picked (sort_key ix_SendTime xs)))" for xs by (simp add: comp_def)
  then show "index_law (sync_db N) (\<lambda>d. mset (snd d)) (\<lambda>x. ix_Direction x \<noteq> 0) N"
    unfolding index_law_def by (auto simp: sync_db_def wanted_def simp flip: mset_filter intro!: exI)
  show "sent_law (sync_db N) (\<lambda>d. mset (fst d))"
  proof (unfold sent_law_def, intro allI impI)
    fix d :: "message_content list \<times> message_index list" and c
    assume c: "c \<in># mset (fst d)" "\<forall>b \<in># mset (fst d). mc_ID b = mc_ID c \<longrightarrow> mc_SendTime b = mc_SendTime c"
    have "c \<in> set (filter (\<lambda>b. mc_ID b = mc_ID c) (fst d))" using c(1) by simp
    then obtain b bs where b: "filter (\<lambda>b. mc_ID b = mc_ID c) (fst d) = b # bs" by (cases "filter (\<lambda>b. mc_ID b = mc_ID c) (fst d)") auto
    then have "b \<in> set (filter (\<lambda>b. mc_ID b = mc_ID c) (fst d))" by simp
    then have "b \<in> set (fst d)" "mc_ID b = mc_ID c" by simp_all
    then show "db_SendTime (sync_db N) (mc_ID c) d = Inr (mc_SendTime c)" using c(2) b by (simp add: sync_db_def demo_db_def)
  qed
  have "filter (\<lambda>c. mc_ID c = i) cs = []" if "\<forall>c \<in> set cs. mc_ID c \<noteq> i" for i cs using that by (simp add: filter_empty_conv)
  then show "missing_law (sync_db N) (\<lambda>d. mset (fst d))" by (simp add: missing_law_def sync_db_def demo_db_def)
qed

text \<open>Ann has sent Bob three messages; she fetches the first two and, cold, the third.\<close>

definition sent_at :: "int \<Rightarrow> store_req" where
  "sent_at t = ToUser (Inr (demo_message\<lparr>im_SendTime := t\<rparr>))"

definition sync_tables :: "int list \<Rightarrow> message_content list \<times> message_index list" where
  "sync_tables ts = snd (store_all demo_db demo_db (\<lambda>n. (int n, Suc n)) (map sent_at ts) (1, [], []))"

lemma sync_tables_ok: "\<exists>n. tables_ok n (mset (fst (sync_tables ts))) (mset (snd (sync_tables ts)))"
proof -
  obtain n d where run: "store_all demo_db demo_db (\<lambda>n. (int n, Suc n)) (map ToUser (map (\<lambda>t. Inr (demo_message\<lparr>im_SendTime := t\<rparr>)) ts))
      (1, [], []) = (n, d)" by (rule prod.exhaust)
  have "gen_law (\<lambda>n. (int n, Suc n)) (\<lambda>n. int n - 1)" by (simp add: gen_law_def)
  moreover have "tables_ok (int 1 - 1) (mset (fst ([], []))) (mset (snd ([], [])))" by (simp add: tables_ok_def)
  ultimately have "tables_ok (int n - 1) (mset (fst d)) (mset (snd d))"
    using user_history_ok [OF demo_tx demo_tables _ _ run, of "\<lambda>n. int n - 1"] by blast
  moreover have "map ToUser (map (\<lambda>t. Inr (demo_message\<lparr>im_SendTime := t\<rparr>)) ts) = map sent_at ts"
    by (simp add: sent_at_def)
  then have "sync_tables ts = d" using run unfolding sync_tables_def by (metis snd_conv)
  ultimately show ?thesis by blast
qed

lemma sync_tables_wanted:
  "wanted (\<lambda>d. mset (snd d)) (\<lambda>x. ix_Direction x \<noteq> 0) ''ann'' t (sync_tables [100, 200]) =
     image_mset picked (filter_mset (\<lambda>x. t < ix_SendTime x)
       {#\<lparr>ix_ID = 6, ix_AccountA = ''ann'', ix_AccountB = ''bob'', ix_Direction = 1, ix_MessageID = 4, ix_Group = '''', ix_SendTime = 200\<rparr>,
         \<lparr>ix_ID = 3, ix_AccountA = ''ann'', ix_AccountB = ''bob'', ix_Direction = 1, ix_MessageID = 1, ix_Group = '''', ix_SendTime = 100\<rparr>#})"
  "wanted (\<lambda>d. mset (snd d)) (\<lambda>x. ix_Direction x \<noteq> 0) ''ann'' t (sync_tables [100, 200, 300]) =
     image_mset picked (filter_mset (\<lambda>x. t < ix_SendTime x)
       {#\<lparr>ix_ID = 9, ix_AccountA = ''ann'', ix_AccountB = ''bob'', ix_Direction = 1, ix_MessageID = 7, ix_Group = '''', ix_SendTime = 300\<rparr>,
         \<lparr>ix_ID = 6, ix_AccountA = ''ann'', ix_AccountB = ''bob'', ix_Direction = 1, ix_MessageID = 4, ix_Group = '''', ix_SendTime = 200\<rparr>,
         \<lparr>ix_ID = 3, ix_AccountA = ''ann'', ix_AccountB = ''bob'', ix_Direction = 1, ix_MessageID = 1, ix_Group = '''', ix_SendTime = 100\<rparr>#})"
  by (simp_all add: wanted_def sync_tables_def sent_at_def store_all_def store_do_def InsertUserMessage_def create_both_def
      demo_db_def demo_message_def Let_def)



end
