(* ===== verification/Construction.thy ===== *)
theory Construction
  imports RoyalServer Commands Offline
begin

text \<open>
  The objects a royal service is made of: its generator of identifiers and its databases
  (\<open>services/service/database\<close>), its access log (\<open>services/service/conf/config.go\<close>), the filter of its
  requests, and the client of consul (\<open>naming/consul/naming.go\<close>).  The libraries that make and run
  them are parameters: what is kept is what the code gives them.
\<close>

section \<open>Identifiers\<close>

text \<open>\<open>'n\<close> is a node of snowflake, \<open>new\<close> its constructor, \<open>generate\<close> its next number.\<close>

record 'n id_generator =
  idg_node :: 'n

definition NewIDGenerator :: "(int \<Rightarrow> error + 'n) \<Rightarrow> int \<Rightarrow> 'n id_generator go" where
  "NewIDGenerator new nodeID = (case new nodeID of Inl err \<Rightarrow> Fail err | Inr node \<Rightarrow> Ret \<lparr>idg_node = node\<rparr>)"

definition id_Next :: "('n \<Rightarrow> int \<times> 'n) \<Rightarrow> 'n id_generator \<Rightarrow> int \<times> 'n id_generator" where
  "id_Next generate g = (let (i, node) = generate (idg_node g) in (i, g\<lparr>idg_node := node\<rparr>))"

definition id_ParseBase36 :: "(string \<Rightarrow> error + int) \<Rightarrow> 'n id_generator \<Rightarrow> string \<Rightarrow> error + int" where
  "id_ParseBase36 parse36 g text = parse36 text"

definition id_Parse :: "(int \<Rightarrow> int) \<Rightarrow> 'n id_generator \<Rightarrow> int \<Rightarrow> int" where
  "id_Parse parse64 g i = parse64 i"

definition GenarateMessageId :: "('n \<Rightarrow> int \<times> 'n) \<Rightarrow> 'n id_generator \<Rightarrow> int \<times> 'n id_generator" where
  "GenarateMessageId generate idgen = id_Next generate idgen"

section \<open>Databases\<close>

record db_logger =
  dl_Prefix :: string
  dl_SlowThreshold :: int
  dl_Warn :: bool  \<comment> \<open>\<open>LogLevel\<close> is \<open>logger.Warn\<close>\<close>
  dl_Colorful :: bool

record db_naming =
  dn_TablePrefix :: string
  dn_SingularTable :: bool
  dn_NameReplacer :: "(string \<times> string) list"

definition millisecond :: int where "millisecond = 1000000"

text \<open>\<open>opener\<close> is \<open>gorm.Open\<close> on the MySQL driver; its database comes back also with an error.\<close>

definition InitMysqlDb :: "(string \<Rightarrow> db_logger \<Rightarrow> db_naming \<Rightarrow> error option \<times> 'd) \<Rightarrow> string \<Rightarrow> error option \<times> 'd" where
  "InitMysqlDb opener dsn =
     (let defaultLogger = \<lparr>dl_Prefix = [CHR 0x0D, CHR 0x0A], dl_SlowThreshold = 200 * millisecond, dl_Warn = True, dl_Colorful = True\<rparr>
      in opener dsn defaultLogger
           \<lparr>dn_TablePrefix = ''t_'', dn_SingularTable = True, dn_NameReplacer = [(''CID'', ''Cid'')]\<rparr>)"

section \<open>Requests\<close>

record access_log =
  ac_Outputs :: "string list"
  ac_Delim :: char
  ac_TimeFormat :: string
  ac_Async :: bool
  ac_IP :: bool
  ac_BytesReceivedBody :: bool
  ac_BytesSentBody :: bool
  ac_BytesReceived :: bool
  ac_BytesSent :: bool
  ac_BodyMinify :: bool
  ac_RequestBody :: bool
  ac_ResponseBody :: bool
  ac_KeepMultiLineError :: bool
  ac_PanicLog_handler :: bool  \<comment> \<open>\<open>PanicLog\<close> is \<open>accesslog.LogHandler\<close>\<close>

text \<open>\<open>file\<close> is \<open>accesslog.File\<close>, which sets what the code does not.\<close>

definition MakeAccessLog :: "(string \<Rightarrow> access_log) \<Rightarrow> access_log" where
  "MakeAccessLog file =
     (let ac = file ''./access.log'';
          ac = ac\<lparr>ac_Outputs := ac_Outputs ac @ [''stdout'']\<rparr>
      in ac\<lparr>ac_Delim := CHR ''|'', ac_TimeFormat := ''2006-01-02 15:04:05'', ac_Async := False, ac_IP := True,
            ac_BytesReceivedBody := True, ac_BytesSentBody := True, ac_BytesReceived := False, ac_BytesSent := False,
            ac_BodyMinify := True, ac_RequestBody := True, ac_ResponseBody := False, ac_KeepMultiLineError := True,
            ac_PanicLog_handler := True\<rparr>)"

text \<open>The filter before every route: what can be sent, what is sent when the request does not say, and the
  handlers after it, which are the argument.\<close>

record negotiation =
  ng_offers :: "string list"
  ng_accepts :: "string list"

definition setAllowedResponses :: "(negotiation \<Rightarrow> 's \<Rightarrow> 's) \<Rightarrow> negotiation \<Rightarrow> 's \<Rightarrow> 's" where
  "setAllowedResponses next_handler ng s =
     (let ng = ng\<lparr>ng_offers := ng_offers ng @ [''application/json'', ''application/protobuf'']\<rparr>;
          ng = ng\<lparr>ng_accepts := ng_accepts ng @ [''application/json'']\<rparr>
      in next_handler ng s)"

section \<open>The client of consul\<close>

record 'k consul_naming =
  cn_cli :: 'k
  cn_watches :: "string \<Rightarrow> bool"

text \<open>\<open>new\<close> is \<open>api.NewClient\<close> of the default configuration with the address replaced.\<close>

definition NewNaming :: "(string \<Rightarrow> error + 'k) \<Rightarrow> string \<Rightarrow> 'k consul_naming go" where
  "NewNaming new consulUrl =
     (case new consulUrl of Inl err \<Rightarrow> Fail err | Inr cli \<Rightarrow> Ret \<lparr>cn_cli = cli, cn_watches = (\<lambda>_. False)\<rparr>)"

definition Deregister :: "('k \<Rightarrow> string \<Rightarrow> 's \<Rightarrow> error option \<times> 's) \<Rightarrow> 'k consul_naming \<Rightarrow> string \<Rightarrow> 's \<Rightarrow> error option \<times> 's" where
  "Deregister call n serviceID s = call (cn_cli n) serviceID s"

section \<open>What the service is made of\<close>

text \<open>The node of a royal service without a configured one is a number the generator's library takes,
  which are those below 1024: the service has its generator.\<close>

lemma generator_made:
  assumes "\<forall>n. (\<exists>node. new n = Inr node) \<longleftrightarrow> 0 \<le> n \<and> n < (1024 :: int)" and "rc_NodeID config = 0"
  shows "\<exists>g. NewIDGenerator new (royal_node config) = Ret g"
proof -
  have "0 \<le> royal_node config \<and> royal_node config < 1024" using assms(2) hash_node by (simp add: royal_node_def)
  then obtain node where "new (royal_node config) = Inr node" using assms(1) by blast
  then show ?thesis by (simp add: NewIDGenerator_def)
qed

text \<open>A generator whose library counts up obeys the law the message tables rest on.\<close>

lemma generator_law: "gen_law generate last_of \<Longrightarrow> gen_law (id_Next generate) (\<lambda>g. last_of (idg_node g))"
  by (simp add: gen_law_def id_Next_def split_beta)

text \<open>A naming client starts without watches, as \<open>Watch\<close> has it.\<close>

lemma NewNaming_watches: "NewNaming new url = Ret n \<Longrightarrow> cn_watches n = (\<lambda>_. False)"
  by (auto simp: NewNaming_def split: sum.splits)

end
