(* ===== verification/Mock.thy ===== *)
theory Mock
  imports WsFrame Commands
begin

text \<open>
  The echo programs of \<open>examples/mock\<close> and \<open>examples/main.go\<close>: a WebSocket server that answers every
  message with itself, and a client that sends five and waits for five.  They are the smallest
  users of \<open>websocket/server.go\<close> and \<open>websocket/client.go\<close>.  Dialling and the connection are
  parameters.
\<close>

section \<open>The server\<close>

text \<open>The first frame is the user's name.\<close>

definition mock_Accept :: "('c \<Rightarrow> frame go \<times> 'c) \<Rightarrow> 'c \<Rightarrow> string go \<times> 'c" where
  "mock_Accept rfr conn =
     (case rfr conn of
        (Fail e, c1) \<Rightarrow> (Fail e, c1)
      | (Panics m, c1) \<Rightarrow> (Panics m, c1)
      | (Ret fr, c1) \<Rightarrow>
          let userID = of_bytes (GetPayload fr)
          in if userID = '''' then (Fail (ErrMsg ''user id is invalid''), c1) else (Ret userID, c1))"

text \<open>\<open>push\<close> is that of the agent; its error is dropped.\<close>

definition mock_Receive :: "(bytes \<Rightarrow> 's \<Rightarrow> unit go \<times> 's) \<Rightarrow> bytes \<Rightarrow> 's \<Rightarrow> unit go \<times> 's" where
  "mock_Receive push payload s = (let ack = of_bytes payload in ignore_error (push (to_bytes ack) s))"

definition mock_Disconnect :: "string \<Rightarrow> unit go" where "mock_Disconnect i = Ret ()"

text \<open>\<open>serve_err\<close> is what \<open>http.ListenAndServe\<close> returns, which is never nil.\<close>

definition mock_server_conf :: "string \<Rightarrow> string \<Rightarrow> string \<Rightarrow> server_conf go" where
  "mock_server_conf i protocol addr =
     (let service = \<lparr>sv_Id = i, sv_Name = '''', sv_Address = '''', sv_Port = 0, sv_Protocol = protocol, sv_Namespace = '''',
            sv_Tags = [], sv_Meta = None\<rparr>
      in if protocol = ''ws''
         then Ret (ws_SetStateListener (ws_SetMessageListener (ws_SetAcceptor (ws_SetReadWait minute (ws_NewServer addr service)))))
         else Panics ''nil server'')"

definition mock_server_Start :: "error \<Rightarrow> string \<Rightarrow> string \<Rightarrow> string \<Rightarrow> unit go" where
  "mock_server_Start serve_err i protocol addr =
     (case mock_server_conf i protocol addr of
        Ret srv \<Rightarrow>
          (case ws_Start srv of
             (Ret _, _) \<Rightarrow> Panics (err_text serve_err)
           | (Fail e, _) \<Rightarrow> Panics (err_text e)
           | (Panics m, _) \<Rightarrow> Panics m)
      | Fail e \<Rightarrow> Fail e
      | Panics m \<Rightarrow> Panics m)"

section \<open>The client\<close>

definition mock_ws_Dial :: "(string \<Rightarrow> error + 'c) \<Rightarrow> ('c \<Rightarrow> bytes \<Rightarrow> error option \<times> 'c) \<Rightarrow> 'c dialer" where
  "mock_ws_Dial dial write_bin ctx =
     (case dial (dc_Address ctx) of
        Inl e \<Rightarrow> Fail e
      | Inr conn \<Rightarrow>
          (case write_bin conn (to_bytes (dc_Id ctx)) of
             (Some e, _) \<Rightarrow> Fail e
           | (None, c1) \<Rightarrow> Ret (Some c1)))"

definition mock_tcp_Dial :: "(string \<Rightarrow> int \<Rightarrow> error + 'c) \<Rightarrow> 'c dialer" where
  "mock_tcp_Dial dial ctx = (case dial (dc_Address ctx) (dc_Timeout ctx) of Inl e \<Rightarrow> Fail e | Inr conn \<Rightarrow> Ret (Some conn))"

definition hello :: bytes where "hello = to_bytes ''hello''"

text \<open>The goroutine that sends: it stops at the first error, which it only logs.\<close>

fun mock_sends :: "'c conn_ops \<Rightarrow> nat \<Rightarrow> 'c client \<Rightarrow> unit go \<times> 'c client" where
  "mock_sends ops 0 c = (Ret (), c)"
| "mock_sends ops (Suc n) c =
     (case ws_Send ops hello c of
        (Ret _, c1) \<Rightarrow> mock_sends ops n c1
      | (Fail e, c1) \<Rightarrow> (Ret (), c1)
      | (Panics m, c1) \<Rightarrow> (Panics m, c1))"

text \<open>The loop that receives: it ends with an error or the fifth binary frame; the messages it has got.\<close>

partial_function (option) mock_reads ::
    "'c conn_ops \<Rightarrow> bytes list \<Rightarrow> 'c client \<Rightarrow> (unit go \<times> bytes list \<times> 'c client) option" where
  "mock_reads ops got c =
     (case ws_Read ops c of
        (Fail e, c1) \<Rightarrow> Some (Ret (), got, c1)
      | (Panics m, c1) \<Rightarrow> Some (Panics m, got, c1)
      | (Ret fr, c1) \<Rightarrow>
          if GetOpCode fr \<noteq> OpBinary then mock_reads ops got c1
          else if length got + 1 = 5 then Some (Ret (), got @ [GetPayload fr], c1)
          else mock_reads ops (got @ [GetPayload fr]) c1)"

text \<open>
  The error of \<open>Connect\<close> is logged and nothing more.  The goroutine's sends are put before the reads: the two share nothing
  but the connection, whose two directions are independent.
\<close>

definition mock_client_Start ::
    "'c conn_ops \<Rightarrow> 'c dialer \<Rightarrow> (string \<Rightarrow> error option) \<Rightarrow> nat \<Rightarrow> string \<Rightarrow> string \<Rightarrow> string
       \<Rightarrow> (unit go \<times> bytes list \<times> 'c client option) option" where
  "mock_client_Start ops dialer url_parse fresh userID protocol addr =
     (if protocol \<noteq> ''ws'' then Some (Panics ''nil client'', [], None)
      else
        let cli = SetDialer dialer (ws_NewClient userID ''client'' fresh \<lparr>Heartbeat = 0, ReadWait = 0, WriteWait = 0\<rparr>);
            (r, c1) = ws_Connect url_parse addr cli
        in case r of
             Panics m \<Rightarrow> Some (Panics m, [], Some c1)
           | _ \<Rightarrow>
               (case mock_sends ops 5 c1 of
                  (Panics m, c2) \<Rightarrow> Some (Panics m, [], Some c2)
                | (_, c2) \<Rightarrow>
                    (case mock_reads ops [] c2 of
                       None \<Rightarrow> None
                     | Some (Panics m, got, c3) \<Rightarrow> Some (Panics m, got, Some c3)
                     | Some (_, got, c3) \<Rightarrow> Some (fst (ws_Close ops c3), got, Some (snd (ws_Close ops c3))))))"

section \<open>The commands\<close>

record mock_options =
  mk_addr :: string
  mk_protocol :: string

definition mock_flags :: "string \<Rightarrow> string \<Rightarrow> flag list" where
  "mock_flags addr usage =
     [\<lparr>fl_Name = ''address'', fl_Shorthand = ''a'', fl_Value = addr, fl_Usage = usage\<rparr>,
      \<lparr>fl_Name = ''protocol'', fl_Shorthand = ''p'', fl_Value = ''ws'', fl_Usage = ''protocol ws or tcp''\<rparr>]"

text \<open>The short texts are \<open>start the test client\<close> and \<open>start the test server\<close> in Chinese.\<close>

definition mock_ClientCmd :: "(mock_options \<Rightarrow> 'r) \<Rightarrow> 'r command" where
  "mock_ClientCmd run =
     \<lparr>cm_Use = ''mock_cli'',
      cm_Short = of_bytes [0xe5, 0x90, 0xaf, 0xe5, 0x8a, 0xa8, 0xe6, 0xb5, 0x8b, 0xe8, 0xaf, 0x95, 0xe5, 0xae, 0xa2, 0xe6, 0x88, 0xb7, 0xe7, 0xab, 0xaf],
      cm_Flags = mock_flags ''ws://localhost:8000'' ''server address'',
      cm_RunE = (\<lambda>v. run \<lparr>mk_addr = v ''address'', mk_protocol = v ''protocol''\<rparr>)\<rparr>"

definition mock_ServerCmd :: "(mock_options \<Rightarrow> 'r) \<Rightarrow> 'r command" where
  "mock_ServerCmd run =
     \<lparr>cm_Use = ''mock_srv'',
      cm_Short = of_bytes [0xe5, 0x90, 0xaf, 0xe5, 0x8a, 0xa8, 0xe6, 0xb5, 0x8b, 0xe8, 0xaf, 0x95, 0xe6, 0x9c, 0x8d, 0xe5, 0x8a, 0xa1, 0xe5, 0x99, 0xa8],
      cm_Flags = mock_flags '':8000'' ''listen address'',
      cm_RunE = (\<lambda>v. run \<lparr>mk_addr = v ''address'', mk_protocol = v ''protocol''\<rparr>)\<rparr>"

text \<open>\<open>runcli\<close> and \<open>runsrv\<close> have no error of their own; \<open>start\<close> is the client's or the server's \<open>Start\<close>.\<close>

definition runcli :: "(string \<Rightarrow> string \<Rightarrow> string \<Rightarrow> unit go) \<Rightarrow> string \<Rightarrow> mock_options \<Rightarrow> unit go" where
  "runcli start ksuid opts = (case start ksuid (mk_protocol opts) (mk_addr opts) of Panics m \<Rightarrow> Panics m | _ \<Rightarrow> Ret ())"

definition runsrv :: "(string \<Rightarrow> string \<Rightarrow> string \<Rightarrow> unit go) \<Rightarrow> mock_options \<Rightarrow> unit go" where
  "runsrv start opts = (case start ''srv1'' (mk_protocol opts) (mk_addr opts) of Panics m \<Rightarrow> Panics m | _ \<Rightarrow> Ret ())"

definition fim_root :: root_command where
  "fim_root = \<lparr>rt_Use = ''fim'', rt_Version = ''v1'', rt_Short = ''server''\<rparr>"

definition examples_main ::
    "(root_command \<Rightarrow> (unit go) command list \<Rightarrow> string list \<Rightarrow> (unit go) ran)
       \<Rightarrow> (mock_options \<Rightarrow> unit go) \<Rightarrow> (mock_options \<Rightarrow> unit go) \<Rightarrow> string list \<Rightarrow> int" where
  "examples_main execute cli srv args =
     (case flag_Parse args of
        Some code \<Rightarrow> code
      | None \<Rightarrow>
          (case execute fim_root [mock_ClientCmd cli, mock_ServerCmd srv] args of
             Shown \<Rightarrow> 0
           | Refused e \<Rightarrow> 1
           | Ran (Ret _) \<Rightarrow> 0
           | Ran (Fail e) \<Rightarrow> 1
           | Ran (Panics m) \<Rightarrow> 2))"

section \<open>Five messages and their echo\<close>

text \<open>A client's connection in good order: \<open>sent\<close> is what was written to it, \<open>incoming\<close> what is still to be read.\<close>

definition good_conn :: "'c conn_ops \<Rightarrow> ('c \<Rightarrow> frame list) \<Rightarrow> ('c \<Rightarrow> frame list) \<Rightarrow> bool" where
  "good_conn ops sent incoming \<longleftrightarrow>
     (\<forall>d k. sent (op_read_deadline ops d k) = sent k \<and> incoming (op_read_deadline ops d k) = incoming k)
     \<and> (\<forall>d k. sent (snd (op_write_deadline ops d k)) = sent k \<and> incoming (snd (op_write_deadline ops d k)) = incoming k)
     \<and> (\<forall>k code p. fst (op_write ops k code p) = Ret () \<and> sent (snd (op_write ops k code p)) = sent k @ [\<lparr>OpCode = code, Payload = p\<rparr>]
          \<and> incoming (snd (op_write ops k code p)) = incoming k)
     \<and> (\<forall>k f fs. incoming k = f # fs \<longrightarrow> fst (op_read ops k) = Ret f \<and> incoming (snd (op_read ops k)) = fs)"

lemma ws_Send_good:
  assumes "good_conn ops sent incoming" "c_state c \<noteq> 0" "c_conn c = Some k"
  obtains k' where "ws_Send ops p c = (Ret (), c\<lparr>c_conn := Some k'\<rparr>)" "sent k' = sent k @ [\<lparr>OpCode = OpBinary, Payload = p\<rparr>]"
    "incoming k' = incoming k"
proof -
  define k1 where "k1 = (if WriteWait (c_options c) > 0 then snd (op_write_deadline ops (WriteWait (c_options c)) k) else k)"
  have k1: "sent k1 = sent k" "incoming k1 = incoming k" using assms(1) by (simp_all add: k1_def good_conn_def)
  obtain r k2 where w: "op_write ops k1 OpBinary p = (r, k2)" by (cases "op_write ops k1 OpBinary p")
  then have "r = Ret ()" "sent k2 = sent k @ [\<lparr>OpCode = OpBinary, Payload = p\<rparr>]" "incoming k2 = incoming k"
    using assms(1) k1 unfolding good_conn_def by (metis fst_conv snd_conv)+
  with w show thesis using assms(2,3) by (intro that [of k2]) (simp_all add: ws_Send_def k1_def [symmetric])
qed

lemma mock_sends_good:
  assumes "good_conn ops sent incoming"
  shows "c_state c \<noteq> 0 \<Longrightarrow> c_conn c = Some k \<Longrightarrow> \<exists>k'. mock_sends ops n c = (Ret (), c\<lparr>c_conn := Some k'\<rparr>)
    \<and> sent k' = sent k @ replicate n \<lparr>OpCode = OpBinary, Payload = hello\<rparr> \<and> incoming k' = incoming k"
proof (induction n arbitrary: c k)
  case 0
  then have "c\<lparr>c_conn := Some k\<rparr> = c" by simp
  then show ?case by (intro exI [of _ k]) simp
next
  case (Suc n)
  obtain k1 where k1: "ws_Send ops hello c = (Ret (), c\<lparr>c_conn := Some k1\<rparr>)"
      "sent k1 = sent k @ [\<lparr>OpCode = OpBinary, Payload = hello\<rparr>]" "incoming k1 = incoming k"
    by (rule ws_Send_good [OF assms Suc.prems])
  obtain k2 where "mock_sends ops n (c\<lparr>c_conn := Some k1\<rparr>) = (Ret (), c\<lparr>c_conn := Some k2\<rparr>)"
    "sent k2 = sent k1 @ replicate n \<lparr>OpCode = OpBinary, Payload = hello\<rparr>" "incoming k2 = incoming k1"
    using Suc.IH [of "c\<lparr>c_conn := Some k1\<rparr>" k1] Suc.prems(1) by auto
  then show ?case using k1 by (intro exI [of _ k2]) simp
qed

lemma mock_reads_good:
  assumes "good_conn ops sent incoming"
  shows "c_conn c = Some k \<Longrightarrow> incoming k = map (\<lambda>p. \<lparr>OpCode = OpBinary, Payload = p\<rparr>) ps \<Longrightarrow> ps \<noteq> [] \<Longrightarrow>
    length got + length ps = 5 \<Longrightarrow> \<exists>c'. mock_reads ops got c = Some (Ret (), got @ ps, c')"
proof (induction ps arbitrary: got c k)
  case (Cons p ps)
  define k1 where "k1 = (if ReadWait (c_options c) > 0 then op_read_deadline ops (ReadWait (c_options c)) k else k)"
  have "incoming k1 = \<lparr>OpCode = OpBinary, Payload = p\<rparr> # map (\<lambda>p. \<lparr>OpCode = OpBinary, Payload = p\<rparr>) ps"
    using assms Cons.prems(2) by (simp add: k1_def good_conn_def)
  then obtain k2 where k2: "op_read ops k1 = (Ret \<lparr>OpCode = OpBinary, Payload = p\<rparr>, k2)"
      "incoming k2 = map (\<lambda>p. \<lparr>OpCode = OpBinary, Payload = p\<rparr>) ps"
    using assms unfolding good_conn_def by (metis prod.collapse)
  have read: "ws_Read ops c = (Ret \<lparr>OpCode = OpBinary, Payload = p\<rparr>, c\<lparr>c_conn := Some k2\<rparr>)"
    using Cons.prems(1) k2(1) by (simp add: ws_Read_def k1_def [symmetric])
  show ?case
  proof (cases "ps = []")
    case True
    then show ?thesis using Cons.prems(4) read by (subst mock_reads.simps) simp
  next
    case False
    then have "\<exists>c'. mock_reads ops (got @ [p]) (c\<lparr>c_conn := Some k2\<rparr>) = Some (Ret (), (got @ [p]) @ ps, c')"
      using Cons.prems(4) by (intro Cons.IH [where k = k2]) (simp_all add: k2(2))
    moreover have "length got + 1 \<noteq> 5" using False Cons.prems(4) by (cases ps) simp_all
    ultimately show ?thesis using read by (subst mock_reads.simps) simp
  qed
qed simp

text \<open>
  The two programs together.  The server accepts the client under its name, its read loop gives the
  listener the five messages, whatever the masks of the frames were, and the listener pushes each of
  them back; a client to which these come receives its own five messages and ends.
\<close>

lemma mock_echo:
  assumes good: "good_conn ops sent incoming" and W: "cipher_law W" "ws_stream_law W pending"
    and dial: "dial addr = Inr k0" "write_bin k0 (to_bytes user) = (None, k1)" "url_parse addr = None"
    and name: "user \<noteq> ''''" and first: "sent k1 = [\<lparr>OpCode = OpBinary, Payload = to_bytes user\<rparr>]"
    and wire: "pending ks = map2 (\<lambda>f mk. masked_frame W (OpCode f) mk (Payload f)) (sent k1 @ replicate 5 \<lparr>OpCode = OpBinary, Payload = hello\<rparr>) masks"
    and masks: "length masks = 6"
    and echoed: "incoming k1 = map (\<lambda>p. \<lparr>OpCode = OpBinary, Payload = p\<rparr>) (replicate 5 hello)"
  shows "\<exists>ks' e c. mock_Accept (ws_conn_read W) ks = (Ret user, ks')
      \<and> Readloop (ws_conn_read W) (WsConn_WriteFrame W) ks' [] = Some (Fail e, c, replicate 5 hello)
      \<and> (\<forall>push p s. mock_Receive push p s = ignore_error (push p s))
      \<and> (\<exists>c'. mock_client_Start ops (mock_ws_Dial dial write_bin) url_parse fresh user ''ws'' addr = Some (Ret (), replicate 5 hello, c'))"
proof -
  let ?c0 = "SetDialer (mock_ws_Dial dial write_bin) (ws_NewClient user ''client'' fresh \<lparr>Heartbeat = 0, ReadWait = 0, WriteWait = 0\<rparr>)"
  let ?c1 = "?c0\<lparr>c_state := 1, c_conn := Some k1\<rparr>"
  have con: "ws_Connect url_parse addr ?c0 = (Ret (), ?c1)"
    using dial by (simp add: ws_Connect_def connect_begin_def connect_end_def SetDialer_def ws_NewClient_def ws_NewClientWithProps_def
        dial_context_def mock_ws_Dial_def with_defaults_def)
  obtain k2 where k2: "mock_sends ops 5 ?c1 = (Ret (), ?c1\<lparr>c_conn := Some k2\<rparr>)" "incoming k2 = incoming k1"
    using mock_sends_good [OF good, of ?c1 k1 5] by auto
  obtain c3 where c3: "mock_reads ops [] (?c1\<lparr>c_conn := Some k2\<rparr>) = Some (Ret (), replicate 5 hello, c3)"
    using mock_reads_good [OF good, of "?c1\<lparr>c_conn := Some k2\<rparr>" k2 "replicate 5 hello" "[]"] k2(2) echoed by auto
  have close: "fst (ws_Close ops c3) = Ret ()" by (simp add: ws_Close_def split: option.split)
  have client: "\<exists>c'. mock_client_Start ops (mock_ws_Dial dial write_bin) url_parse fresh user ''ws'' addr = Some (Ret (), replicate 5 hello, c')"
    using k2(1) c3 close by (simp add: mock_client_Start_def con del: ws_Close_eq)
  obtain mk ms where m: "masks = mk # ms" "length ms = 5" using masks by (cases masks) auto
  have views: "map (ws_view W) (pending ks) = \<lparr>OpCode = OpBinary, Payload = to_bytes user\<rparr> # replicate 5 \<lparr>OpCode = OpBinary, Payload = hello\<rparr>"
  proof (rule nth_equalityI)
    fix j assume "j < length (map (ws_view W) (pending ks))"
    then show "map (ws_view W) (pending ks) ! j = (\<lparr>OpCode = OpBinary, Payload = to_bytes user\<rparr> # replicate 5 \<lparr>OpCode = OpBinary, Payload = hello\<rparr>) ! j"
      by (simp add: wire first masks ws_view_masked [OF W(1)] nth_append nth_Cons')
  qed (simp add: wire first masks)
  obtain ks' where ks': "ws_conn_read W ks = (Ret \<lparr>OpCode = OpBinary, Payload = to_bytes user\<rparr>, ks')"
      "map (ws_view W) (pending ks') = replicate 5 \<lparr>OpCode = OpBinary, Payload = hello\<rparr>"
    using wsst.read_next [of W pending ks] W(2) views by metis
  have "\<exists>e c. Readloop (ws_conn_read W) (WsConn_WriteFrame W) ks' [] = Some (Fail (loop_error (replicate 5 \<lparr>OpCode = OpBinary, Payload = hello\<rparr>) e), c,
      [] @ deliveries (replicate 5 \<lparr>OpCode = OpBinary, Payload = hello\<rparr>))"
    by (rule wsst.Readloop_stream) (use W(2) ks'(2) in simp)
  moreover have "deliveries (replicate 5 \<lparr>OpCode = OpBinary, Payload = hello\<rparr>) = replicate 5 hello"
    by (simp add: loop_spec_defs hello_def to_bytes_def numeral_eq_Suc)
  moreover have "mock_Accept (ws_conn_read W) ks = (Ret user, ks')"
    using ks'(1) name by (simp add: mock_Accept_def GetPayload_def)
  ultimately show ?thesis using client by (auto simp: mock_Receive_def)
qed


definition list_ops :: "(frame list \<times> frame list) conn_ops" where
  "list_ops = \<lparr>op_read = (\<lambda>k. case snd k of [] \<Rightarrow> (Fail ErrEOF, k) | f # fs \<Rightarrow> (Ret f, fst k, fs)),
     op_write = (\<lambda>k code p. (Ret (), fst k @ [\<lparr>OpCode = code, Payload = p\<rparr>], snd k)), op_close = (\<lambda>k. k),
     op_read_deadline = (\<lambda>_ k. k), op_write_deadline = (\<lambda>_ k. (Ret (), k))\<rparr>"

lemma list_ops_good: "good_conn list_ops fst snd"
  by (auto simp: good_conn_def list_ops_def)

lemma mock_echo_example:
  "\<exists>c. mock_client_Start list_ops (mock_ws_Dial (\<lambda>_. Inr ([], map (\<lambda>p. \<lparr>OpCode = OpBinary, Payload = p\<rparr>) (replicate 5 hello)))
      (\<lambda>k p. (None, fst k @ [\<lparr>OpCode = OpBinary, Payload = p\<rparr>], snd k))) (\<lambda>_. None) 0 ''bob'' ''ws'' ''ws://localhost:8000''
    = Some (Ret (), replicate 5 hello, c)"
  using mock_echo [OF list_ops_good demo_cipher demo_ws_stream, where
      dial = "\<lambda>_. Inr ([], map (\<lambda>p. \<lparr>OpCode = OpBinary, Payload = p\<rparr>) (replicate 5 hello))"
      and write_bin = "\<lambda>k p. (None, fst k @ [\<lparr>OpCode = OpBinary, Payload = p\<rparr>], snd k)" and url_parse = "\<lambda>_. None" and user = "''bob''"
      and masks = "replicate 6 [1, 2, 3, 4]" and addr = "''ws://localhost:8000''" and fresh = 0, OF refl refl refl _ _ refl]
  by auto

end
