(* ===== verification/Login.thy ===== *)
theory Login
  imports Gateway
begin

text \<open>
  A login from one end to the other: the gateway (\<open>services/gateway/serv/handler.go\<close>) sends the login
  packet to an instance of the login service over its client, the service
  (\<open>services/server/serv/handler.go\<close>, \<open>handler/login_handler.go\<close>) stores the session and answers over
  its own server, and the gateway hands the answer to the user's channel.  The state of the service is
  its redis and its TCP server; nothing is replaced by a log.
\<close>

section \<open>The service with its own server\<close>

definition live_push :: "'p pkt_lib \<Rightarrow> ('p, 'r \<times> tcp_conn server) dispatcher" where
  "live_push L g ids p s =
     (let (r, p1, sv) = ServerDispatcher_Push L (tcp_srv_Push tcp_WriteFrame) g ids p (snd s) in (r, p1, (fst s, sv)))"

text \<open>
  What the packet library promises about a login packet: its body is read back after a routing entry
  was added, filling in channel and body leaves the command alone and adds no routing entries, and an
  answer starts without them.
\<close>

definition login_laws :: "'p pkt_lib \<Rightarrow> bool" where
  "login_laws L \<longleftrightarrow> meta_laws L \<and> header_laws L \<and> wire_laws L \<and> set_channel_law L
     \<and> w_CommandLoginSignIn L \<noteq> w_CommandLoginSignOut L \<and> w_CommandLoginSignIn L \<noteq> ''''
     \<and> (\<forall>sn v p. p_read_session L (p_add_meta L (w_MetaDestServer L) v (p_write_body L (B_Session sn) p)) = Inr sn)
     \<and> (\<forall>sn p. p_command L (p_write_body L (B_Session sn) p) = p_command L p \<and> p_channel L (p_write_body L (B_Session sn) p) = p_channel L p)
     \<and> (\<forall>sn i p. no_metas L p \<longrightarrow> no_metas L (p_write_body L (B_Session sn) (p_set_channel L i p)))
     \<and> (\<forall>c st b. no_metas L (reply L c st b))"

definition login_session :: "string \<Rightarrow> string \<Rightarrow> string \<Rightarrow> string \<Rightarrow> string \<Rightarrow> session" where
  "login_session me i account app addr =
     no_session\<lparr>s_Account := account, s_ChannelId := i, s_GateId := me, s_App := app, s_RemoteIP := getIP addr\<rparr>"

definition login_packet :: "'p pkt_lib \<Rightarrow> string \<Rightarrow> session \<Rightarrow> 'p \<Rightarrow> 'p" where
  "login_packet L me sn req =
     p_add_meta L (w_MetaDestServer L) me (p_write_body L (B_Session sn) (p_set_channel L (s_ChannelId sn) req))"

definition login_ctx :: "'p pkt_lib \<Rightarrow> string \<Rightarrow> session \<Rightarrow> 'p \<Rightarrow> 'p ctx" where
  "login_ctx L me sn req = \<lparr>cx_request = login_packet L me sn req, cx_session = Some (auto_session (s_ChannelId sn) me)\<rparr>"

definition login_answer :: "'p pkt_lib \<Rightarrow> string \<Rightarrow> session \<Rightarrow> 'p \<Rightarrow> 'p" where
  "login_answer L me sn req =
     route_metas L me [s_ChannelId sn] (reply L (login_ctx L me sn req) St_Success (B_LoginResp (s_ChannelId sn)))"

lemma login_packet_fields:
  assumes "login_laws L" "no_metas L req" "p_command L req = w_CommandLoginSignIn L"
  shows "p_command L (login_packet L me sn req) = w_CommandLoginSignIn L"
    and "p_channel L (login_packet L me sn req) = s_ChannelId sn"
    and "p_get_meta L (w_MetaDestServer L) (login_packet L me sn req) = Some (MStr me)"
    and "p_read_session L (login_packet L me sn req) = Inr sn"
proof -
  let ?p = "p_write_body L (B_Session sn) (p_set_channel L (s_ChannelId sn) req)"
  have "no_metas L ?p" using assms(1,2) by (simp add: login_laws_def)
  then have "p_get_meta L (w_MetaDestServer L) ?p = None" by (simp add: no_metas_def)
  then show "p_get_meta L (w_MetaDestServer L) (login_packet L me sn req) = Some (MStr me)"
    using assms(1) by (simp add: login_packet_def login_laws_def meta_laws_def)
  show "p_command L (login_packet L me sn req) = w_CommandLoginSignIn L"
    "p_channel L (login_packet L me sn req) = s_ChannelId sn"
    "p_read_session L (login_packet L me sn req) = Inr sn"
    using assms(1,3) by (simp_all add: login_packet_def login_laws_def header_laws_def set_channel_law_def)
qed

section \<open>The gateway's side\<close>

definition healthy :: "tcp_conn client \<Rightarrow> bool" where
  "healthy cli \<longleftrightarrow> (\<exists>k. c_conn cli = Some k \<and> room (wr k) = None) \<and> c_state cli \<noteq> 0"

definition wrote :: "bytes \<Rightarrow> tcp_conn client \<Rightarrow> tcp_conn client" where
  "wrote bs cli = cli\<lparr>c_conn := map_option (\<lambda>k. k\<lparr>wr := (wr k)\<lparr>written := written (wr k) @ bs\<rparr>\<rparr>) (c_conn cli)\<rparr>"

lemma healthy_Send:
  "healthy cli \<Longrightarrow> tcp_Send tcp_ops payload cli = (Ret (), wrote (frame_enc \<lparr>OpCode = OpBinary, Payload = payload\<rparr>) cli)"
  by (auto simp: healthy_def tcp_Send_def deadline_then_write_def tcp_ops_def wrote_def tcp_WriteFrame_healthy)

lemma accept_forwards:
  assumes "login_laws L" and "ct_ok ct" and "is_order \<pi>" and "Srv ct = Some srv" and "ServiceID srv = me"
    and "\<forall>cli \<in> adults (w_SNLogin L) ct. healthy cli" and "adults (w_SNLogin L) ct \<noteq> {}"
    and "rfr conn = (Ret fr, c1)" and "p_must_read L (GetPayload fr) = Inr req" and "p_command L req = w_CommandLoginSignIn L"
    and "p_read_login L req = Inr tok" and "account_app tok = Inr (account, app)"
    and "i = generateChannelID me account n" and "i \<noteq> ''''"
  shows "\<exists>cli \<in> adults (w_SNLogin L) ct. Gateway_Accept L rfr wfr account_app (Forward L tcp_ops \<pi>) n addr me conn ct =
    (Ret i, c1, set_clients (w_SNLogin L)
       (cl_Add (wrote (frame_enc \<lparr>OpCode = OpBinary, Payload = p_marshal L (login_packet L me (login_session me i account app addr) req)\<rparr>) cli)
         (clients_of (w_SNLogin L) ct)) ct)"
proof -
  let ?sn = "login_session me i account app addr"
  let ?p = "p_write_body L (B_Session ?sn) (p_set_channel L i req)"
  have "forwardable L (Some ?p)"
    using assms(1,10,14) by (simp add: forwardable_def login_laws_def set_channel_law_def)
  from Forward_sends [OF assms(2,3,4) this assms(7), of tcp_ops] obtain cli where cli: "cli \<in> adults (w_SNLogin L) ct"
    and f: "Forward L tcp_ops \<pi> (w_SNLogin L) (Some ?p) ct =
      (let sent = tcp_Send tcp_ops (p_marshal L (p_add_meta L (w_MetaDestServer L) me ?p)) cli
       in (fst sent, set_clients (w_SNLogin L) (cl_Add (snd sent) (clients_of (w_SNLogin L) ct)) ct))"
    by (auto simp: Let_def assms(5))
  have "healthy cli" using assms(6) cli by blast
  note send = healthy_Send [OF this]
  have "login_packet L me ?sn req = p_add_meta L (w_MetaDestServer L) me ?p"
    by (simp add: login_packet_def login_session_def)
  with f send have "Forward L tcp_ops \<pi> (w_SNLogin L) (Some ?p) ct = (Ret (), set_clients (w_SNLogin L)
      (cl_Add (wrote (frame_enc \<lparr>OpCode = OpBinary, Payload = p_marshal L (login_packet L me ?sn req)\<rparr>) cli)
        (clients_of (w_SNLogin L) ct)) ct)" by (simp add: Let_def)
  then have "Gateway_Accept L rfr wfr account_app (Forward L tcp_ops \<pi>) n addr me conn ct =
    (Ret i, c1, set_clients (w_SNLogin L) (cl_Add (wrote (frame_enc \<lparr>OpCode = OpBinary,
       Payload = p_marshal L (login_packet L me ?sn req)\<rparr>) cli) (clients_of (w_SNLogin L) ct)) ct)"
    using assms(8-13) by (simp add: Gateway_Accept_def login_session_def Let_def)
  with cli show ?thesis by blast
qed

section \<open>The service's side\<close>

text \<open>A push to a connected gateway appends one frame to its connection and changes no other.\<close>

definition sent_frame :: "'p pkt_lib \<Rightarrow> 'p \<Rightarrow> frame" where
  "sent_frame L q = \<lparr>OpCode = OpBinary, Payload = p_marshal L q\<rparr>"

definition gave :: "bytes \<Rightarrow> tcp_conn \<Rightarrow> tcp_conn" where
  "gave bs c = c\<lparr>wr := (wr c)\<lparr>written := written (wr c) @ bs\<rparr>\<rparr>"

lemma gave_simps [simp]:
  "written (wr (gave bs c)) = written (wr c) @ bs" "room (wr (gave bs c)) = room (wr c)"
  by (simp_all add: gave_def)

lemma live_push_at:
  assumes "srv_inv s" "srv_target g s = Some k" "room (wr (conn_of s k)) = None" "p_marshal L (route_metas L g ids p) \<noteq> []"
  shows "\<exists>s'. live_push L g ids p (r, s) = (Ret (), route_metas L g ids p, (r, s')) \<and> srv_inv s'
    \<and> (\<forall>j. srv_target j s' = srv_target j s)
    \<and> conn_of s' = (conn_of s)(k := gave (frame_enc (sent_frame L (route_metas L g ids p))) (conn_of s k))"
proof -
  note hit = tcps.push_hit [OF assms(1,2), of tcp_WriteFrame "p_marshal L (route_metas L g ids p)"]
  then show ?thesis using tcp_deliver [OF assms(3,4)]
    by (intro exI [of _ "snd (tcp_srv_Push tcp_WriteFrame g (p_marshal L (route_metas L g ids p)) s)"])
       (simp add: live_push_def ServerDispatcher_Push_eq gave_def sent_frame_def)
qed

lemma service_logs_in:
  assumes "login_laws L" and "no_metas L req" and "p_command L req = w_CommandLoginSignIn L"
    and "rs_GetLocation R (s_Account sn) '''' r = Fail ErrSessionNil" and "rs_Add C R sn r = (Ret (), r1)"
    and "srv_inv s" and "srv_target me s = Some k" and "room (wr (conn_of s k)) = None"
    and "p_marshal L (login_answer L me sn req) \<noteq> []"
  shows "\<exists>s1. ServHandler_Receive L (server_routes L (live_push L) \<pi> (redis_store C R)) (redis_store C R) ag_push
      (p_marshal L (login_packet L me sn req)) (r, s) = (Ret (), (r1, s1))
    \<and> written (wr (conn_of s1 k)) = written (wr (conn_of s k)) @ frame_enc \<lparr>OpCode = OpBinary, Payload = p_marshal L (login_answer L me sn req)\<rparr>"
proof -
  note f = login_packet_fields [OF assms(1-3), of me sn]
  let ?c = "login_ctx L me sn req"
  obtain s1 where s1: "live_push L me [s_ChannelId sn] (reply L ?c St_Success (B_LoginResp (s_ChannelId sn))) (r1, s)
      = (Ret (), login_answer L me sn req, (r1, s1))"
    "written (wr (conn_of s1 k)) = written (wr (conn_of s k)) @ frame_enc \<lparr>OpCode = OpBinary, Payload = p_marshal L (login_answer L me sn req)\<rparr>"
    using live_push_at [OF assms(6,7,8), of L "[s_ChannelId sn]" "reply L ?c St_Success (B_LoginResp (s_ChannelId sn))" r1] assms(9)
    by (auto simp: login_answer_def sent_frame_def)
  have "Resp L (live_push L) ?c St_Success (B_LoginResp (s_ChannelId sn)) (r1, s) = (Ret (), (r1, s1))"
    using s1(1) by (simp add: Resp_def Session_def login_ctx_def reply_def auto_session_def Let_def)
  then have login: "DoSysLogin L (live_push L) \<pi> (redis_store C R) ?c (r, s) = (Ret (), (r1, s1))"
    using f(4) assms(4,5) by (simp add: DoSysLogin_def redis_store_def login_ctx_def Let_def)
  have path: "GetPath (w_CommandLoginSignIn L) (server_routes L (live_push L) \<pi> (redis_store C R))
      = Some [Some (DoSysLogin L (live_push L) \<pi> (redis_store C R))]"
    using assms(1) by (simp add: GetPath_def server_routes_def Handle_def NewTree_def login_laws_def)
  have read: "p_must_read L (p_marshal L (login_packet L me sn req)) = Inr (login_packet L me sn req)"
    using assms(1) by (simp add: login_laws_def wire_laws_def)
  have "ServHandler_Receive L (server_routes L (live_push L) \<pi> (redis_store C R)) (redis_store C R) ag_push
      (p_marshal L (login_packet L me sn req)) (r, s) = (Ret (), (r1, s1))"
    using login by (simp add: ServHandler_Receive_def read f Serve_def serveContext_def path Next_def login_ctx_def)
  with s1(2) show ?thesis by blast
qed

section \<open>The answer\<close>

text \<open>A packet routed to a channel of a gateway, once the gateway has it: it is written to the connection
  registered under that channel and to no other.\<close>

lemma routed_reaches:
  assumes "meta_laws L" "wire_laws L" "no_metas L p" "CHR '','' \<notin> set i" "srv_inv t" "write_safe wfr"
  shows "conn_of (snd (frame_effect L me (ws_srv_Push wfr) (sent_frame L (route_metas L me [i] p)) t)) j =
    (if srv_target i t = Some j
     then snd (deliver wfr (user_bytes L (route_metas L me [i] p)) (conn_of t j)) else conn_of t j)"
proof -
  let ?q = "route_metas L me [i] p"
  from route_metas_fresh [OF assms(1,3)] assms(4) have addr: "addressed L me [i] ?q" by (simp add: addressed_def)
  have "p_must_read L (p_marshal L ?q) = Inr ?q" using assms(2) by (simp add: wire_laws_def)
  then have "snd (frame_effect L me (ws_srv_Push wfr) (sent_frame L ?q) t) = snd (pushMessage L me (ws_srv_Push wfr) ?q t)"
    by (simp add: frame_effect_def sent_frame_def ignore_error_def split: prod.splits go.splits)
  with ws_push_message [OF assms(5,6) addr, of j] show ?thesis by simp
qed

lemma answer_reaches_user:
  assumes "login_laws L" and "CHR '','' \<notin> set (s_ChannelId sn)" and "srv_inv t" and "write_safe wfr"
  shows "conn_of (snd (frame_effect L me (ws_srv_Push wfr) \<lparr>OpCode = OpBinary, Payload = p_marshal L (login_answer L me sn req)\<rparr> t)) j =
    (if srv_target (s_ChannelId sn) t = Some j
     then snd (deliver wfr (user_bytes L (login_answer L me sn req)) (conn_of t j)) else conn_of t j)"
proof -
  have "meta_laws L" "wire_laws L" "no_metas L (reply L (login_ctx L me sn req) St_Success (B_LoginResp (s_ChannelId sn)))"
    using assms(1) by (simp_all add: login_laws_def)
  from routed_reaches [OF this assms(2,3,4), of me j] show ?thesis by (simp add: login_answer_def sent_frame_def)
qed

text \<open>C1: A login end to end.  When a user's first frame is a login packet with a valid token, the gateway
  accepts him under an identifier of his account and has written exactly one frame on the client of an
  adult instance of the login service.  An instance that receives this frame's payload, for an account
  that is logged in nowhere else, stores the session, so that the account is found on this gateway
  and channel, and writes exactly one answer on the gateway's connection.  The gateway, receiving that
  frame, writes the answer to the user's connection if his channel is registered by then, and to no
  other; if it is not registered yet, the answer is lost.\<close>

theorem login_end_to_end:
  assumes "login_laws L" and "redis_laws R" and "codec_laws C"
    and "ct_ok ct" and "is_order \<pi>" and "Srv ct = Some srv" and "ServiceID srv = me"
    and "\<forall>cli \<in> adults (w_SNLogin L) ct. healthy cli" and "adults (w_SNLogin L) ct \<noteq> {}"
    and "rfr conn = (Ret fr, c1)" and "p_must_read L (GetPayload fr) = Inr req" and "p_command L req = w_CommandLoginSignIn L"
    and "no_metas L req" and "p_read_login L req = Inr tok" and "account_app tok = Inr (account, app)"
    and "i = generateChannelID me account n" and "sn = login_session me i account app addr" and "short_session sn"
    and "CHR '','' \<notin> set i" and "q = login_answer L me sn req" and "p_marshal L q \<noteq> []"
    and "rs_GetLocation R account '''' r = Fail ErrSessionNil" and "rs_Add C R sn r = (Ret (), r1)"
    and "srv_inv s" and "srv_target me s = Some k" and "room (wr (conn_of s k)) = None"
    and "srv_inv t" and "write_safe wfr'"
  shows "(\<exists>cli \<in> adults (w_SNLogin L) ct. Gateway_Accept L rfr wfr account_app (Forward L tcp_ops \<pi>) n addr me conn ct =
      (Ret i, c1, set_clients (w_SNLogin L)
         (cl_Add (wrote (frame_enc \<lparr>OpCode = OpBinary, Payload = p_marshal L (login_packet L me sn req)\<rparr>) cli)
           (clients_of (w_SNLogin L) ct)) ct))
    \<and> (\<exists>s1. ServHandler_Receive L (server_routes L (live_push L) \<pi>' (redis_store C R)) (redis_store C R) ag_push
        (p_marshal L (login_packet L me sn req)) (r, s) = (Ret (), (r1, s1))
      \<and> written (wr (conn_of s1 k)) = written (wr (conn_of s k)) @ frame_enc \<lparr>OpCode = OpBinary, Payload = p_marshal L q\<rparr>)
    \<and> rs_GetLocation R account '''' r1 = Ret \<lparr>ChannelID = i, GateId = me\<rparr> \<and> rs_Get C R i r1 = Ret sn
    \<and> conn_of (snd (frame_effect L me (ws_srv_Push wfr') \<lparr>OpCode = OpBinary, Payload = p_marshal L q\<rparr> t)) j =
        (if srv_target i t = Some j then snd (deliver wfr' (user_bytes L q) (conn_of t j)) else conn_of t j)"
proof -
  have sn: "s_ChannelId sn = i" "s_Account sn = account" "s_GateId sn = me" by (simp_all add: assms(17) login_session_def)
  have "i \<noteq> ''''" by (simp add: assms(16) generateChannelID_def)
  note up = accept_forwards [where rfr = rfr and conn = conn and account_app = account_app and tok = tok and wfr = wfr and addr = addr,
    OF assms(1,4-12,14-16) this, folded assms(17)]
  note serve = service_logs_in [where \<pi> = \<pi>' and ag_push = ag_push, OF assms(1,13,12) assms(22) [folded sn(2)] assms(23-26) assms(21) [unfolded assms(20)], folded assms(20)]
  have "rs_GetLocation R account '''' r1 = Ret \<lparr>ChannelID = i, GateId = me\<rparr>" "rs_Get C R i r1 = Ret sn"
    using rs.add_loc [OF _ assms(18,23)] rs.add_get [OF _ assms(18,23)] assms(2,3) sn by (simp_all add: session_location_def)
  moreover have "conn_of (snd (frame_effect L me (ws_srv_Push wfr') \<lparr>OpCode = OpBinary, Payload = p_marshal L q\<rparr> t)) j =
        (if srv_target i t = Some j then snd (deliver wfr' (user_bytes L q) (conn_of t j)) else conn_of t j)"
    using answer_reaches_user [OF assms(1) _ assms(27,28), of sn me req j] assms(19) by (simp add: sn assms(20))
  ultimately show ?thesis by (intro conjI up serve)
qed

section \<open>An example\<close>

definition session_lib :: "demo_pkt pkt_lib" where
  "session_lib = demo_lib\<lparr>w_SNLogin := ''chat'',
     p_write_body := (\<lambda>b p. case b of B_Session sn \<Rightarrow> p\<lparr>d_metas := (''body'', of_bytes (sn_Marshal demo_codec sn)) # d_metas p\<rparr> | _ \<Rightarrow> p),
     p_read_session := (\<lambda>p. case map_of (d_metas p) ''body'' of
        None \<Rightarrow> Inl (ErrExt ''no body'') | Some t \<Rightarrow> Inr (sn_Unmarshal demo_codec (to_bytes t)))\<rparr>"

lemma session_lib_fields:
  "p_command session_lib = d_command" "p_channel session_lib = d_channel" "p_marshal session_lib = demo_enc"
  "p_must_read session_lib = p_must_read demo_lib" "p_add_meta session_lib = p_add_meta demo_lib"
  "p_get_meta session_lib = p_get_meta demo_lib" "w_MetaDestServer session_lib = ''dest.server''"
  "w_MetaDestChannels session_lib = ''dest.channels''" "w_SNLogin session_lib = ''chat''"
  "w_CommandLoginSignIn session_lib = ''login.signin''" "p_read_login session_lib p = Inr ''token''"
  by (simp_all add: session_lib_def demo_lib_def)

lemma session_lib_laws: "login_laws session_lib"
proof -
  have "meta_laws session_lib" using demo_meta_laws by (simp add: meta_laws_def session_lib_def)
  moreover have "header_laws session_lib" using demo_header_laws by (simp add: header_laws_def session_lib_def)
  moreover have "wire_laws session_lib" using demo_wire_laws by (simp add: wire_laws_def session_lib_def)
  moreover have "set_channel_law session_lib" using demo_set_channel by (simp add: set_channel_law_def session_lib_def)
  moreover have "p_read_session session_lib (p_add_meta session_lib (w_MetaDestServer session_lib) v (p_write_body session_lib (B_Session sn) p)) = Inr sn"
    for v sn p using demo_codec_laws by (simp add: session_lib_def demo_lib_def codec_laws_def)
  moreover have "no_metas session_lib (reply session_lib c st b)" for c st b
    by (cases b) (simp_all add: no_metas_def reply_def session_lib_def demo_lib_def)
  moreover have "no_metas session_lib p \<Longrightarrow> no_metas session_lib (p_write_body session_lib (B_Session sn) (p_set_channel session_lib i p))" for sn i p
    by (simp add: no_metas_def session_lib_def demo_lib_def)
  ultimately show ?thesis by (simp add: login_laws_def session_lib_def demo_lib_def)
qed

lemma demo_enc_nonempty: "demo_enc p \<noteq> []"
  by (simp add: demo_enc_def enc_str_def)

lemma demo_id_plain: "CHR '','' \<notin> set (generateChannelID ''gate01'' ''ann'' 7)"
  using show_nat_digits [of "CHR '',''" 7] by (auto simp: generateChannelID_def is_digit_char_def)

lemma demo_id_short: "length (generateChannelID ''gate01'' ''ann'' 7) < 65536"
  by (simp add: generateChannelID_def show_nat.simps [of 7])

theorem login_end_to_end_witness:
  "\<exists>r1 s1. ServHandler_Receive session_lib (server_routes session_lib (live_push session_lib) rev (redis_store demo_codec demo_redis))
       (redis_store demo_codec demo_redis) (\<lambda>_ s. (Ret (), s))
       (p_marshal session_lib (login_packet session_lib ''gate01'' (login_session ''gate01'' (generateChannelID ''gate01'' ''ann'' 7) ''ann'' ''app'' ''1.2.3.4:99'') demo_login))
       (Map.empty, demo_chat) = (Ret (), (r1, s1))
     \<and> rs_GetLocation demo_redis ''ann'' '''' r1 = Ret \<lparr>ChannelID = generateChannelID ''gate01'' ''ann'' 7, GateId = ''gate01''\<rparr>"
proof -
  let ?i = "generateChannelID ''gate01'' ''ann'' 7"
  let ?sn = "login_session ''gate01'' ?i ''ann'' ''app'' ''1.2.3.4:99''"
  have srv: "Srv demo_ct = Some demo_gate" "ServiceID demo_gate = ''gate01''"
    by (simp_all add: demo_ct_def demo_gate_def NewEntry_def ServiceID_def)
  have ad: "\<forall>cli \<in> adults (w_SNLogin session_lib) demo_ct. healthy cli" "adults (w_SNLogin session_lib) demo_ct \<noteq> {}"
    by (simp_all add: session_lib_fields demo_ct_adults healthy_def demo_client_def demo_conn_def buffer_def)
  obtain c where conn: "tcp_ReadFrame login_conn = (Ret \<lparr>OpCode = OpBinary, Payload = demo_enc demo_login\<rparr>, c)"
    using login_conn_read by blast
  have req: "p_must_read session_lib (GetPayload \<lparr>OpCode = OpBinary, Payload = demo_enc demo_login\<rparr>) = Inr demo_login"
    by (simp add: session_lib_fields GetPayload_def demo_read)
  have cmd: "p_command session_lib demo_login = w_CommandLoginSignIn session_lib" and metas: "no_metas session_lib demo_login"
    by (simp_all add: session_lib_fields demo_login_def no_metas_def demo_lib_def)
  have short: "short_session ?sn" using demo_id_short by (simp add: short_session_def login_session_def)
  have nonempty: "p_marshal session_lib (login_answer session_lib ''gate01'' ?sn demo_login) \<noteq> []"
    by (simp add: session_lib_fields demo_enc_nonempty)
  have loc: "rs_GetLocation demo_redis ''ann'' '''' Map.empty = Fail ErrSessionNil"
    by (simp add: rs_GetLocation_def demo_redis_def)
  obtain r1 where add: "rs_Add demo_codec demo_redis ?sn Map.empty = (Ret (), r1)"
    by (simp add: rs_Add_def demo_redis_def redis_err_def)
  have tok: "p_read_login session_lib demo_login = Inr ''token''" by (simp add: session_lib_fields)
  from login_end_to_end [where account_app = "\<lambda>_. Inr (''ann'', ''app'')" and rfr = tcp_ReadFrame and wfr = tcp_WriteFrame and tok = "''token''"
      and conn = login_conn and t = demo_chat and wfr' = tcp_WriteFrame and \<pi>' = rev and ag_push = "\<lambda>_ s. (Ret (), s)",
      OF session_lib_laws demo_redis_laws demo_codec_laws demo_ct_ok is_order_rev srv ad conn req cmd metas tok refl refl refl short
        demo_id_plain refl nonempty loc add demo_chat_facts demo_chat_facts(1) tcp_write_safe]
  show ?thesis by blast
qed

end
