(* ===== verification/Talk.thy ===== *)
theory Talk
  imports Login
begin

text \<open>
  A message from one user to another through all processes: the sender's gateway
  (\<open>services/gateway/serv/handler.go\<close>), a chat server whose router has the chat handler
  (\<open>services/server/handler/chat_handler.go\<close>), and the gateways of both users.  As in \<open>Login\<close> the state
  of the chat server is its redis and its TCP server.  The server as it is assembled does not register
  the handler; what is shown is what the handler does once it is registered.
\<close>

section \<open>Packets\<close>

definition talk_laws :: "'p pkt_lib \<Rightarrow> bool" where
  "talk_laws L \<longleftrightarrow> meta_laws L \<and> header_laws L \<and> wire_laws L \<and> set_channel_law L
     \<and> (\<forall>k v p. p_dest L (p_add_meta L k v p) = p_dest L p \<and> p_read_message L (p_add_meta L k v p) = p_read_message L p)
     \<and> (\<forall>i p. p_dest L (p_set_channel L i p) = p_dest L p \<and> p_read_message L (p_set_channel L i p) = p_read_message L p)
     \<and> (\<forall>c st b. no_metas L (reply L c st b)) \<and> (\<forall>c b. no_metas L (notice L c b))"

text \<open>The packet as it leaves the sender's gateway, and the context the chat server makes of it.\<close>

definition talk_packet :: "'p pkt_lib \<Rightarrow> string \<Rightarrow> string \<Rightarrow> 'p \<Rightarrow> 'p" where
  "talk_packet L gate a p = p_add_meta L (w_MetaDestServer L) gate (p_set_channel L a p)"

definition talk_ctx :: "'p pkt_lib \<Rightarrow> session \<Rightarrow> 'p \<Rightarrow> 'p ctx" where
  "talk_ctx L own p = \<lparr>cx_request = talk_packet L (s_GateId own) (s_ChannelId own) p, cx_session = Some own\<rparr>"

definition pushed_message :: "'p pkt_lib \<Rightarrow> session \<Rightarrow> 'p \<Rightarrow> message_req \<Rightarrow> int \<Rightarrow> int \<Rightarrow> location \<Rightarrow> 'p" where
  "pushed_message L own p req m now l =
     route_metas L (GateId l) [ChannelID l] (notice L (talk_ctx L own p) (B_MessagePush m req (s_Account own) now))"

definition talk_answer :: "'p pkt_lib \<Rightarrow> session \<Rightarrow> 'p \<Rightarrow> int \<Rightarrow> int \<Rightarrow> 'p" where
  "talk_answer L own p m now =
     route_metas L (s_GateId own) [s_ChannelId own] (reply L (talk_ctx L own p) St_Success (B_MessageResp m now))"

lemma talk_packet_fields:
  assumes "talk_laws L"
  shows "p_command L (talk_packet L gate a p) = p_command L p" "p_channel L (talk_packet L gate a p) = a"
    "p_dest L (talk_packet L gate a p) = p_dest L p" "p_read_message L (talk_packet L gate a p) = p_read_message L p"
    "p_must_read L (p_marshal L q) = Inr q"
  using assms by (simp_all add: talk_packet_def talk_laws_def header_laws_def set_channel_law_def wire_laws_def)

section \<open>The chat server\<close>

text \<open>A push to one location, over the server's own connections.\<close>

lemma Dispatch_live:
  assumes "cx_session c = Some own" "is_order \<pi>" "ChannelID l \<noteq> s_ChannelId own"
    and "srv_inv s" "srv_target (GateId l) s = Some k" "room (wr (conn_of s k)) = None"
    and "p_marshal L (route_metas L (GateId l) [ChannelID l] (notice L c body)) \<noteq> []"
  shows "\<exists>s'. Dispatch L (live_push L) \<pi> c body [l] (r, s) = (Ret (), (r, s')) \<and> srv_inv s'
    \<and> (\<forall>j. srv_target j s' = srv_target j s)
    \<and> conn_of s' = (conn_of s)(k := gave (frame_enc (sent_frame L
         (route_metas L (GateId l) [ChannelID l] (notice L c body)))) (conn_of s k))"
  using live_push_at [OF assms(4-7), of r] assms(1-3)
  by (auto simp: Dispatch_def Session_def notice_def Let_def is_order_single)

lemma Resp_live:
  assumes "cx_session c = Some own"
    and "srv_inv s" "srv_target (s_GateId own) s = Some k" "room (wr (conn_of s k)) = None"
    and "p_marshal L (route_metas L (s_GateId own) [s_ChannelId own] (reply L c st body)) \<noteq> []"
  shows "\<exists>s'. Resp L (live_push L) c st body (r, s) = (Ret (), (r, s')) \<and> srv_inv s'
    \<and> conn_of s' = (conn_of s)(k := gave (frame_enc (sent_frame L
         (route_metas L (s_GateId own) [s_ChannelId own] (reply L c st body)))) (conn_of s k))"
  using live_push_at [OF assms(2-5), of r] assms(1)
  by (auto simp: Resp_def Session_def reply_def Let_def)

lemma service_talks:
  assumes "talk_laws L" and "is_order \<pi>"
    and "p_command L p \<noteq> w_CommandLoginSignIn L" and "p_dest L p \<noteq> ''''" and "p_read_message L p = Inr req"
    and "GetPath (p_command L p) t = Some (Some (DoUserTalk L (live_push L) \<pi> (redis_store C R) insert_user now) # hs)"
    and "rs_Get C R (s_ChannelId own) r = Ret own" and "rs_GetLocation R (p_dest L p) '''' r = Ret l"
    and "ChannelID l \<noteq> s_ChannelId own"
    and "insert_user (s_App own) \<lparr>rq_Sender = s_Account own, rq_Dest = p_dest L p, rq_SendTime = now, rq_Message = req\<rparr> (r, s)
      = (Inr m, (r1, s))"
    and "srv_inv s" and "srv_target (GateId l) s = Some k2" and "srv_target (s_GateId own) s = Some k1"
    and "room (wr (conn_of s k1)) = None" and "room (wr (conn_of s k2)) = None"
    and "p_marshal L (pushed_message L own p req m now l) \<noteq> []" and "p_marshal L (talk_answer L own p m now) \<noteq> []"
  shows "\<exists>s2. ServHandler_Receive L t (redis_store C R) ag_push (p_marshal L (talk_packet L (s_GateId own) (s_ChannelId own) p)) (r, s)
      = (Ret (), (r1, s2))
    \<and> (\<forall>j. written (wr (conn_of s2 j)) = written (wr (conn_of s j))
        @ (if j = k2 then frame_enc (sent_frame L (pushed_message L own p req m now l)) else [])
        @ (if j = k1 then frame_enc (sent_frame L (talk_answer L own p m now)) else []))"
proof -
  let ?c = "talk_ctx L own p"
  note f = talk_packet_fields [OF assms(1)]
  have own: "cx_session ?c = Some own" and dest: "p_dest L (cx_request ?c) = p_dest L p"
    and req: "p_read_message L (cx_request ?c) = Inr req"
    using f assms(5) by (simp_all add: talk_ctx_def)
  obtain s1 where s1: "Dispatch L (live_push L) \<pi> ?c (B_MessagePush m req (s_Account own) now) [l] (r1, s) = (Ret (), (r1, s1))"
    "srv_inv s1" "\<forall>j. srv_target j s1 = srv_target j s"
    "conn_of s1 = (conn_of s)(k2 := gave (frame_enc (sent_frame L (pushed_message L own p req m now l))) (conn_of s k2))"
    using Dispatch_live [OF own assms(2,9,11,12,15), of L "B_MessagePush m req (s_Account own) now" r1] assms(16)
    by (auto simp: pushed_message_def)
  have "srv_target (s_GateId own) s1 = Some k1" "room (wr (conn_of s1 k1)) = None"
    using s1(3,4) assms(13,14,15) by simp_all
  from Resp_live [OF own s1(2) this, of L St_Success "B_MessageResp m now" r1] assms(17)
  obtain s2 where s2: "Resp L (live_push L) ?c St_Success (B_MessageResp m now) (r1, s1) = (Ret (), (r1, s2))"
    "conn_of s2 = (conn_of s1)(k1 := gave (frame_enc (sent_frame L (talk_answer L own p m now))) (conn_of s1 k1))"
    by (auto simp: talk_answer_def)
  have "talk L (live_push L) \<pi> insert_user now req (Some l) ?c (r, s) = (Ret (), (r1, s2))"
    using s1(1) s2(1) assms(10) own dest by (simp add: talk_def Session_def)
  then have "DoUserTalk L (live_push L) \<pi> (redis_store C R) insert_user now ?c (r, s) = (Ret (), (r1, s2))"
    using assms(4,8) dest req by (simp add: DoUserTalk_def redis_store_def)
  then have "ServHandler_Receive L t (redis_store C R) ag_push (p_marshal L (talk_packet L (s_GateId own) (s_ChannelId own) p)) (r, s)
      = (Ret (), (r1, s2))"
    using assms(3,6,7) by (simp add: ServHandler_Receive_def f redis_store_def Serve_def serveContext_def Next_def talk_ctx_def)
  moreover have "written (wr (conn_of s2 j)) = written (wr (conn_of s j))
        @ (if j = k2 then frame_enc (sent_frame L (pushed_message L own p req m now l)) else [])
        @ (if j = k1 then frame_enc (sent_frame L (talk_answer L own p m now)) else [])" for j
    by (simp add: s1(4) s2(2))
  ultimately show ?thesis by blast
qed

section \<open>From user to user\<close>

lemma receive_forwards:
  assumes "talk_laws L" and "ct_ok ct" and "is_order \<pi>" and "Srv ct = Some srv"
    and "p_read L payload = Inr (Logic_pkt p)" and "p_command L p \<noteq> ''''" and "i \<noteq> ''''"
    and "svc = p_service L (p_set_channel L i p)" and "\<forall>cli \<in> adults svc ct. healthy cli" and "adults svc ct \<noteq> {}"
  shows "\<exists>cli \<in> adults svc ct. Gateway_Receive L user_push (Forward L tcp_ops \<pi>) i payload ct =
    (Ret (), set_clients svc (cl_Add (wrote (frame_enc (sent_frame L (talk_packet L (ServiceID srv) i p))) cli) (clients_of svc ct)) ct)"
proof -
  have "forwardable L (Some (p_set_channel L i p))"
    using assms(1,6,7) by (simp add: forwardable_def talk_laws_def set_channel_law_def)
  from Forward_sends [OF assms(2-4) this assms(10), of tcp_ops] obtain cli where cli: "cli \<in> adults svc ct"
    and f: "Forward L tcp_ops \<pi> svc (Some (p_set_channel L i p)) ct =
      (let sent = tcp_Send tcp_ops (p_marshal L (talk_packet L (ServiceID srv) i p)) cli
       in (fst sent, set_clients svc (cl_Add (snd sent) (clients_of svc ct)) ct))"
    by (auto simp: Let_def talk_packet_def)
  have "healthy cli" using assms(9) cli by blast
  with f healthy_Send show ?thesis using assms(5) cli
    by (intro bexI [OF _ cli]) (simp add: Gateway_Receive_def assms(8) [symmetric] Let_def sent_frame_def)
qed


section \<open>An example\<close>

definition bob_lib :: "demo_pkt pkt_lib" where
  "bob_lib = demo_lib\<lparr>p_dest := \<lambda>_. ''bob''\<rparr>"

definition bob_session :: session where
  "bob_session = no_session\<lparr>s_Account := ''bob'', s_ChannelId := ''ch2'', s_GateId := ''gate01''\<rparr>"

lemma bob_lib_laws: "talk_laws bob_lib"
proof -
  have "meta_laws bob_lib" using demo_meta_laws by (simp add: meta_laws_def bob_lib_def)
  moreover have "header_laws bob_lib" using demo_header_laws by (simp add: header_laws_def bob_lib_def)
  moreover have "wire_laws bob_lib" using demo_wire_laws by (simp add: wire_laws_def bob_lib_def)
  moreover have "set_channel_law bob_lib" using demo_set_channel by (simp add: set_channel_law_def bob_lib_def)
  ultimately show ?thesis
    by (simp add: talk_laws_def no_metas_def reply_def notice_def bob_lib_def demo_lib_def)
qed

lemma bob_store:
  "\<exists>r. rs_Get demo_codec demo_redis ''ch1'' r = Ret demo_own
     \<and> rs_GetLocation demo_redis ''bob'' '''' r = Ret \<lparr>ChannelID = ''ch2'', GateId = ''gate01''\<rparr>"
proof -
  obtain r where r: "rs_Add demo_codec demo_redis bob_session Map.empty = (Ret (), r)"
    by (simp add: rs_Add_def demo_redis_def redis_err_def)
  obtain r' where r': "rs_Add demo_codec demo_redis demo_own r = (Ret (), r')"
    by (simp add: rs_Add_def demo_redis_def redis_err_def)
  have ok: "redis_laws demo_redis \<and> codec_laws demo_codec" using demo_redis_laws demo_codec_laws by blast
  have sh: "short_session bob_session" "short_session demo_own"
    by (simp_all add: short_session_def bob_session_def demo_own_def auto_session_def no_session_def)
  have acc: "s_Account demo_own = ''''" "s_ChannelId demo_own = ''ch1''" "s_Account bob_session = ''bob''"
    "session_location bob_session = \<lparr>ChannelID = ''ch2'', GateId = ''gate01''\<rparr>"
    by (simp_all add: demo_own_def auto_session_def no_session_def bob_session_def session_location_def)
  from rs.add_get [OF ok sh(2) r', of "''ch1''"] rs.add_loc [OF ok sh(2) r', of "''bob''"] rs.add_loc [OF ok sh(1) r, of "''bob''"] acc
  show ?thesis by auto
qed


end
