(* ===== verification/Logout.thy ===== *)
theory Logout
  imports Talk
begin

text \<open>
  The end of a connection through all processes: the gateway's \<open>Disconnect\<close>
  (\<open>services/gateway/serv/handler.go\<close>) forwards a logout, the login service
  (\<open>services/server/handler/login_handler.go\<close>) deletes session and location and answers, and the answer
  comes back to a gateway that has forgotten the channel.
\<close>

definition logout_laws :: "'p pkt_lib \<Rightarrow> bool" where
  "logout_laws L \<longleftrightarrow> meta_laws L \<and> header_laws L \<and> wire_laws L
     \<and> w_CommandLoginSignOut L \<noteq> w_CommandLoginSignIn L \<and> w_CommandLoginSignOut L \<noteq> ''''
     \<and> (\<forall>c i. p_command L (p_new L c (Some i)) = c \<and> p_channel L (p_new L c (Some i)) = i)
     \<and> (\<forall>c st b. no_metas L (reply L c st b))"

definition logout_packet :: "'p pkt_lib \<Rightarrow> string \<Rightarrow> string \<Rightarrow> 'p" where
  "logout_packet L gate i = p_add_meta L (w_MetaDestServer L) gate (p_new L (w_CommandLoginSignOut L) (Some i))"

definition logout_answer :: "'p pkt_lib \<Rightarrow> session \<Rightarrow> 'p" where
  "logout_answer L own = route_metas L (s_GateId own) [s_ChannelId own]
     (reply L \<lparr>cx_request = logout_packet L (s_GateId own) (s_ChannelId own), cx_session = Some own\<rparr> St_Success B_nil)"

lemma logout_packet_fields:
  assumes "logout_laws L"
  shows "p_command L (logout_packet L gate i) = w_CommandLoginSignOut L" "p_channel L (logout_packet L gate i) = i"
    "p_must_read L (p_marshal L q) = Inr q"
  using assms by (simp_all add: logout_packet_def logout_laws_def header_laws_def wire_laws_def)

lemma disconnect_forwards:
  assumes "logout_laws L" and "ct_ok ct" and "is_order \<pi>" and "Srv ct = Some srv" and "i \<noteq> ''''"
    and "\<forall>cli \<in> adults (w_SNLogin L) ct. healthy cli" and "adults (w_SNLogin L) ct \<noteq> {}"
  shows "\<exists>cli \<in> adults (w_SNLogin L) ct. Gateway_Disconnect L (Forward L tcp_ops \<pi>) i ct =
    (Ret (), set_clients (w_SNLogin L) (cl_Add (wrote (frame_enc (sent_frame L (logout_packet L (ServiceID srv) i))) cli)
       (clients_of (w_SNLogin L) ct)) ct)"
proof -
  have "forwardable L (Some (p_new L (w_CommandLoginSignOut L) (Some i)))"
    using assms(1,5) by (simp add: forwardable_def logout_laws_def)
  from Forward_sends [OF assms(2-4) this assms(7), of tcp_ops] obtain cli where cli: "cli \<in> adults (w_SNLogin L) ct"
    and f: "Forward L tcp_ops \<pi> (w_SNLogin L) (Some (p_new L (w_CommandLoginSignOut L) (Some i))) ct =
      (let sent = tcp_Send tcp_ops (p_marshal L (logout_packet L (ServiceID srv) i)) cli
       in (fst sent, set_clients (w_SNLogin L) (cl_Add (snd sent) (clients_of (w_SNLogin L) ct)) ct))"
    by (auto simp: Let_def logout_packet_def)
  have "healthy cli" using assms(6) cli by blast
  with f healthy_Send show ?thesis
    by (intro bexI [OF _ cli]) (simp add: Gateway_Disconnect_def Let_def sent_frame_def)
qed

text \<open>Without an instance of the login service the logout is dropped, and the session stays.\<close>

lemma disconnect_dropped:
  assumes "ct_ok ct" "is_order \<pi>" "adults (w_SNLogin L) ct = {}"
  shows "Gateway_Disconnect L (Forward L ops \<pi>) i ct = (Ret (), ct)"
proof -
  obtain e where "Forward L ops \<pi> (w_SNLogin L) (Some (p_new L (w_CommandLoginSignOut L) (Some i))) ct = (Fail e, ct)"
    using Forward_refuses [OF assms(1,2), of L "Some (p_new L (w_CommandLoginSignOut L) (Some i))" "w_SNLogin L"] assms(3) by blast
  then show ?thesis by (simp add: Gateway_Disconnect_def ignore_error_def)
qed

lemma service_logs_out:
  assumes "logout_laws L" and "rs_Get C R (s_ChannelId own) r = Ret own"
    and "rs_Delete R (s_Account own) (s_ChannelId own) r = (Ret (), r1)"
    and "srv_inv s" and "srv_target (s_GateId own) s = Some k" and "room (wr (conn_of s k)) = None"
    and "p_marshal L (logout_answer L own) \<noteq> []"
  shows "\<exists>s1. ServHandler_Receive L (server_routes L (live_push L) \<pi> (redis_store C R)) (redis_store C R) ag_push
      (p_marshal L (logout_packet L (s_GateId own) (s_ChannelId own))) (r, s) = (Ret (), (r1, s1))
    \<and> conn_of s1 = (conn_of s)(k := gave (frame_enc (sent_frame L (logout_answer L own))) (conn_of s k))"
proof -
  let ?c = "\<lparr>cx_request = logout_packet L (s_GateId own) (s_ChannelId own), cx_session = Some own\<rparr>"
  note f = logout_packet_fields [OF assms(1)]
  obtain s1 where s1: "Resp L (live_push L) ?c St_Success B_nil (r1, s) = (Ret (), (r1, s1))"
    "conn_of s1 = (conn_of s)(k := gave (frame_enc (sent_frame L (logout_answer L own))) (conn_of s k))"
    using Resp_live [of ?c own s k L St_Success B_nil r1] assms(4-7) by (auto simp: logout_answer_def)
  have "DoSysLogout L (live_push L) (redis_store C R) ?c (r, s) = (Ret (), (r1, s1))"
    using s1(1) assms(3) by (simp add: DoSysLogout_def Session_def redis_store_def)
  moreover have "GetPath (w_CommandLoginSignOut L) (server_routes L (live_push L) \<pi> (redis_store C R))
      = Some [Some (DoSysLogout L (live_push L) (redis_store C R))]"
    using assms(1) by (simp add: GetPath_def server_routes_def Handle_def NewTree_def logout_laws_def)
  moreover have "w_CommandLoginSignOut L \<noteq> w_CommandLoginSignIn L" using assms(1) by (simp add: logout_laws_def)
  ultimately have "ServHandler_Receive L (server_routes L (live_push L) \<pi> (redis_store C R)) (redis_store C R) ag_push
      (p_marshal L (logout_packet L (s_GateId own) (s_ChannelId own))) (r, s) = (Ret (), (r1, s1))"
    using assms(2) by (simp add: ServHandler_Receive_def f redis_store_def Serve_def serveContext_def Next_def)
  with s1(2) show ?thesis by blast
qed

text \<open>C20: The end of a connection, end to end.  The gateway forwards exactly one logout for the channel to an
  adult instance of the login service.  The assembled service that receives it deletes the session of
  the channel and the location of its account and nothing else, and writes one answer to the gateway,
  on which the gateway, where the channel is gone, writes nothing to anybody.\<close>

theorem logout_end_to_end:
  assumes "logout_laws L" and "redis_laws R" and "codec_laws C" and "ct_ok ct" and "is_order \<pi>"
    and "Srv ct = Some srv" and "ServiceID srv = s_GateId own" and "s_ChannelId own \<noteq> ''''"
    and "\<forall>cli \<in> adults (w_SNLogin L) ct. healthy cli" and "adults (w_SNLogin L) ct \<noteq> {}"
    and "rs_Get C R (s_ChannelId own) r = Ret own" and "rs_Delete R (s_Account own) (s_ChannelId own) r = (Ret (), r1)"
    and "srv_inv s" and "srv_target (s_GateId own) s = Some k" and "room (wr (conn_of s k)) = None"
    and "p_marshal L (logout_answer L own) \<noteq> []" and "CHR '','' \<notin> set (s_ChannelId own)"
    and "srv_inv t" and "srv_target (s_ChannelId own) t = None" and "write_safe wfr"
  shows "(\<exists>cli \<in> adults (w_SNLogin L) ct. Gateway_Disconnect L (Forward L tcp_ops \<pi>) (s_ChannelId own) ct =
      (Ret (), set_clients (w_SNLogin L)
         (cl_Add (wrote (frame_enc (sent_frame L (logout_packet L (s_GateId own) (s_ChannelId own)))) cli)
           (clients_of (w_SNLogin L) ct)) ct))
    \<and> (\<exists>s1. ServHandler_Receive L (server_routes L (live_push L) \<pi>' (redis_store C R)) (redis_store C R) ag_push
        (p_marshal L (logout_packet L (s_GateId own) (s_ChannelId own))) (r, s) = (Ret (), (r1, s1))
      \<and> conn_of s1 = (conn_of s)(k := gave (frame_enc (sent_frame L (logout_answer L own))) (conn_of s k)))
    \<and> (\<forall>c. rs_Get C R c r1 = (if c = s_ChannelId own then Fail ErrSessionNil else rs_Get C R c r))
    \<and> (\<forall>a. rs_GetLocation R a '''' r1 = (if a = s_Account own then Fail ErrSessionNil else rs_GetLocation R a '''' r))
    \<and> conn_of (snd (frame_effect L (s_GateId own) (ws_srv_Push wfr) (sent_frame L (logout_answer L own)) t)) j = conn_of t j"
proof -
  note up = disconnect_forwards [OF assms(1,4,5,6,8,9,10), unfolded assms(7)]
  note serve = service_logs_out [where \<pi> = \<pi>' and ag_push = ag_push, OF assms(1,11-16)]
  have ok: "redis_laws R \<and> codec_laws C" using assms(2,3) by blast
  have laws: "meta_laws L" "wire_laws L" "no_metas L (reply L c st b)" for c st b
    using assms(1) by (simp_all add: logout_laws_def)
  have silent: "conn_of (snd (frame_effect L (s_GateId own) (ws_srv_Push wfr) (sent_frame L (logout_answer L own)) t)) j = conn_of t j"
    unfolding logout_answer_def using routed_reaches [OF laws assms(17,18,20)] assms(19) by simp
  show ?thesis by (intro conjI up serve silent allI rs.del_get [OF ok assms(12)] rs.del_loc [OF ok assms(12)])
qed

section \<open>An example\<close>

definition out_lib :: "demo_pkt pkt_lib" where
  "out_lib = demo_lib\<lparr>w_SNLogin := ''chat''\<rparr>"

lemma out_lib_laws: "logout_laws out_lib"
proof -
  have "meta_laws out_lib" using demo_meta_laws by (simp add: meta_laws_def out_lib_def)
  moreover have "header_laws out_lib" using demo_header_laws by (simp add: header_laws_def out_lib_def)
  moreover have "wire_laws out_lib" using demo_wire_laws by (simp add: wire_laws_def out_lib_def)
  ultimately show ?thesis
    by (simp add: logout_laws_def no_metas_def reply_def out_lib_def demo_lib_def)
qed

theorem logout_end_to_end_witness:
  "\<exists>r r1 s1. rs_Get demo_codec demo_redis ''ch1'' r = Ret demo_own
     \<and> ServHandler_Receive out_lib (server_routes out_lib (live_push out_lib) rev (redis_store demo_codec demo_redis))
         (redis_store demo_codec demo_redis) (\<lambda>_ s. (Ret (), s)) (p_marshal out_lib (logout_packet out_lib ''gate01'' ''ch1'')) (r, demo_chat)
       = (Ret (), (r1, s1))
     \<and> rs_Get demo_codec demo_redis ''ch1'' r1 = Fail ErrSessionNil"
proof -
  obtain r where r: "rs_Get demo_codec demo_redis ''ch1'' r = Ret demo_own" using bob_store by blast
  have own: "s_ChannelId demo_own = ''ch1''" "s_GateId demo_own = ''gate01''" by (simp_all add: demo_own_def auto_session_def)
  obtain r1 where del: "rs_Delete demo_redis (s_Account demo_own) (s_ChannelId demo_own) r = (Ret (), r1)"
    by (simp add: rs_Delete_def demo_redis_def redis_err_def)
  have srv: "Srv demo_ct = Some demo_gate" "ServiceID demo_gate = s_GateId demo_own"
    by (simp_all add: demo_ct_def demo_gate_def NewEntry_def ServiceID_def own)
  have L: "w_SNLogin out_lib = ''chat''" "p_marshal out_lib = demo_enc" by (simp_all add: out_lib_def demo_lib_def)
  have ad: "\<forall>cli \<in> adults (w_SNLogin out_lib) demo_ct. healthy cli" "adults (w_SNLogin out_lib) demo_ct \<noteq> {}"
    by (simp_all add: L demo_ct_adults healthy_def demo_client_def demo_conn_def buffer_def)
  have get: "rs_Get demo_codec demo_redis (s_ChannelId demo_own) r = Ret demo_own" using r by (simp add: own)
  have tgt: "srv_target (s_GateId demo_own) demo_chat = Some 0" using demo_chat_facts by (simp add: own)
  have miss: "srv_target (s_ChannelId demo_own) demo_chat = None"
    by (simp add: own demo_chat_def served_run_def srv_init_def srv_goto_def Done_ready_def NewEvent_def Let_def
        srv_target_def SetReadWait_def SetWriteWait_def NewChannel_def)
  have plain: "s_ChannelId demo_own \<noteq> ''''" "CHR '','' \<notin> set (s_ChannelId demo_own)" by (simp_all add: own)
  have bytes: "p_marshal out_lib (logout_answer out_lib demo_own) \<noteq> []" by (simp add: L demo_enc_nonempty)
  note done_all = logout_end_to_end [where ag_push = "\<lambda>_ s. (Ret (), s)" and \<pi>' = rev,
      OF out_lib_laws demo_redis_laws demo_codec_laws demo_ct_ok is_order_rev srv plain(1) ad get del demo_chat_facts(1) tgt
        demo_chat_facts(3) bytes plain(2) demo_chat_facts(1) miss tcp_write_safe]
  have "rs_Get demo_codec demo_redis ''ch1'' r1 = Fail ErrSessionNil"
    using conjunct1 [OF conjunct2 [OF conjunct2 [OF done_all]]] by (simp add: own)
  with conjunct1 [OF conjunct2 [OF done_all]] r show ?thesis unfolding own by blast
qed

end
