(* ===== verification/System.thy ===== *)
theory System
  imports Logout
begin

text \<open>
  Many gateways and one group of login services that share a redis, as one machine: users log in, send
  and leave at any gateway (\<open>services/gateway/serv/handler.go\<close>), the packets travel over one connection
  from each gateway to each instance, and the instances take them one at a time
  (\<open>services/server/serv/handler.go\<close>).  Every step runs the handlers of the code; between them there is
  a queue of packets for each connection.  \<open>inst\<close> is the choice of the selector, which depends on
  service and channel only.
\<close>

section \<open>The state\<close>

text \<open>
  \<open>sy_up\<close> are the packets on the way from a gateway to an instance of a service, \<open>sy_down\<close> what the
  services have sent to gateways, \<open>sy_seq\<close> the next sequence number of a gateway.  \<open>sy_in\<close> and \<open>sy_out\<close>
  are history: the session an acceptor made for a channel, and whether the channel's logout could be
  sent; \<open>sy_on\<close> says that a channel is connected.
\<close>

record 'r sys =
  sy_store :: 'r
  sy_up :: "string \<times> string \<times> nat \<Rightarrow> bytes list"
  sy_down :: "(string \<times> bytes) list"
  sy_seq :: "string \<Rightarrow> nat"
  sy_in :: "string \<Rightarrow> session option"
  sy_on :: "string \<Rightarrow> bool"
  sy_out :: "string \<Rightarrow> bool"

definition sys_init :: "'r \<Rightarrow> 'r sys" where
  "sys_init r = \<lparr>sy_store = r, sy_up = (\<lambda>_. []), sy_down = [], sy_seq = (\<lambda>_. 0), sy_in = Map.empty,
     sy_on = (\<lambda>_. False), sy_out = (\<lambda>_. False)\<rparr>"

text \<open>What the processes are given from outside: libraries, redis, the reading and writing of a user's
  connection, the token parser, the instances the selector chooses, the message store.\<close>

record ('p, 'r, 'c) env =
  en_lib :: "'p pkt_lib"
  en_redis :: "'r redis"
  en_codec :: session_codec
  en_read :: "'c \<Rightarrow> frame go \<times> 'c"
  en_write :: "'c \<Rightarrow> opcode \<Rightarrow> bytes \<Rightarrow> unit go \<times> 'c"
  en_token :: "string \<Rightarrow> error + string \<times> string"
  en_inst :: "string \<Rightarrow> string \<Rightarrow> nat"
  en_order :: "(string \<times> string list) list \<Rightarrow> (string \<times> string list) list"
  en_talk :: string
  en_insert :: "string \<Rightarrow> insert_req \<Rightarrow> 'r \<times> (string \<times> bytes) list \<Rightarrow> (error + int) \<times> 'r \<times> (string \<times> bytes) list"
  en_now :: int

section \<open>The links\<close>

text \<open>
  \<open>Forward\<close> of a gateway as its handlers see it: with an instance to reach, the packet with the
  gateway's name added is put on the connection to the instance of its channel; otherwise an error
  comes back.  \<open>Uplink\<close> shows that this is what the container's \<open>Forward\<close> does, \<open>Downward\<close> the same of
  \<open>link_push\<close> and the TCP server of a service.
\<close>

definition link_forward :: "('p, 'r, 'c) env \<Rightarrow> string \<Rightarrow> bool \<Rightarrow> string \<Rightarrow> 'p option \<Rightarrow> 'r sys \<Rightarrow> unit go \<times> 'r sys" where
  "link_forward E me up svc packet s =
     (if up \<and> forwardable (en_lib E) packet
      then let p = the packet; q = (me, svc, en_inst E svc (p_channel (en_lib E) p))
           in (Ret (), s\<lparr>sy_up := (sy_up s)(q := sy_up s q @
                 [p_marshal (en_lib E) (p_add_meta (en_lib E) (w_MetaDestServer (en_lib E)) me p)])\<rparr>)
      else (Fail (ErrMsg ''no services found''), s))"

text \<open>What a service sends to a gateway it is connected to; to others the push of its TCP server panics.  An
  empty payload is not sent.\<close>

definition link_push :: "(string \<Rightarrow> bool) \<Rightarrow> string \<Rightarrow> bytes \<Rightarrow> 'r \<times> (string \<times> bytes) list \<Rightarrow> unit go \<times> 'r \<times> (string \<times> bytes) list" where
  "link_push reach g bs s =
     (if reach g then (Ret (), (fst s, if bs = [] then snd s else snd s @ [(g, bs)])) else (Panics ''nil channel'', s))"

section \<open>The steps\<close>

text \<open>Whom the acceptor takes a connection for: its first frame is a login packet with a valid token.\<close>

definition identity :: "('p, 'r, 'c) env \<Rightarrow> 'c \<Rightarrow> (string \<times> string) option" where
  "identity E conn =
     (case fst (en_read E conn) of
        Ret fr \<Rightarrow>
          (case p_must_read (en_lib E) (GetPayload fr) of
             Inr req \<Rightarrow>
               if p_command (en_lib E) req \<noteq> w_CommandLoginSignIn (en_lib E) then None
               else (case p_read_login (en_lib E) req of
                 Inr tok \<Rightarrow> (case en_token E tok of Inr x \<Rightarrow> Some x | Inl _ \<Rightarrow> None)
               | Inl _ \<Rightarrow> None)
           | Inl _ \<Rightarrow> None)
      | _ \<Rightarrow> None)"

text \<open>
  \<open>SyAccept g addr conn up\<close>: a connection arrives at gateway \<open>g\<close>; \<open>SyReceive\<close>: a connected user sends;
  \<open>SyLeave\<close>: his connection ends; \<open>SyServe g svc k reach\<close>: instance \<open>k\<close> of service \<open>svc\<close> takes the next
  packet of gateway \<open>g\<close>, while the gateways \<open>reach\<close> are connected; a panic ends its process, and what
  was on the way to it is lost.  \<open>up\<close> says whether an instance is there to forward to.
\<close>

datatype 'c sys_event =
    SyAccept string string 'c bool
  | SyReceive string string bytes bool
  | SyLeave string string bool
  | SyServe string string nat "string \<Rightarrow> bool"

definition connected_at :: "string \<Rightarrow> string \<Rightarrow> 'r sys \<Rightarrow> bool" where
  "connected_at g i s \<longleftrightarrow> sy_on s i \<and> (case sy_in s i of Some sn \<Rightarrow> s_GateId sn = g | None \<Rightarrow> False)"

text \<open>The routes of a chat server with the chat handler under the command \<open>en_talk\<close>.\<close>

definition chat_routes ::
    "('p, 'r, 'c) env \<Rightarrow> (string \<Rightarrow> bool) \<Rightarrow> ('p, 'r \<times> (string \<times> bytes) list) func_tree" where
  "chat_routes E reach =
     (let L = en_lib E; push = ServerDispatcher_Push L (link_push reach); store = redis_store (en_codec E) (en_redis E)
      in Handle (en_talk E) [Some (DoUserTalk L push (en_order E) store (en_insert E) (en_now E))]
           (server_routes L push (en_order E) store))"

fun sys_do :: "('p, 'r, 'c) env \<Rightarrow> 'c sys_event \<Rightarrow> 'r sys \<Rightarrow> 'r sys" where
  "sys_do E (SyAccept g addr conn up) s =
     (case identity E conn of
        None \<Rightarrow> snd (snd (Gateway_Accept (en_lib E) (en_read E) (en_write E) (en_token E) (link_forward E g up) (sy_seq s g) addr g conn s))
      | Some (account, app) \<Rightarrow>
          (case Gateway_Accept (en_lib E) (en_read E) (en_write E) (en_token E) (link_forward E g up) (sy_seq s g) addr g conn s of
             (Ret i, _, s1) \<Rightarrow> s1\<lparr>sy_seq := (sy_seq s1)(g := Suc (sy_seq s g)),
                 sy_in := (sy_in s1)(i \<mapsto> login_session g i account app addr), sy_on := (sy_on s1)(i := True)\<rparr>
           | (_, _, s1) \<Rightarrow> s1\<lparr>sy_seq := (sy_seq s1)(g := Suc (sy_seq s g))\<rparr>))"
| "sys_do E (SyReceive g i payload up) s =
     (if connected_at g i s
      then snd (Gateway_Receive (en_lib E) (\<lambda>_ s. (Ret (), s)) (link_forward E g up) i payload s) else s)"
| "sys_do E (SyLeave g i up) s =
     (if connected_at g i s
      then let s1 = snd (Gateway_Disconnect (en_lib E) (link_forward E g up) i s)
           in s1\<lparr>sy_on := (sy_on s1)(i := False), sy_out := (sy_out s1)(i := up)\<rparr>
      else s)"
| "sys_do E (SyServe g svc k reach) s =
     (case sy_up s (g, svc, k) of
        [] \<Rightarrow> s
      | bs # rest \<Rightarrow>
          let (out, r, down) = ServHandler_Receive (en_lib E) (chat_routes E reach) (redis_store (en_codec E) (en_redis E))
                (link_push reach g) bs (sy_store s, sy_down s)
          in s\<lparr>sy_store := r, sy_down := down,
               sy_up := (if is_panic out then (\<lambda>q. if snd q = (svc, k) then [] else sy_up s q)
                         else (sy_up s)((g, svc, k) := rest))\<rparr>)"

fun sys_run :: "('p, 'r, 'c) env \<Rightarrow> 'c sys_event list \<Rightarrow> 'r sys \<Rightarrow> 'r sys" where
  "sys_run E [] s = s"
| "sys_run E (e # es) s = sys_run E es (sys_do E e s)"

end
