(* ===== verification/Handling.thy ===== *)
theory Handling
  imports System
begin

text \<open>
  What the login, logout and chat handlers of a service do to the session store in one step of the
  machine of \<open>System\<close>, packet by packet, and that they do not panic as long as the gateways they push to
  are connected.
\<close>

section \<open>What a packet will do to the store\<close>

datatype job = JIn session | JOut string | JOther

definition job_of :: "'p pkt_lib \<Rightarrow> bytes \<Rightarrow> job" where
  "job_of L bs =
     (case p_must_read L bs of
        Inl _ \<Rightarrow> JOther
      | Inr p \<Rightarrow>
          if p_command L p = w_CommandLoginSignIn L
          then (case p_read_session L p of Inr sn \<Rightarrow> JIn sn | Inl _ \<Rightarrow> JOther)
          else if p_command L p = w_CommandLoginSignOut L then JOut (p_channel L p) else JOther)"

text \<open>The session of a channel after a sequence of them.\<close>

fun after :: "string \<Rightarrow> job list \<Rightarrow> session option \<Rightarrow> session option" where
  "after i [] x = x"
| "after i (JIn sn # js) x = after i js (if s_ChannelId sn = i then Some sn else x)"
| "after i (JOut j # js) x = after i js (if j = i then None else x)"
| "after i (JOther # js) x = after i js x"

definition stored :: "('p, 'r, 'c) env \<Rightarrow> string \<Rightarrow> 'r \<Rightarrow> session option" where
  "stored E i r = (case rs_Get (en_codec E) (en_redis E) i r of Ret sn \<Rightarrow> Some sn | _ \<Rightarrow> None)"

fun concerns :: "string \<Rightarrow> job \<Rightarrow> bool" where
  "concerns i (JIn sn) = (s_ChannelId sn = i)"
| "concerns i (JOut j) = (j = i)"
| "concerns i JOther = False"

lemma after_append: "after i (js @ ks) x = after i ks (after i js x)"
  by (induction i js x rule: after.induct) simp_all

lemma after_Cons: "after i (j # js) x = after i js (after i [j] x)"
  using after_append [of i "[j]" js x] by simp

lemma after_one: "\<not> concerns i j \<Longrightarrow> after i [j] x = x"
  by (cases j) simp_all

lemma after_none: "\<forall>j \<in> set js. \<not> concerns i j \<Longrightarrow> after i js x = x"
proof (induction js arbitrary: x)
  case (Cons j js)
  then show ?case by (subst after_Cons) (simp add: after_one)
qed simp

section \<open>Assumptions\<close>

text \<open>Redis answers: no command fails, and a key is there or not.\<close>

definition reliable :: "'r redis \<Rightarrow> bool" where
  "reliable R \<longleftrightarrow> (\<forall>k v r. fst (rd_Set R k v r) = None) \<and> (\<forall>k r. fst (rd_Del R k r) = None)
     \<and> (\<forall>k r e. rd_Get R k r = Inl e \<longrightarrow> e = ErrRedisNil)"

definition env_ok :: "('p, 'r, 'c) env \<Rightarrow> bool" where
  "env_ok E \<longleftrightarrow> login_laws (en_lib E) \<and> logout_laws (en_lib E) \<and> redis_laws (en_redis E) \<and> reliable (en_redis E)
     \<and> codec_laws (en_codec E) \<and> en_talk E \<noteq> w_CommandLoginSignIn (en_lib E) \<and> en_talk E \<noteq> w_CommandLoginSignOut (en_lib E)
     \<and> (\<forall>app req s. fst (snd (en_insert E app req s)) = fst s)"

text \<open>No gateway's name followed by an underscore begins that of another.\<close>

definition gates_ok :: "string set \<Rightarrow> bool" where
  "gates_ok G \<longleftrightarrow> (\<forall>g \<in> G. \<forall>h \<in> G. \<forall>a b. g @ ''_'' @ a = h @ ''_'' @ b \<longrightarrow> g = h)"

text \<open>Users send no login or logout of their own once they are in, and put no routing entries into their
  login packet; a connection arrives at one of the gateways; and no gateway is disconnected while a service
  takes a packet.\<close>

fun honest :: "('p, 'r, 'c) env \<Rightarrow> string set \<Rightarrow> 'c sys_event \<Rightarrow> bool" where
  "honest E G (SyAccept g addr conn up) \<longleftrightarrow> g \<in> G
     \<and> (case fst (en_read E conn) of
          Ret fr \<Rightarrow> (case p_must_read (en_lib E) (GetPayload fr) of Inr req \<Rightarrow> no_metas (en_lib E) req | _ \<Rightarrow> True)
        | _ \<Rightarrow> True)"
| "honest E G (SyReceive g i payload up) \<longleftrightarrow>
     (case p_read (en_lib E) payload of
        Inr (Logic_pkt p) \<Rightarrow> p_command (en_lib E) p \<noteq> w_CommandLoginSignIn (en_lib E)
          \<and> p_command (en_lib E) p \<noteq> w_CommandLoginSignOut (en_lib E)
      | _ \<Rightarrow> True)"
| "honest E G (SyLeave g i up) \<longleftrightarrow> True"
| "honest E G (SyServe g svc k reach) \<longleftrightarrow> (\<forall>x. reach x)"

section \<open>The handlers and the store\<close>

definition keeps :: "('p, 'r \<times> 'x) dispatcher \<Rightarrow> bool" where
  "keeps push \<longleftrightarrow> (\<forall>g ids p s. \<not> is_panic (fst (push g ids p s)) \<and> fst (snd (snd (push g ids p s))) = fst s)"

lemma keepsD:
  "keeps push \<Longrightarrow> fst (snd (snd (push g ids p s))) = fst s" "keeps push \<Longrightarrow> \<not> is_panic (fst (push g ids p s))"
  unfolding keeps_def by blast+

lemma keeps_link: "\<forall>x. reach x \<Longrightarrow> keeps (ServerDispatcher_Push L (link_push reach))"
  by (simp add: keeps_def ServerDispatcher_Push_eq link_push_def)

lemma snd_ignore [simp]: "snd (ignore_error x) = snd x"
  by (auto simp: ignore_error_def split: prod.splits go.splits)

lemma Resp_keeps: "keeps push \<Longrightarrow> fst (snd (Resp L push c st b s)) = fst s"
  by (cases "Session L c") (simp_all add: Resp_def Let_def split_beta keepsD)

lemma RespWithError_keeps: "keeps push \<Longrightarrow> fst (snd (RespWithError L push c st e s)) = fst s"
  by (simp add: RespWithError_def Resp_keeps)

lemma push_groups_keeps:
  assumes "keeps push"
  shows "fst (snd (push_groups push gs p s)) = fst s \<and> \<not> is_panic (fst (push_groups push gs p s))"
proof (induction gs arbitrary: p s)
  case (Cons x gs)
  obtain g ids where x: "x = (g, ids)" by fastforce
  obtain r p1 s1 where push: "push g ids p s = (r, p1, s1)" by (cases "push g ids p s")
  then have "fst s1 = fst s" "\<not> is_panic r" using assms unfolding keeps_def by (metis fst_conv snd_conv)+
  with Cons.IH [of p1 s1] show ?case by (cases r) (simp_all add: x push)
qed simp

lemma Dispatch_keeps:
  assumes "keeps push" "cx_session c = Some own"
  shows "fst (snd (Dispatch L push \<pi> c b ls s)) = fst s \<and> \<not> is_panic (fst (Dispatch L push \<pi> c b ls s))"
  using push_groups_keeps [OF assms(1)] assms(2) by (simp add: Dispatch_def Session_def Let_def)

lemma talk_keeps:
  assumes "keeps push" "cx_session c = Some own" "\<forall>app req s. fst (snd (ins app req s)) = fst s"
  shows "fst (snd (talk L push \<pi> ins now req loc c s)) = fst s"
proof -
  let ?rq = "\<lparr>rq_Sender = s_Account own, rq_Dest = p_dest L (cx_request c), rq_SendTime = now, rq_Message = req\<rparr>"
  obtain x s1 where i: "ins (s_App own) ?rq s = (x, s1)" by (cases "ins (s_App own) ?rq s")
  then have s1: "fst s1 = fst s" using assms(3) by (metis snd_conv)
  show ?thesis
  proof (cases x)
    case (Inl e)
    then show ?thesis using s1 assms(2) by (simp add: talk_def Session_def i RespWithError_keeps [OF assms(1)])
  next
    case (Inr m)
    let ?d = "case loc of None \<Rightarrow> (Ret (), s1) | Some l \<Rightarrow> Dispatch L push \<pi> c (B_MessagePush m req (s_Account own) now) [l] s1"
    obtain y s2 where d: "?d = (y, s2)" by (cases ?d)
    then have "fst s2 = fst s"
      using s1 Dispatch_keeps [OF assms(1,2), of L \<pi> "B_MessagePush m req (s_Account own) now" _ s1]
      by (cases loc) (auto dest: arg_cong [where f = "\<lambda>x. fst (snd x)"])
    then show ?thesis
      using assms(2) Inr by (cases y) (simp_all add: talk_def Session_def i d Resp_keeps [OF assms(1)] RespWithError_keeps [OF assms(1)])
  qed
qed

lemma DoUserTalk_keeps:
  assumes "keeps push" "cx_session c = Some own" "\<forall>app req s. fst (snd (ins app req s)) = fst s"
  shows "fst (snd (DoUserTalk L push \<pi> store ins now c s)) = fst s"
  by (auto simp: DoUserTalk_def RespWithError_keeps [OF assms(1)] talk_keeps [OF assms] split: sum.splits go.splits)

lemma DoSysLogin_adds:
  assumes "keeps push" "cx_session c = Some own" "p_read_session L (cx_request c) = Inr sn"
    and "rs_GetLocation R (s_Account sn) '''' (fst s) = Fail ErrSessionNil \<or> is_ret (rs_GetLocation R (s_Account sn) '''' (fst s))"
    and "rs_Add C R sn (fst s) = (Ret (), r1)"
  shows "fst (snd (DoSysLogin L push \<pi> (redis_store C R) c s)) = r1"
proof (cases "rs_GetLocation R (s_Account sn) '''' (fst s)")
  case (Ret l)
  let ?d = "ignore_error (Dispatch L push \<pi> c (B_KickoutNotify (ChannelID l)) [l] s)"
  have "snd ?d = snd (Dispatch L push \<pi> c (B_KickoutNotify (ChannelID l)) [l] s)" by simp
  with Dispatch_keeps [OF assms(1,2)] have f: "fst (snd ?d) = fst s" by simp
  have "fst ?d = Ret ()"
    using Dispatch_keeps [OF assms(1,2), of L \<pi> "B_KickoutNotify (ChannelID l)" "[l]" s]
    by (auto simp: ignore_error_def split: prod.splits go.splits)
  with f obtain d where "?d = (Ret (), fst s, d)" by (metis prod.collapse)
  then show ?thesis using Ret assms(3,5)
    by (simp add: DoSysLogin_def redis_store_def Let_def Resp_keeps [OF assms(1)])
next
  case (Fail e)
  then have "e = ErrSessionNil" using assms(4) by simp
  with Fail assms(3,5) show ?thesis
    by (simp add: DoSysLogin_def redis_store_def Let_def Resp_keeps [OF assms(1)])
next
  case (Panics m)
  then show ?thesis using assms(4) by simp
qed

lemma DoSysLogout_deletes:
  assumes "keeps push" "cx_session c = Some own" "rs_Delete R (s_Account own) (s_ChannelId own) (fst s) = (Ret (), r1)"
  shows "fst (snd (DoSysLogout L push (redis_store C R) c s)) = r1"
  using assms(2,3) by (simp add: DoSysLogout_def Session_def redis_store_def Resp_keeps [OF assms(1)])

lemma reliable_get:
  "reliable R \<Longrightarrow> rs_GetLocation R a '''' r = Fail ErrSessionNil \<or> is_ret (rs_GetLocation R a '''' r)"
  "reliable R \<Longrightarrow> rs_Get C R i r = Fail ErrSessionNil \<or> is_ret (rs_Get C R i r)"
  by (auto simp: rs_GetLocation_def rs_Get_def reliable_def split: sum.splits)

lemma reliable_Add: "reliable R \<Longrightarrow> \<exists>r1. rs_Add C R sn r = (Ret (), r1)"
  by (auto simp: rs_Add_def reliable_def redis_err_def Let_def split: prod.splits option.splits)
     (metis fst_conv option.distinct(1))+

lemma reliable_Delete: "reliable R \<Longrightarrow> \<exists>r1. rs_Delete R a i r = (Ret (), r1)"
  by (auto simp: rs_Delete_def reliable_def redis_err_def Let_def split: prod.splits option.splits)
     (metis fst_conv option.distinct(1))+

abbreviation session_service ::
    "('p, 'r, 'c) env \<Rightarrow> (string \<Rightarrow> bool) \<Rightarrow> string \<Rightarrow> bytes \<Rightarrow> 'r \<times> (string \<times> bytes) list \<Rightarrow> unit go \<times> 'r \<times> (string \<times> bytes) list" where
  "session_service E reach g \<equiv> ServHandler_Receive (en_lib E) (chat_routes E reach) (redis_store (en_codec E) (en_redis E)) (link_push reach g)"

lemma chat_paths:
  assumes "env_ok E"
  shows "GetPath (w_CommandLoginSignIn (en_lib E)) (chat_routes E reach) = Some [Some (DoSysLogin (en_lib E)
      (ServerDispatcher_Push (en_lib E) (link_push reach)) (en_order E) (redis_store (en_codec E) (en_redis E)))]"
    and "GetPath (w_CommandLoginSignOut (en_lib E)) (chat_routes E reach) = Some [Some (DoSysLogout (en_lib E)
      (ServerDispatcher_Push (en_lib E) (link_push reach)) (redis_store (en_codec E) (en_redis E)))]"
    and "cmd \<noteq> w_CommandLoginSignIn (en_lib E) \<Longrightarrow> cmd \<noteq> w_CommandLoginSignOut (en_lib E) \<Longrightarrow>
      GetPath cmd (chat_routes E reach) = (if cmd = en_talk E then Some [Some (DoUserTalk (en_lib E)
        (ServerDispatcher_Push (en_lib E) (link_push reach)) (en_order E) (redis_store (en_codec E) (en_redis E))
        (en_insert E) (en_now E))] else None)"
proof -
  have "w_CommandLoginSignOut (en_lib E) \<noteq> w_CommandLoginSignIn (en_lib E)"
    "en_talk E \<noteq> w_CommandLoginSignIn (en_lib E)" "en_talk E \<noteq> w_CommandLoginSignOut (en_lib E)"
    using assms by (simp_all add: env_ok_def logout_laws_def)
  note ne = this this [symmetric]
  show "GetPath (w_CommandLoginSignIn (en_lib E)) (chat_routes E reach) = Some [Some (DoSysLogin (en_lib E)
      (ServerDispatcher_Push (en_lib E) (link_push reach)) (en_order E) (redis_store (en_codec E) (en_redis E)))]"
    "GetPath (w_CommandLoginSignOut (en_lib E)) (chat_routes E reach) = Some [Some (DoSysLogout (en_lib E)
      (ServerDispatcher_Push (en_lib E) (link_push reach)) (redis_store (en_codec E) (en_redis E)))]"
    "cmd \<noteq> w_CommandLoginSignIn (en_lib E) \<Longrightarrow> cmd \<noteq> w_CommandLoginSignOut (en_lib E) \<Longrightarrow>
      GetPath cmd (chat_routes E reach) = (if cmd = en_talk E then Some [Some (DoUserTalk (en_lib E)
        (ServerDispatcher_Push (en_lib E) (link_push reach)) (en_order E) (redis_store (en_codec E) (en_redis E))
        (en_insert E) (en_now E))] else None)"
    using ne by (simp_all add: chat_routes_def Let_def GetPath_def server_routes_def Handle_def NewTree_def)
qed

lemma ss_Get_redis [simp]: "ss_Get (redis_store C R) i s = rs_Get C R i (fst s)"
  by (simp add: redis_store_def)

lemma push_keeps: "fst (snd (link_push reach g bs s)) = fst s"
  by (simp add: link_push_def)

lemma serve_login:
  assumes "env_ok E" and "p_must_read (en_lib E) bs = Inr p" and "p_command (en_lib E) p = w_CommandLoginSignIn (en_lib E)"
    and "p_read_session (en_lib E) p = Inr sn" and "p_get_meta (en_lib E) (w_MetaDestServer (en_lib E)) p = Some (MStr gate)"
    and "\<forall>x. reach x"
  shows "rs_Add (en_codec E) (en_redis E) sn r = (Ret (), fst (snd (session_service E reach g bs (r, d))))"
proof -
  have R: "reliable (en_redis E)" using assms(1) by (simp add: env_ok_def)
  obtain r1 where add: "rs_Add (en_codec E) (en_redis E) sn r = (Ret (), r1)" using reliable_Add [OF R] by blast
  let ?c = "\<lparr>cx_request = p, cx_session = Some (auto_session (p_channel (en_lib E) p) gate)\<rparr>"
  have "fst (snd (DoSysLogin (en_lib E) (ServerDispatcher_Push (en_lib E) (link_push reach)) (en_order E)
      (redis_store (en_codec E) (en_redis E)) ?c (r, d))) = r1"
    by (rule DoSysLogin_adds [OF keeps_link [OF assms(6)]]) (use assms(4) add reliable_get(1) [OF R] in simp_all)
  then show ?thesis
    using assms(2,3,5) add by (simp add: ServHandler_Receive_def Serve_def serveContext_def chat_paths [OF assms(1)] Next_def)
qed

lemma serve_logout:
  assumes "env_ok E" and "p_must_read (en_lib E) bs = Inr p" and "p_command (en_lib E) p = w_CommandLoginSignOut (en_lib E)"
    and "rs_Get (en_codec E) (en_redis E) (p_channel (en_lib E) p) r = Ret own"
    and "\<forall>x. reach x"
  shows "rs_Delete (en_redis E) (s_Account own) (s_ChannelId own) r = (Ret (), fst (snd (session_service E reach g bs (r, d))))"
proof -
  have R: "reliable (en_redis E)" and ne: "w_CommandLoginSignOut (en_lib E) \<noteq> w_CommandLoginSignIn (en_lib E)"
    using assms(1) by (simp_all add: env_ok_def logout_laws_def)
  obtain r1 where del: "rs_Delete (en_redis E) (s_Account own) (s_ChannelId own) r = (Ret (), r1)" using reliable_Delete [OF R] by blast
  let ?c = "\<lparr>cx_request = p, cx_session = Some own\<rparr>"
  have "fst (snd (DoSysLogout (en_lib E) (ServerDispatcher_Push (en_lib E) (link_push reach))
      (redis_store (en_codec E) (en_redis E)) ?c (r, d))) = r1"
    by (rule DoSysLogout_deletes [OF keeps_link [OF assms(5)]]) (use del in simp_all)
  then show ?thesis
    using assms(2-4) ne del by (simp add: ServHandler_Receive_def Serve_def serveContext_def chat_paths [OF assms(1)] Next_def)
qed

text \<open>Everything else leaves the store alone.\<close>

lemma serve_other:
  assumes "env_ok E" and "job_of (en_lib E) bs = JOther \<or> (\<exists>i. job_of (en_lib E) bs = JOut i \<and> \<not> is_ret (rs_Get (en_codec E) (en_redis E) i r))"
    and "\<forall>x. reach x"
  shows "fst (snd (session_service E reach g bs (r, d))) = r"
proof (cases "p_must_read (en_lib E) bs")
  case (Inl e)
  then show ?thesis by (simp add: ServHandler_Receive_def)
next
  case (Inr p)
  let ?L = "en_lib E" let ?store = "redis_store (en_codec E) (en_redis E)"
  have ne: "w_CommandLoginSignOut ?L \<noteq> w_CommandLoginSignIn ?L" and ins: "\<forall>app req s. fst (snd (en_insert E app req s)) = fst s"
    using assms(1) by (simp_all add: env_ok_def logout_laws_def)
  show ?thesis
  proof (cases "p_command ?L p = w_CommandLoginSignIn ?L")
    case True
    then obtain e where e: "p_read_session ?L p = Inl e"
      using assms(2) Inr by (cases "p_read_session ?L p") (simp_all add: job_of_def)
    then have "fst (snd (DoSysLogin ?L (ServerDispatcher_Push ?L (link_push reach)) (en_order E) ?store
        \<lparr>cx_request = p, cx_session = Some own\<rparr> (r, d))) = r" for own
      by (simp add: DoSysLogin_def RespWithError_keeps [OF keeps_link [OF assms(3)]])
    then show ?thesis using Inr True
      by (auto simp: ServHandler_Receive_def Serve_def serveContext_def chat_paths [OF assms(1)] Next_def
          split: option.splits meta_val.splits)
  next
    case False
    show ?thesis
    proof (cases "rs_Get (en_codec E) (en_redis E) (p_channel ?L p) r")
      case (Ret own)
      then have "p_command ?L p \<noteq> w_CommandLoginSignOut ?L" using assms(2) Inr ne by (auto simp: job_of_def)
      then have "fst (snd (Serve ?L (chat_routes E reach) True True p (Some own) (r, d))) = r"
        using False DoUserTalk_keeps [OF keeps_link [OF assms(3)] _ ins, of "\<lparr>cx_request = p, cx_session = Some own\<rparr>" own]
        by (simp add: Serve_def serveContext_def chat_paths(3) [OF assms(1)] Next_def)
      then show ?thesis using Inr False Ret by (simp add: ServHandler_Receive_def)
    qed (use Inr False in \<open>simp_all add: ServHandler_Receive_def RespErr_def push_keeps\<close>)
  qed
qed

section \<open>No packet makes a service panic\<close>

lemma ignore_error_panic [simp]: "is_panic (fst (ignore_error x)) = is_panic (fst x)"
  by (cases x; cases "fst x") (auto simp: ignore_error_def)

lemma redis_store_calm [simp]:
  "ss_Add (redis_store C R) sn s \<noteq> (Panics m, t)" "ss_Delete (redis_store C R) a i s \<noteq> (Panics m, t)"
  "ss_Get (redis_store C R) i s \<noteq> Panics m" "ss_GetLocation (redis_store C R) a d s \<noteq> Panics m"
proof -
  have err: "redis_err x \<noteq> (Panics m, r)" for x and r :: 'a
    by (simp add: redis_err_def split: prod.split option.split)
  have "rs_Add C R sn r \<noteq> (Panics m, r')" "rs_Delete R a i r \<noteq> (Panics m, r')" for r r'
    by (simp_all add: rs_Add_def rs_Delete_def Let_def go_bind_Panics_iff err)
  then show "ss_Add (redis_store C R) sn s \<noteq> (Panics m, t)" "ss_Delete (redis_store C R) a i s \<noteq> (Panics m, t)"
    by (simp_all add: redis_store_def split: prod.split)
  show "ss_Get (redis_store C R) i s \<noteq> Panics m" "ss_GetLocation (redis_store C R) a d s \<noteq> Panics m"
    by (simp_all add: redis_store_def rs_Get_def rs_GetLocation_def split: sum.split)
qed

lemma Resp_calm: "keeps push \<Longrightarrow> cx_session c = Some own \<Longrightarrow> \<not> is_panic (fst (Resp L push c st b s))"
  by (simp add: Resp_def Session_def Let_def split_beta keepsD(2))

lemma RespWithError_calm: "keeps push \<Longrightarrow> cx_session c = Some own \<Longrightarrow> \<not> is_panic (fst (RespWithError L push c st e s))"
  by (simp add: RespWithError_def Resp_calm)

lemma talk_calm:
  assumes "keeps push" "cx_session c = Some own"
  shows "\<not> is_panic (fst (talk L push \<pi> ins now req loc c s))"
proof -
  note calm = Resp_calm [OF assms] RespWithError_calm [OF assms]
  obtain x s1 where i: "ins (s_App own) \<lparr>rq_Sender = s_Account own, rq_Dest = p_dest L (cx_request c), rq_SendTime = now, rq_Message = req\<rparr> s = (x, s1)"
    by (cases "ins (s_App own) \<lparr>rq_Sender = s_Account own, rq_Dest = p_dest L (cx_request c), rq_SendTime = now, rq_Message = req\<rparr> s")
  show ?thesis
  proof (cases x)
    case (Inr m)
    let ?d = "case loc of None \<Rightarrow> (Ret (), s1)
        | Some l \<Rightarrow> Dispatch L push \<pi> c (B_MessagePush m req (s_Account own) now) [l] s1"
    have d: "\<not> is_panic (fst ?d)" using Dispatch_keeps [OF assms] by (simp split: option.split)
    obtain y s2 where y: "?d = (y, s2)" by (cases ?d)
    with d have "\<not> is_panic y" by simp
    then show ?thesis using calm assms(2) y by (cases y) (simp_all add: talk_def Session_def i Inr)
  qed (simp add: talk_def Session_def i assms(2) calm)
qed

lemma DoUserTalk_calm:
  assumes "keeps push" "cx_session c = Some own"
  shows "\<not> is_panic (fst (DoUserTalk L push \<pi> (redis_store C R) ins now c s))"
  by (simp add: DoUserTalk_def RespWithError_calm [OF assms] talk_calm [OF assms] redis_store_def rs_GetLocation_def
      split: sum.split option.split)

lemma DoSysLogin_calm:
  assumes "keeps push" "cx_session c = Some own"
  shows "\<not> is_panic (fst (DoSysLogin L push \<pi> (redis_store C R) c s))"
proof (cases "p_read_session L (cx_request c)")
  case (Inr sn)
  note calm = Resp_calm [OF assms] RespWithError_calm [OF assms]
  have rest: "\<not> is_panic (fst (go_bind kicked (\<lambda>_ s1.
      case ss_Add (redis_store C R) sn s1 of
        (Panics m, s2) \<Rightarrow> (Panics m, s2)
      | (Fail err, s2) \<Rightarrow> ignore_error (RespWithError L push c St_SystemException err s2)
      | (Ret _, s2) \<Rightarrow> ignore_error (Resp L push c St_Success (B_LoginResp (s_ChannelId sn)) s2))))"
    if "\<not> is_panic (fst kicked)" for kicked :: "unit go \<times> 'b \<times> 'c"
  proof -
    obtain x s1 where k: "kicked = (x, s1)" by (cases kicked)
    obtain y s2 where a: "ss_Add (redis_store C R) sn s1 = (y, s2)" by (cases "ss_Add (redis_store C R) sn s1")
    then have "\<not> is_panic y" using redis_store_calm(1) by (cases y) auto
    then show ?thesis using that k a calm by (cases x; cases y) simp_all
  qed
  show ?thesis
    using Inr rest [of "(Ret (), s)"] calm
      rest [of "ignore_error (Dispatch L push \<pi> c (B_KickoutNotify (ChannelID old)) [old] s)" for old] Dispatch_keeps [OF assms]
    by (cases "ss_GetLocation (redis_store C R) (s_Account sn) '''' s") (simp_all add: DoSysLogin_def Let_def)
qed (simp add: DoSysLogin_def RespWithError_calm [OF assms])

lemma DoSysLogout_calm:
  assumes "keeps push" "cx_session c = Some own"
  shows "\<not> is_panic (fst (DoSysLogout L push (redis_store C R) c s))"
proof -
  obtain y s2 where d: "ss_Delete (redis_store C R) (s_Account own) (s_ChannelId own) s = (y, s2)"
    by (cases "ss_Delete (redis_store C R) (s_Account own) (s_ChannelId own) s")
  then have "\<not> is_panic y" using redis_store_calm(2) by (cases y) auto
  then show ?thesis using d assms(2) Resp_calm [OF assms] RespWithError_calm [OF assms]
    by (cases y) (simp_all add: DoSysLogout_def Session_def)
qed

text \<open>Packets with the login command carry the name of a gateway, as an acceptor's do.\<close>

definition routed :: "('p, 'r, 'c) env \<Rightarrow> bytes \<Rightarrow> bool" where
  "routed E bs \<longleftrightarrow> (\<forall>p. p_must_read (en_lib E) bs = Inr p \<longrightarrow> p_command (en_lib E) p = w_CommandLoginSignIn (en_lib E) \<longrightarrow>
     (\<exists>gate. p_get_meta (en_lib E) (w_MetaDestServer (en_lib E)) p = Some (MStr gate)))"

lemma serve_calm:
  assumes "env_ok E" "routed E bs" "\<forall>x. reach x"
  shows "\<not> is_panic (fst (session_service E reach g bs (r, d)))"
proof (cases "p_must_read (en_lib E) bs")
  case (Inr p)
  let ?L = "en_lib E" let ?push = "ServerDispatcher_Push ?L (link_push reach)" let ?store = "redis_store (en_codec E) (en_redis E)"
  have served: "\<not> is_panic (fst (Serve ?L (chat_routes E reach) True True p (Some own) s))" for own s
  proof -
    have c: "cx_session \<lparr>cx_request = p, cx_session = Some own\<rparr> = Some own" by simp
    consider "p_command ?L p = w_CommandLoginSignIn ?L" | "p_command ?L p = w_CommandLoginSignOut ?L"
      | "p_command ?L p \<noteq> w_CommandLoginSignIn ?L" "p_command ?L p \<noteq> w_CommandLoginSignOut ?L" by blast
    then show ?thesis
      by cases (simp_all add: Serve_def serveContext_def chat_paths [OF assms(1)] Next_def
          DoSysLogin_calm [OF keeps_link [OF assms(3)] c] DoSysLogout_calm [OF keeps_link [OF assms(3)] c] DoUserTalk_calm [OF keeps_link [OF assms(3)] c])
  qed
  have down: "\<not> is_panic (fst (RespErr ?L (link_push reach g) p st (r, d)))" for st using assms(3) by (simp add: RespErr_def link_push_def)
  show ?thesis
  proof (cases "p_command ?L p = w_CommandLoginSignIn ?L")
    case True
    then obtain gate where "p_get_meta ?L (w_MetaDestServer ?L) p = Some (MStr gate)" using assms(2) Inr by (auto simp: routed_def)
    with Inr True served show ?thesis by (simp add: ServHandler_Receive_def)
  next
    case False
    have "\<not> is_panic (rs_Get (en_codec E) (en_redis E) (p_channel ?L p) r)"
      by (simp add: rs_Get_def split: sum.split)
    with Inr False served down show ?thesis
      by (cases "rs_Get (en_codec E) (en_redis E) (p_channel ?L p) r") (simp_all add: ServHandler_Receive_def)
  qed
qed (simp add: ServHandler_Receive_def)

end
