(* ===== verification/SessionTruth.thy ===== *)
theory SessionTruth
  imports Handling
begin

text \<open>
  What the session store of the machine of \<open>System\<close> says about the users: nothing that no acceptor has
  authenticated, and, once the packets on the way have arrived, exactly who is logged in.
\<close>

section \<open>The invariant\<close>

text \<open>A packet on the way to a login service: on the connection of its channel, and of an accepted session.\<close>

definition job_ok :: "('p, 'r, 'c) env \<Rightarrow> 'r sys \<Rightarrow> string \<times> string \<times> nat \<Rightarrow> bytes \<Rightarrow> bool" where
  "job_ok E s q bs \<longleftrightarrow> routed E bs \<and>
     (case job_of (en_lib E) bs of
        JIn sn \<Rightarrow> q = (s_GateId sn, w_SNLogin (en_lib E), en_inst E (w_SNLogin (en_lib E)) (s_ChannelId sn))
          \<and> sy_in s (s_ChannelId sn) = Some sn
      | JOut i \<Rightarrow> \<exists>sn. sy_in s i = Some sn \<and> q = (s_GateId sn, w_SNLogin (en_lib E), en_inst E (w_SNLogin (en_lib E)) i)
      | JOther \<Rightarrow> True)"

abbreviation way :: "('p, 'r, 'c) env \<Rightarrow> session \<Rightarrow> string \<times> string \<times> nat" where
  "way E sn \<equiv> (s_GateId sn, w_SNLogin (en_lib E), en_inst E (w_SNLogin (en_lib E)) (s_ChannelId sn))"

definition session_inv :: "('p, 'r, 'c) env \<Rightarrow> string set \<Rightarrow> 'r sys \<Rightarrow> string \<Rightarrow> session \<Rightarrow> bool" where
  "session_inv E G s i sn \<longleftrightarrow> s_ChannelId sn = i \<and> s_GateId sn \<in> G
     \<and> (\<exists>n < sy_seq s (s_GateId sn). i = generateChannelID (s_GateId sn) (s_Account sn) n)
     \<and> after i (map (job_of (en_lib E)) (sy_up s (way E sn))) (stored E i (sy_store s)) = (if sy_out s i then None else Some sn)"

definition sys_inv :: "('p, 'r, 'c) env \<Rightarrow> string set \<Rightarrow> 'r sys \<Rightarrow> bool" where
  "sys_inv E G s \<longleftrightarrow>
     (\<forall>q. \<forall>bs \<in> set (sy_up s q). job_ok E s q bs)
     \<and> (\<forall>i sn. sy_in s i = Some sn \<longrightarrow> session_inv E G s i sn)
     \<and> (\<forall>i sn. stored E i (sy_store s) = Some sn \<longrightarrow> sy_in s i = Some sn)
     \<and> (\<forall>i. sy_on s i \<or> sy_out s i \<longrightarrow> sy_in s i \<noteq> None) \<and> (\<forall>i. sy_on s i \<longrightarrow> \<not> sy_out s i)"

lemma sys_inv_init:
  assumes "\<forall>k. rd_Get (en_redis E) k r0 = Inl ErrRedisNil"
  shows "sys_inv E G (sys_init r0)"
  using assms by (simp add: sys_inv_def sys_init_def stored_def rs_Get_def)

definition enqueue :: "string \<times> string \<times> nat \<Rightarrow> bytes \<Rightarrow> 'r sys \<Rightarrow> 'r sys" where
  "enqueue q bs s = s\<lparr>sy_up := (sy_up s)(q := sy_up s q @ [bs])\<rparr>"

lemma link_forward_eq:
  "link_forward E g up svc (Some p) s =
     (if up \<and> forwardable (en_lib E) (Some p)
      then (Ret (), enqueue (g, svc, en_inst E svc (p_channel (en_lib E) p))
        (p_marshal (en_lib E) (p_add_meta (en_lib E) (w_MetaDestServer (en_lib E)) g p)) s)
      else (Fail (ErrMsg ''no services found''), s))"
  by (simp add: link_forward_def enqueue_def Let_def)

lemma inv_other:
  assumes "sys_inv E G s" "job_of (en_lib E) bs = JOther" "routed E bs"
  shows "sys_inv E G (enqueue q bs s)"
proof -
  have "job_ok E (enqueue q bs s) q' x = job_ok E s q' x" for q' x by (simp add: job_ok_def enqueue_def split: job.split)
  moreover have "job_ok E s q bs" using assms(2,3) by (simp add: job_ok_def)
  ultimately have "\<forall>q'. \<forall>x \<in> set (sy_up (enqueue q bs s) q'). job_ok E (enqueue q bs s) q' x"
    using assms(1) by (auto simp: sys_inv_def enqueue_def)
  moreover have "session_inv E G (enqueue q bs s) i sn = session_inv E G s i sn" for i sn
    using assms(2) by (simp add: session_inv_def enqueue_def after_append)
  ultimately show ?thesis using assms(1) by (simp add: sys_inv_def) (simp add: enqueue_def)
qed

section \<open>What users do\<close>

lemma receive_inv:
  assumes "env_ok E" "honest E G (SyReceive g i payload up)" "sys_inv E G s"
  shows "sys_inv E G (sys_do E (SyReceive g i payload up) s)"
proof -
  let ?L = "en_lib E"
  have "sys_inv E G (snd (link_forward E g up svc (Some (p_set_channel ?L i p)) s))"
    if "p_read ?L payload = Inr (Logic_pkt p)" for svc p
  proof -
    have laws: "login_laws ?L" using assms(1) by (simp add: env_ok_def)
    have "p_command ?L p \<noteq> w_CommandLoginSignIn ?L" "p_command ?L p \<noteq> w_CommandLoginSignOut ?L"
      using assms(2) that by simp_all
    with laws have "job_of ?L (p_marshal ?L (p_add_meta ?L (w_MetaDestServer ?L) g (p_set_channel ?L i p))) = JOther"
      "routed E (p_marshal ?L (p_add_meta ?L (w_MetaDestServer ?L) g (p_set_channel ?L i p)))"
      by (simp_all add: job_of_def routed_def login_laws_def wire_laws_def header_laws_def set_channel_law_def)
    with inv_other [OF assms(3)] assms(3) show ?thesis by (simp add: link_forward_eq)
  qed
  then show ?thesis using assms(3)
    by (auto simp: Gateway_Receive_def Let_def split: sum.splits any_pkt.splits)
qed

lemma logout_job:
  assumes "env_ok E"
  shows "job_of (en_lib E) (p_marshal (en_lib E) (p_add_meta (en_lib E) (w_MetaDestServer (en_lib E)) g
      (p_new (en_lib E) (w_CommandLoginSignOut (en_lib E)) (Some i)))) = JOut i"
    and "routed E (p_marshal (en_lib E) (p_add_meta (en_lib E) (w_MetaDestServer (en_lib E)) g
      (p_new (en_lib E) (w_CommandLoginSignOut (en_lib E)) (Some i))))"
  using assms by (simp_all add: job_of_def routed_def env_ok_def logout_laws_def wire_laws_def header_laws_def)

lemma leave_inv:
  assumes "env_ok E" "sys_inv E G s"
  shows "sys_inv E G (sys_do E (SyLeave g i up) s)"
proof (cases "connected_at g i s")
  case True
  let ?L = "en_lib E" let ?q = "(g, w_SNLogin ?L, en_inst E (w_SNLogin ?L) i)"
  let ?bs = "p_marshal ?L (p_add_meta ?L (w_MetaDestServer ?L) g (p_new ?L (w_CommandLoginSignOut ?L) (Some i)))"
  obtain sn where sn: "sy_in s i = Some sn" "s_GateId sn = g" and on: "sy_on s i"
    using True by (auto simp: connected_at_def split: option.splits)
  then have inv: "session_inv E G s i sn" and out: "\<not> sy_out s i" using assms(2) by (simp_all add: sys_inv_def)
  then have i: "i \<noteq> ''''" "s_ChannelId sn = i" by (auto simp: session_inv_def generateChannelID_def)
  then have f: "forwardable ?L (Some (p_new ?L (w_CommandLoginSignOut ?L) (Some i)))" "p_channel ?L (p_new ?L (w_CommandLoginSignOut ?L) (Some i)) = i"
    using assms(1) by (simp_all add: forwardable_def env_ok_def logout_laws_def)
  define s1 where "s1 = (if up then enqueue ?q ?bs s else s)"
  have step: "sys_do E (SyLeave g i up) s = s1\<lparr>sy_on := (sy_on s1)(i := False), sy_out := (sy_out s1)(i := up)\<rparr>"
    using True f by (simp add: Gateway_Disconnect_def link_forward_eq Let_def s1_def)
  show ?thesis unfolding step
  proof (cases up)
    case False
    have o: "(sy_out s)(i := False) = sy_out s" using out by (intro ext) simp
    have "job_ok E (s\<lparr>sy_on := f, sy_out := sy_out s\<rparr>) q x = job_ok E s q x"
      "session_inv E G (s\<lparr>sy_on := f, sy_out := sy_out s\<rparr>) j sn' = session_inv E G s j sn'" for f q x j sn'
      by (simp_all add: job_ok_def session_inv_def split: job.split)
    then show "sys_inv E G (s1\<lparr>sy_on := (sy_on s1)(i := False), sy_out := (sy_out s1)(i := up)\<rparr>)"
      using assms(2) False o by (simp add: s1_def sys_inv_def)
  next
    case up: True
    let ?s = "s1\<lparr>sy_on := (sy_on s1)(i := False), sy_out := (sy_out s1)(i := up)\<rparr>"
    have jobs: "job_ok E ?s q x = job_ok E s q x" for q x
      using up by (simp add: s1_def enqueue_def job_ok_def split: job.split)
    have "job_ok E s ?q ?bs" using sn by (simp add: job_ok_def logout_job [OF assms(1)])
    then have 1: "\<forall>q. \<forall>x \<in> set (sy_up ?s q). job_ok E ?s q x"
      unfolding jobs using assms(2) up by (auto simp: sys_inv_def s1_def enqueue_def)
    have 2: "session_inv E G ?s j sn'" if "sy_in s j = Some sn'" for j sn'
    proof (cases "j = i")
      case True
      then show ?thesis using that sn inv up i
        by (auto simp: session_inv_def s1_def enqueue_def after_append logout_job [OF assms(1)])
    next
      case False
      have "session_inv E G s j sn'" using that assms(2) by (simp add: sys_inv_def)
      with False up show ?thesis
        by (auto simp: session_inv_def s1_def enqueue_def after_append logout_job [OF assms(1)])
    qed
    show "sys_inv E G ?s"
      using 1 2 assms(2) up sn(1) unfolding sys_inv_def by (auto simp: s1_def enqueue_def)
  qed
qed (simp add: assms(2))

text \<open>A connection that arrives: nothing happens, a sequence number is used up, or a login is on its way.\<close>

definition logged_in :: "('p, 'r, 'c) env \<Rightarrow> string \<Rightarrow> session \<Rightarrow> bytes \<Rightarrow> 'r sys \<Rightarrow> 'r sys" where
  "logged_in E g sn bs s =
     (enqueue (way E sn) bs s)\<lparr>sy_seq := (sy_seq s)(g := Suc (sy_seq s g)), sy_in := (sy_in s)(s_ChannelId sn \<mapsto> sn),
        sy_on := (sy_on s)(s_ChannelId sn := True)\<rparr>"

lemma refused_accept:
  assumes "identity E conn = None"
  shows "snd (snd (Gateway_Accept (en_lib E) (en_read E) (en_write E) (en_token E) fwd n addr g conn s)) = s"
  using assms by (auto simp: identity_def Gateway_Accept_def Let_def split: prod.splits go.splits sum.splits if_splits)

lemma identity_Some:
  assumes "identity E conn = Some (account, app)"
  obtains fr c1 req tok where "en_read E conn = (Ret fr, c1)" "p_must_read (en_lib E) (GetPayload fr) = Inr req"
    "p_command (en_lib E) req = w_CommandLoginSignIn (en_lib E)" "p_read_login (en_lib E) req = Inr tok"
    "en_token E tok = Inr (account, app)"
  using assms by (cases "en_read E conn") (auto simp: identity_def split: go.splits sum.splits if_splits)

lemma accept_login:
  assumes "env_ok E" and "honest E G (SyAccept g addr conn up)" and "identity E conn = Some (account, app)"
    and "sn = login_session g (generateChannelID g account (sy_seq s g)) account app addr"
  shows "\<exists>bs p. sys_do E (SyAccept g addr conn up) s =
        (if up then logged_in E g sn bs s else s\<lparr>sy_seq := (sy_seq s)(g := Suc (sy_seq s g))\<rparr>)
      \<and> job_of (en_lib E) bs = JIn sn \<and> p_must_read (en_lib E) bs = Inr p
      \<and> p_get_meta (en_lib E) (w_MetaDestServer (en_lib E)) p = Some (MStr g)"
proof -
  let ?L = "en_lib E"
  obtain fr c1 req tok where f: "en_read E conn = (Ret fr, c1)" "p_must_read ?L (GetPayload fr) = Inr req"
    "p_command ?L req = w_CommandLoginSignIn ?L" "p_read_login ?L req = Inr tok" "en_token E tok = Inr (account, app)"
    using identity_Some [OF assms(3)] by metis
  define i where "i = generateChannelID g account (sy_seq s g)"
  define p where "p = login_packet ?L g sn req"
  have laws: "login_laws ?L" using assms(1) by (simp add: env_ok_def)
  have "no_metas ?L req" using assms(2) f by simp
  note pf = login_packet_fields [OF laws this f(3), of g sn]
  have sn: "s_ChannelId sn = i" "s_GateId sn = g" by (simp_all add: assms(4) login_session_def i_def)
  have read: "p_must_read ?L (p_marshal ?L p) = Inr p" using laws by (simp add: login_laws_def wire_laws_def)
  have job: "job_of ?L (p_marshal ?L p) = JIn sn" using pf by (simp add: job_of_def read) (simp add: p_def)
  let ?q = "p_write_body ?L (B_Session (no_session\<lparr>s_Account := account, s_ChannelId := i, s_GateId := g, s_App := app,
    s_RemoteIP := getIP addr\<rparr>)) (p_set_channel ?L i req)"
  have q: "p_add_meta ?L (w_MetaDestServer ?L) g ?q = p" by (simp add: p_def login_packet_def assms(4) login_session_def i_def)
  have fw: "forwardable ?L (Some ?q)" "p_channel ?L ?q = i"
    using laws f(3) by (simp_all add: forwardable_def login_laws_def set_channel_law_def i_def generateChannelID_def)
  have acc: "Gateway_Accept ?L (en_read E) (en_write E) (en_token E) (link_forward E g up) (sy_seq s g) addr g conn s =
      (if up then (Ret i, c1, enqueue (way E sn) (p_marshal ?L p) s) else (Fail (ErrMsg ''no services found''), c1, s))"
    using f fw q sn by (simp add: Gateway_Accept_def Let_def link_forward_eq i_def [symmetric])
  have "sys_do E (SyAccept g addr conn up) s =
      (if up then logged_in E g sn (p_marshal ?L p) s else s\<lparr>sy_seq := (sy_seq s)(g := Suc (sy_seq s g))\<rparr>)"
    using acc sn assms(4) by (simp add: assms(3) logged_in_def enqueue_def i_def)
  with job read pf(3) show ?thesis by (auto simp: p_def)
qed

lemma accept_effect:
  assumes "env_ok E" and "honest E G (SyAccept g addr conn up)"
  shows "sys_do E (SyAccept g addr conn up) s = s
    \<or> sys_do E (SyAccept g addr conn up) s = s\<lparr>sy_seq := (sy_seq s)(g := Suc (sy_seq s g))\<rparr>
    \<or> (\<exists>account app bs p sn. sys_do E (SyAccept g addr conn up) s = logged_in E g sn bs s
        \<and> sn = login_session g (generateChannelID g account (sy_seq s g)) account app addr
        \<and> job_of (en_lib E) bs = JIn sn \<and> p_must_read (en_lib E) bs = Inr p
        \<and> p_get_meta (en_lib E) (w_MetaDestServer (en_lib E)) p = Some (MStr g))"
proof (cases "identity E conn")
  case None
  then show ?thesis by (simp add: refused_accept [OF None])
next
  case (Some x)
  obtain account app where "x = (account, app)" by fastforce
  with accept_login [OF assms, of account app _ s] Some show ?thesis by (cases up) metis+
qed

lemma seq_inv:
  assumes "sys_inv E G s"
  shows "sys_inv E G (s\<lparr>sy_seq := (sy_seq s)(g := Suc (sy_seq s g))\<rparr>)"
proof -
  have "job_ok E (s\<lparr>sy_seq := f\<rparr>) q x = job_ok E s q x" for f q x by (simp add: job_ok_def split: job.split)
  moreover have "session_inv E G s i sn \<Longrightarrow> session_inv E G (s\<lparr>sy_seq := (sy_seq s)(g := Suc (sy_seq s g))\<rparr>) i sn" for i sn
    by (auto simp: session_inv_def less_Suc_eq)
  ultimately show ?thesis using assms by (simp add: sys_inv_def)
qed

text \<open>The identifier of a new channel is new.\<close>

lemma new_channel:
  assumes "gates_ok G" "g \<in> G" "sys_inv E G s"
  shows "sy_in s (generateChannelID g account (sy_seq s g)) = None"
proof (rule ccontr)
  assume "sy_in s (generateChannelID g account (sy_seq s g)) \<noteq> None"
  then obtain sn where "sy_in s (generateChannelID g account (sy_seq s g)) = Some sn" by blast
  with assms(3) have "session_inv E G s (generateChannelID g account (sy_seq s g)) sn" by (simp add: sys_inv_def)
  then obtain n where n: "s_GateId sn \<in> G" "n < sy_seq s (s_GateId sn)"
    "generateChannelID g account (sy_seq s g) = generateChannelID (s_GateId sn) (s_Account sn) n"
    by (auto simp: session_inv_def)
  from n(3) have "n = sy_seq s g" "g @ ''_'' @ account = s_GateId sn @ ''_'' @ s_Account sn"
    unfolding generateChannelID_inj by simp_all
  with assms(1,2) n(1,2) show False unfolding gates_ok_def by (metis less_irrefl)
qed

lemma login_inv:
  assumes "sys_inv E G s" and "sy_in s (s_ChannelId sn) = None" and "s_GateId sn = g" and "g \<in> G"
    and "s_ChannelId sn = generateChannelID g (s_Account sn) (sy_seq s g)"
    and "job_of (en_lib E) bs = JIn sn" and "p_must_read (en_lib E) bs = Inr p"
    and "p_get_meta (en_lib E) (w_MetaDestServer (en_lib E)) p = Some (MStr g)"
  shows "sys_inv E G (logged_in E g sn bs s)"
proof -
  let ?s = "logged_in E g sn bs s" let ?i = "s_ChannelId sn"
  have fields: "sy_store ?s = sy_store s" "sy_out ?s = sy_out s" "sy_in ?s = (sy_in s)(?i \<mapsto> sn)"
    "sy_on ?s = (sy_on s)(?i := True)" "sy_seq ?s = (sy_seq s)(g := Suc (sy_seq s g))"
    "sy_up ?s = (sy_up s)(way E sn := sy_up s (way E sn) @ [bs])"
    by (simp_all add: logged_in_def enqueue_def)
  have old: "job_ok E ?s q x" if "job_ok E s q x" for q x
    using that assms(2) by (auto simp: job_ok_def fields split: job.splits)
  have new: "job_ok E ?s (way E sn) bs"
    using assms(6-8) by (simp add: job_ok_def fields routed_def)
  have fresh: "\<not> concerns ?i (job_of (en_lib E) x)" if "x \<in> set (sy_up s q)" for x q
  proof -
    have "job_ok E s q x" using that assms(1) unfolding sys_inv_def by blast
    then show ?thesis using assms(2) by (cases "job_of (en_lib E) x") (auto simp: job_ok_def)
  qed
  have none: "stored E ?i (sy_store s) = None" "\<not> sy_out s ?i"
    using assms(1,2) unfolding sys_inv_def by (metis option.exhaust option.distinct(1), metis)
  have 1: "\<forall>q. \<forall>x \<in> set (sy_up ?s q). job_ok E ?s q x"
    using assms(1) old new by (auto simp: sys_inv_def fields(6))
  have 2: "session_inv E G ?s j sn'" if j: "sy_in ?s j = Some sn'" for j sn'
  proof (cases "j = ?i")
    case True
    have "after ?i (map (job_of (en_lib E)) (sy_up s (way E sn))) None = None"
      by (rule after_none) (use fresh in auto)
    then have a: "after ?i (map (job_of (en_lib E)) (sy_up ?s (way E sn))) (stored E ?i (sy_store ?s)) = Some sn"
      by (simp add: fields after_append none assms(6))
    have "sn' = sn" using True j by (simp add: fields)
    then show ?thesis unfolding True session_inv_def using a none(2) assms(3-5)
      by (intro conjI exI [of _ "sy_seq s g"]) (simp_all add: fields(2,5))
  next
    case False
    then have "session_inv E G s j sn'" using j assms(1) by (simp add: sys_inv_def fields)
    then show ?thesis using False assms(6) by (auto simp: session_inv_def fields after_append less_Suc_eq)
  qed
  show ?thesis using 1 2 none assms(1,2) unfolding sys_inv_def
    by (auto simp: fields)
qed

lemma accept_inv:
  assumes "env_ok E" "gates_ok G" "honest E G (SyAccept g addr conn up)" "sys_inv E G s"
  shows "sys_inv E G (sys_do E (SyAccept g addr conn up) s)"
  using accept_effect [OF assms(1,3), of s]
proof (elim disjE exE conjE)
  fix account app bs p sn
  assume step: "sys_do E (SyAccept g addr conn up) s = logged_in E g sn bs s"
    and sn: "sn = login_session g (generateChannelID g account (sy_seq s g)) account app addr"
    and job: "job_of (en_lib E) bs = JIn sn" "p_must_read (en_lib E) bs = Inr p"
      "p_get_meta (en_lib E) (w_MetaDestServer (en_lib E)) p = Some (MStr g)"
  have f: "s_ChannelId sn = generateChannelID g account (sy_seq s g)" "s_GateId sn = g" "s_Account sn = account" "g \<in> G"
    using assms(3) by (simp_all add: sn login_session_def)
  show ?thesis unfolding step
    by (rule login_inv [OF assms(4) _ f(2,4) _ job]) (simp_all add: f new_channel [OF assms(2) f(4) assms(4)])
qed (use assms(4) seq_inv [OF assms(4)] in simp_all)

section \<open>What a service does\<close>

lemma is_ret_Ret: "is_ret x \<longleftrightarrow> (\<exists>v. x = Ret v)"
  by (cases x) auto

lemma stored_Some: "stored E i r = Some sn \<longleftrightarrow> rs_Get (en_codec E) (en_redis E) i r = Ret sn"
  by (simp add: stored_def split: go.splits)

lemma stored_None: "stored E i r = None \<longleftrightarrow> \<not> is_ret (rs_Get (en_codec E) (en_redis E) i r)"
  by (simp add: stored_def split: go.splits)

lemma stored_Add:
  assumes "env_ok E" "rs_Add (en_codec E) (en_redis E) sn r = (Ret (), r')"
  shows "stored E i r' = (if s_ChannelId sn = i then Some sn else stored E i r)"
proof -
  have "redis_laws (en_redis E)" "codec_laws (en_codec E)" using assms(1) by (simp_all add: env_ok_def)
  with rs_Add_Ret [OF this(1) assms(2)] show ?thesis by (auto simp: stored_def rs_Get_def codec_laws_def split: sum.splits)
qed

lemma stored_Delete:
  assumes "env_ok E" "rs_Delete (en_redis E) a j r = (Ret (), r')"
  shows "stored E i r' = (if j = i then None else stored E i r)"
proof -
  have "redis_laws (en_redis E)" using assms(1) by (simp add: env_ok_def)
  with rs_Delete_Ret [OF this assms(2)] show ?thesis by (auto simp: stored_def rs_Get_def split: sum.splits)
qed

lemma JIn_D:
  assumes "job_of L bs = JIn sn"
  obtains p where "p_must_read L bs = Inr p" "p_command L p = w_CommandLoginSignIn L" "p_read_session L p = Inr sn"
  using assms by (auto simp: job_of_def split: sum.splits if_splits)

lemma JOut_D:
  assumes "job_of L bs = JOut i"
  obtains p where "p_must_read L bs = Inr p" "p_command L p = w_CommandLoginSignOut L" "p_channel L p = i"
  using assms by (auto simp: job_of_def split: sum.splits if_splits)

text \<open>The three effects a packet can have on the store of a sound machine.\<close>

lemma serve_effect:
  assumes "env_ok E" "sys_inv E G s" "bs \<in> set (sy_up s q)" "\<forall>x. reach x"
    "r' = fst (snd (session_service E reach g bs (sy_store s, d)))"
  shows "(\<exists>sn. job_of (en_lib E) bs = JIn sn \<and> sy_in s (s_ChannelId sn) = Some sn
        \<and> rs_Add (en_codec E) (en_redis E) sn (sy_store s) = (Ret (), r'))
    \<or> (\<exists>i own. job_of (en_lib E) bs = JOut i \<and> stored E i (sy_store s) = Some own \<and> s_ChannelId own = i
        \<and> rs_Delete (en_redis E) (s_Account own) i (sy_store s) = (Ret (), r'))
    \<or> (r' = sy_store s \<and> (job_of (en_lib E) bs = JOther \<or> (\<exists>i. job_of (en_lib E) bs = JOut i \<and> stored E i (sy_store s) = None)))"
proof (cases "job_of (en_lib E) bs")
  case (JIn sn)
  obtain p where p: "p_must_read (en_lib E) bs = Inr p" "p_command (en_lib E) p = w_CommandLoginSignIn (en_lib E)"
    "p_read_session (en_lib E) p = Inr sn" using JIn_D [OF JIn] .
  have "job_ok E s q bs" using assms(2,3) unfolding sys_inv_def by blast
  then obtain gate where gate: "p_get_meta (en_lib E) (w_MetaDestServer (en_lib E)) p = Some (MStr gate)"
    and inn: "sy_in s (s_ChannelId sn) = Some sn" using JIn p by (auto simp: job_ok_def routed_def)
  from serve_login [OF assms(1) p gate assms(4)] JIn inn show ?thesis unfolding assms(5) by blast
next
  case (JOut i)
  obtain p where p: "p_must_read (en_lib E) bs = Inr p" "p_command (en_lib E) p = w_CommandLoginSignOut (en_lib E)"
    "p_channel (en_lib E) p = i" using JOut_D [OF JOut] .
  show ?thesis
  proof (cases "stored E i (sy_store s)")
    case None
    with serve_other [OF assms(1) _ assms(4)] JOut show ?thesis unfolding assms(5) stored_None by blast
  next
    case (Some own)
    then have "s_ChannelId own = i" using assms(2) unfolding sys_inv_def session_inv_def by blast
    moreover from Some have "rs_Get (en_codec E) (en_redis E) (p_channel (en_lib E) p) (sy_store s) = Ret own"
      using p(3) by (simp add: stored_Some)
    from serve_logout [OF assms(1) p(1,2) this assms(4)] have "rs_Delete (en_redis E) (s_Account own) (s_ChannelId own) (sy_store s) = (Ret (), r')"
      unfolding assms(5) .
    ultimately show ?thesis using JOut Some by blast
  qed
next
  case JOther
  with serve_other [OF assms(1) _ assms(4)] show ?thesis unfolding assms(5) by blast
qed

lemma serve_stored:
  assumes "env_ok E" "sys_inv E G s" "bs \<in> set (sy_up s q)" "\<forall>x. reach x"
    "r' = fst (snd (session_service E reach g bs (sy_store s, d)))"
  shows "stored E i r' = after i [job_of (en_lib E) bs] (stored E i (sy_store s))"
  using serve_effect [OF assms]
proof (elim disjE exE conjE)
  fix sn
  assume "job_of (en_lib E) bs = JIn sn" "rs_Add (en_codec E) (en_redis E) sn (sy_store s) = (Ret (), r')"
  then show ?thesis using stored_Add [OF assms(1)] by simp
next
  fix j own
  assume "job_of (en_lib E) bs = JOut j" "rs_Delete (en_redis E) (s_Account own) j (sy_store s) = (Ret (), r')"
  then show ?thesis using stored_Delete [OF assms(1)] by simp
qed auto

lemma serve_step:
  assumes "sy_up s (g, svc, k) = bs # rest" "env_ok E" "routed E bs" "\<forall>x. reach x"
  shows "\<exists>d. sys_do E (SyServe g svc k reach) s = s\<lparr>sy_store := fst (snd (session_service E reach g bs (sy_store s, sy_down s))),
    sy_down := d, sy_up := (sy_up s)((g, svc, k) := rest)\<rparr>"
  using assms(1) serve_calm [OF assms(2-4), of g "sy_store s" "sy_down s"] by (auto simp: split_beta Let_def)

lemma job_way:
  assumes "job_ok E s q x" "concerns i (job_of (en_lib E) x)" "sy_in s i = Some sn" "s_ChannelId sn = i"
  shows "q = way E sn"
  using assms by (cases "job_of (en_lib E) x") (auto simp: job_ok_def)

lemma serve_inv:
  assumes "env_ok E" "sys_inv E G s" "\<forall>x. reach x"
  shows "sys_inv E G (sys_do E (SyServe g svc k reach) s)"
proof (cases "sy_up s (g, svc, k)")
  case (Cons bs rest)
  let ?q = "(g, svc, k)" let ?job = "job_of (en_lib E)"
  define r' where "r' = fst (snd (session_service E reach g bs (sy_store s, sy_down s)))"
  have bs: "bs \<in> set (sy_up s (g, svc, k))" using Cons by simp
  then have routed: "routed E bs" using assms(2) by (simp add: sys_inv_def job_ok_def)
  obtain d where step: "sys_do E (SyServe g svc k reach) s = s\<lparr>sy_store := r', sy_down := d, sy_up := (sy_up s)(?q := rest)\<rparr>"
    using serve_step [OF Cons assms(1) routed assms(3)] unfolding r'_def by blast
  let ?s = "s\<lparr>sy_store := r', sy_down := d, sy_up := (sy_up s)(?q := rest)\<rparr>"
  note st = serve_stored [OF assms(1,2) bs assms(3) r'_def]
  have ok: "job_ok E s q x" if "x \<in> set (sy_up s q)" for q x using that assms(2) unfolding sys_inv_def by blast
  have jobs: "job_ok E ?s q x = job_ok E s q x" for q x by (simp add: job_ok_def split: job.split)
  have sub: "set (sy_up ?s q) \<subseteq> set (sy_up s q)" for q using Cons by auto
  have 1: "\<forall>q. \<forall>x \<in> set (sy_up ?s q). job_ok E ?s q x"
    unfolding jobs using ok sub by blast
  have 2: "session_inv E G ?s i sn" if i: "sy_in s i = Some sn" for i sn
  proof -
    have inv: "session_inv E G s i sn" using i assms(2) by (simp add: sys_inv_def)
    then have ch: "s_ChannelId sn = i" by (simp add: session_inv_def)
    have r: "sy_store ?s = r'" by simp
    have eq: "after i (map ?job (sy_up ?s (way E sn))) (stored E i (sy_store ?s)) = after i (map ?job (sy_up s (way E sn))) (stored E i (sy_store s))"
    proof (cases "?q = way E sn")
      case True
      then have up: "sy_up s (way E sn) = bs # rest" "sy_up ?s (way E sn) = rest" using Cons by auto
      show ?thesis unfolding up r st list.map by (rule after_Cons [symmetric])
    next
      case False
      then have up: "sy_up ?s (way E sn) = sy_up s (way E sn)" by auto
      have "\<not> concerns i (?job bs)" using job_way [OF ok [OF bs] _ i ch] False by blast
      then show ?thesis unfolding up r st by (simp only: after_one not_False_eq_True)
    qed
    from inv show ?thesis unfolding session_inv_def eq by (simp add: ch)
  qed
  have 3: "sy_in s i = Some sn" if "stored E i r' = Some sn" for i sn
  proof (cases "concerns i (?job bs)")
    case True
    then show ?thesis using that ok [OF bs] unfolding st by (cases "?job bs") (auto simp: job_ok_def)
  next
    case False
    then have "stored E i (sy_store s) = Some sn" using that unfolding st by (simp only: after_one not_False_eq_True)
    then show ?thesis using assms(2) by (simp add: sys_inv_def)
  qed
  show ?thesis unfolding step using 1 2 3 assms(2) by (simp add: sys_inv_def)
qed (simp add: assms(2))

lemma sys_do_inv:
  assumes "env_ok E" "gates_ok G" "honest E G e" "sys_inv E G s"
  shows "sys_inv E G (sys_do E e s)"
proof (cases e)
  case (SyAccept g addr conn up)
  then show ?thesis using accept_inv [OF assms(1,2) _ assms(4)] assms(3) by blast
next
  case (SyReceive g i payload up)
  then show ?thesis using receive_inv [OF assms(1) _ assms(4)] assms(3) by blast
next
  case (SyLeave g i up)
  then show ?thesis using leave_inv [OF assms(1,4)] by blast
next
  case (SyServe g svc k reach)
  then show ?thesis using serve_inv [OF assms(1,4)] assms(3) by simp
qed

lemma sys_run_inv:
  assumes "env_ok E" "gates_ok G" "\<forall>e \<in> set evs. honest E G e" "sys_inv E G s"
  shows "sys_inv E G (sys_run E evs s)"
  using assms(3,4)
proof (induction evs arbitrary: s)
  case (Cons e evs)
  then show ?case using sys_do_inv [OF assms(1,2), of e s] by simp
qed simp

section \<open>Locations\<close>

text \<open>An account is only ever found on a channel that was accepted for it.\<close>

definition loc_inv :: "('p, 'r, 'c) env \<Rightarrow> 'r sys \<Rightarrow> bool" where
  "loc_inv E s \<longleftrightarrow> (\<forall>i sn. sy_in s i = Some sn \<longrightarrow> short_session sn) \<longrightarrow>
     (\<forall>a l. rs_GetLocation (en_redis E) a '''' (sy_store s) = Ret l \<longrightarrow>
        (\<exists>sn. sy_in s (ChannelID l) = Some sn \<and> s_Account sn = a \<and> s_GateId sn = GateId l))"

lemma loc_inv_more:
  assumes "loc_inv E s" "sy_store s' = sy_store s" "\<And>i sn. sy_in s i = Some sn \<Longrightarrow> sy_in s' i = Some sn"
  shows "loc_inv E s'"
  using assms unfolding loc_inv_def by metis

lemma link_forward_keeps:
  "sy_store (snd (link_forward E g up svc p s)) = sy_store s" "sy_in (snd (link_forward E g up svc p s)) = sy_in s"
  by (simp_all add: link_forward_def Let_def)

lemma loc_users:
  assumes "env_ok E" "gates_ok G" "honest E G e" "sys_inv E G s" "loc_inv E s" "\<And>g svc k reach. e \<noteq> SyServe g svc k reach"
  shows "loc_inv E (sys_do E e s)"
proof (cases e)
  case (SyAccept g addr conn up)
  have g: "g \<in> G" using assms(3) SyAccept by simp
  show ?thesis using accept_effect [OF assms(1) assms(3) [unfolded SyAccept], of s]
  proof (elim disjE exE conjE)
    fix account app bs p sn
    assume step: "sys_do E (SyAccept g addr conn up) s = logged_in E g sn bs s"
      and sn: "sn = login_session g (generateChannelID g account (sy_seq s g)) account app addr"
    have "sy_in s (s_ChannelId sn) = None"
      using new_channel [OF assms(2) g assms(4), of account] by (simp add: sn login_session_def)
    then show ?thesis unfolding SyAccept step
      by (intro loc_inv_more [OF assms(5)]) (auto simp: logged_in_def enqueue_def)
  qed (use assms(5) SyAccept in \<open>auto simp: loc_inv_def\<close>)
next
  case (SyReceive g i payload up)
  have "sy_store (sys_do E e s) = sy_store s" "sy_in (sys_do E e s) = sy_in s"
    by (simp_all add: SyReceive Gateway_Receive_def Let_def link_forward_keeps split: sum.splits any_pkt.splits)
  then show ?thesis by (intro loc_inv_more [OF assms(5)]) simp_all
next
  case (SyLeave g i up)
  have "sy_store (sys_do E e s) = sy_store s" "sy_in (sys_do E e s) = sy_in s"
    by (simp_all add: SyLeave Gateway_Disconnect_def Let_def link_forward_keeps)
  then show ?thesis by (intro loc_inv_more [OF assms(5)]) simp_all
qed (use assms(6) in blast)

lemma loc_serve:
  assumes "env_ok E" "sys_inv E G s" "loc_inv E s" "\<forall>x. reach x"
  shows "loc_inv E (sys_do E (SyServe g svc k reach) s)"
proof (cases "sy_up s (g, svc, k)")
  case (Cons bs rest)
  define r' where "r' = fst (snd (session_service E reach g bs (sy_store s, sy_down s)))"
  have bs: "bs \<in> set (sy_up s (g, svc, k))" using Cons by simp
  then have routed: "routed E bs" using assms(2) by (simp add: sys_inv_def job_ok_def)
  obtain d where step: "sys_do E (SyServe g svc k reach) s = s\<lparr>sy_store := r', sy_down := d, sy_up := (sy_up s)((g, svc, k) := rest)\<rparr>"
    using serve_step [OF Cons assms(1) routed assms(4)] unfolding r'_def by blast
  have laws: "redis_laws (en_redis E) \<and> codec_laws (en_codec E)" using assms(1) by (simp add: env_ok_def)
  have "\<exists>sn. sy_in s (ChannelID l) = Some sn \<and> s_Account sn = a \<and> s_GateId sn = GateId l"
    if short: "\<forall>i sn. sy_in s i = Some sn \<longrightarrow> short_session sn" and l: "rs_GetLocation (en_redis E) a '''' r' = Ret l" for a l
  proof -
    have old: "\<exists>sn. sy_in s (ChannelID l) = Some sn \<and> s_Account sn = a \<and> s_GateId sn = GateId l"
      if "rs_GetLocation (en_redis E) a '''' (sy_store s) = Ret l"
      using that short assms(3) unfolding loc_inv_def by blast
    from serve_effect [OF assms(1,2) bs assms(4) r'_def] show ?thesis
    proof (elim disjE exE conjE)
      fix sn
      assume sn: "sy_in s (s_ChannelId sn) = Some sn" and add: "rs_Add (en_codec E) (en_redis E) sn (sy_store s) = (Ret (), r')"
      then have "short_session sn" using short by blast
      from rs.add_loc [OF laws this add, of a] l old sn show ?thesis
        by (cases "a = s_Account sn") (auto simp: session_location_def)
    next
      fix i own
      assume "rs_Delete (en_redis E) (s_Account own) i (sy_store s) = (Ret (), r')"
      from rs.del_loc [OF laws this, of a] l old show ?thesis by (cases "a = s_Account own") auto
    qed (use l old in auto)
  qed
  then show ?thesis unfolding step loc_inv_def by simp
qed (simp add: assms(3))

lemma sys_run_loc:
  assumes "env_ok E" "gates_ok G" "\<forall>e \<in> set evs. honest E G e" "sys_inv E G s" "loc_inv E s"
  shows "loc_inv E (sys_run E evs s)"
  using assms(3,4,5)
proof (induction evs arbitrary: s)
  case (Cons e evs)
  have "loc_inv E (sys_do E e s)"
  proof (cases "\<exists>g svc k reach. e = SyServe g svc k reach")
    case True
    then show ?thesis using loc_serve [OF assms(1) Cons.prems(2,3)] Cons.prems(1) by auto
  next
    case False
    then show ?thesis using loc_users [OF assms(1,2) _ Cons.prems(2,3)] Cons.prems(1) by simp
  qed
  then show ?case using Cons sys_do_inv [OF assms(1,2), of e s] by simp
qed simp

lemma nothing_on_the_way:
  assumes "env_ok E" "sys_inv E G s" "sy_in s i = Some sn"
    and "sy_up s (s_GateId sn, w_SNLogin (en_lib E), en_inst E (w_SNLogin (en_lib E)) i) = []"
  shows "rs_Get (en_codec E) (en_redis E) i (sy_store s) = (if sy_out s i then Fail ErrSessionNil else Ret sn)"
proof -
  have R: "reliable (en_redis E)" using assms(1) by (simp add: env_ok_def)
  have "session_inv E G s i sn" using assms(2,3) unfolding sys_inv_def by blast
  then have "stored E i (sy_store s) = (if sy_out s i then None else Some sn)" using assms(4) by (auto simp: session_inv_def)
  then show ?thesis using reliable_get(2) [OF R, of "en_codec E" i "sy_store s"]
    by (cases "sy_out s i") (simp_all add: stored_None stored_Some)
qed

section \<open>What the store says\<close>

text \<open>With every gateway there could be connected, the store tells the truth.\<close>

lemma truth_connected:
  assumes "env_ok E" and "gates_ok G" and "\<forall>e \<in> set evs. honest E G e"
    and "\<forall>k. rd_Get (en_redis E) k r0 = Inl ErrRedisNil" and "s = sys_run E evs (sys_init r0)"
    and "\<forall>i sn. sy_in s i = Some sn \<longrightarrow> short_session sn"
  shows "(\<forall>i sn. rs_Get (en_codec E) (en_redis E) i (sy_store s) = Ret sn \<longrightarrow> sy_in s i = Some sn)
    \<and> (\<forall>a l. rs_GetLocation (en_redis E) a '''' (sy_store s) = Ret l \<longrightarrow>
        (\<exists>sn. sy_in s (ChannelID l) = Some sn \<and> s_Account sn = a \<and> s_GateId sn = GateId l))
    \<and> (\<forall>i sn. sy_in s i = Some sn \<longrightarrow>
        sy_up s (s_GateId sn, w_SNLogin (en_lib E), en_inst E (w_SNLogin (en_lib E)) i) = [] \<longrightarrow>
        rs_Get (en_codec E) (en_redis E) i (sy_store s) = (if sy_out s i then Fail ErrSessionNil else Ret sn))
    \<and> (\<forall>i. sy_on s i \<longrightarrow> (\<exists>sn. sy_in s i = Some sn) \<and> \<not> sy_out s i)"
proof -
  have init: "sys_inv E G (sys_init r0)" by (rule sys_inv_init [OF assms(4)])
  have "loc_inv E (sys_init r0)"
    using assms(4) by (simp add: loc_inv_def sys_init_def rs_GetLocation_def)
  from sys_run_loc [OF assms(1-3) init this] have loc: "loc_inv E s" by (simp add: assms(5))
  have inv: "sys_inv E G s" using sys_run_inv [OF assms(1-3) init] by (simp add: assms(5))
  have 1: "\<forall>i sn. rs_Get (en_codec E) (en_redis E) i (sy_store s) = Ret sn \<longrightarrow> sy_in s i = Some sn"
    using inv unfolding sys_inv_def stored_Some by blast
  have 2: "rs_Get (en_codec E) (en_redis E) i (sy_store s) = (if sy_out s i then Fail ErrSessionNil else Ret sn)"
    if "sy_in s i = Some sn" "sy_up s (s_GateId sn, w_SNLogin (en_lib E), en_inst E (w_SNLogin (en_lib E)) i) = []" for i sn
    using nothing_on_the_way [OF assms(1) inv that] .
  have 3: "\<forall>i. sy_on s i \<longrightarrow> (\<exists>sn. sy_in s i = Some sn) \<and> \<not> sy_out s i" using inv unfolding sys_inv_def by blast
  have 4: "\<forall>a l. rs_GetLocation (en_redis E) a '''' (sy_store s) = Ret l \<longrightarrow>
      (\<exists>sn. sy_in s (ChannelID l) = Some sn \<and> s_Account sn = a \<and> s_GateId sn = GateId l)"
    using loc assms(6) unfolding loc_inv_def by blast
  show ?thesis by (intro conjI 1 4 3) (use 2 in blast)
qed

section \<open>An example\<close>

definition demo_sys_env :: "(demo_pkt, string \<Rightarrow> bytes option, tcp_conn) env" where
  "demo_sys_env = \<lparr>en_lib = session_lib, en_redis = demo_redis, en_codec = demo_codec, en_read = tcp_ReadFrame,
     en_write = tcp_WriteFrame, en_token = (\<lambda>_. Inr (''ann'', ''app'')), en_inst = (\<lambda>_ _. 0), en_order = rev,
     en_talk = ''chat.user.talk'', en_insert = (\<lambda>_ _ s. (Inr 7, s)), en_now = 1000\<rparr>"

lemma session_lib_logout: "logout_laws session_lib"
  using session_lib_laws by (simp add: login_laws_def logout_laws_def) (simp add: session_lib_def demo_lib_def)

lemma demo_sys_env_ok: "env_ok demo_sys_env"
  using session_lib_laws session_lib_logout demo_redis_laws demo_codec_laws
  by (auto simp: env_ok_def demo_sys_env_def session_lib_fields reliable_def) (simp_all add: demo_redis_def session_lib_def demo_lib_def split: option.splits)

lemma demo_gates_ok: "gates_ok {''gate01'', ''gate02''}"
  by (simp add: gates_ok_def)

lemma demo_honest: "honest demo_sys_env {''gate01'', ''gate02''} (SyAccept ''gate01'' ''1.2.3.4:99'' login_conn True)"
  and demo_identity: "identity demo_sys_env login_conn = Some (''ann'', ''app'')"
proof -
  obtain c where c: "tcp_ReadFrame login_conn = (Ret \<lparr>OpCode = OpBinary, Payload = demo_enc demo_login\<rparr>, c)"
    using login_conn_read by blast
  show "honest demo_sys_env {''gate01'', ''gate02''} (SyAccept ''gate01'' ''1.2.3.4:99'' login_conn True)"
    by (simp add: demo_sys_env_def c session_lib_fields GetPayload_def demo_read no_metas_def) (simp add: demo_lib_def demo_login_def)
  show "identity demo_sys_env login_conn = Some (''ann'', ''app'')"
    by (simp add: identity_def demo_sys_env_def c session_lib_fields GetPayload_def demo_read) (simp add: demo_login_def)
qed

abbreviation demo_login_events :: "tcp_conn sys_event list" where
  "demo_login_events \<equiv> [SyAccept ''gate01'' ''1.2.3.4:99'' login_conn True, SyServe ''gate01'' ''chat'' 0 (\<lambda>_. True)]"

definition ann_session :: session where
  "ann_session = login_session ''gate01'' (generateChannelID ''gate01'' ''ann'' 0) ''ann'' ''app'' ''1.2.3.4:99''"

lemma ann_session_fields:
  "s_ChannelId ann_session = generateChannelID ''gate01'' ''ann'' 0" "s_GateId ann_session = ''gate01''"
  "s_Account ann_session = ''ann''" "short_session ann_session"
proof -
  show f: "s_ChannelId ann_session = generateChannelID ''gate01'' ''ann'' 0" "s_GateId ann_session = ''gate01''"
    "s_Account ann_session = ''ann''" by (simp_all add: ann_session_def login_session_def)
  have "length (generateChannelID ''gate01'' ''ann'' 0) < 65536" by (simp add: generateChannelID_def show_nat.simps [of 0])
  then show "short_session ann_session" using f by (simp add: short_session_def)
qed

lemma demo_sys_env_fields:
  "en_lib demo_sys_env = session_lib" "en_inst demo_sys_env = (\<lambda>_ _. 0)" "en_codec demo_sys_env = demo_codec" "en_redis demo_sys_env = demo_redis"
  by (simp_all add: demo_sys_env_def)

lemma demo_accepted:
  "\<exists>bs. sys_do demo_sys_env (SyAccept ''gate01'' ''1.2.3.4:99'' login_conn True) (sys_init Map.empty) =
     logged_in demo_sys_env ''gate01'' ann_session bs (sys_init Map.empty)"
  using accept_login [OF demo_sys_env_ok demo_honest demo_identity refl, of "sys_init Map.empty"]
  by (auto simp: ann_session_def sys_init_def)

lemma demo_logged_in:
  assumes "s = sys_run demo_sys_env demo_login_events (sys_init Map.empty)"
  shows "sy_up s (''gate01'', ''chat'', 0) = [] \<and> sy_in s = [s_ChannelId ann_session \<mapsto> ann_session]
    \<and> sy_on s (s_ChannelId ann_session) \<and> \<not> sy_out s (s_ChannelId ann_session)"
proof -
  let ?s0 = "sys_init Map.empty :: (string \<Rightarrow> bytes option) sys"
  obtain bs where acc: "sys_do demo_sys_env (SyAccept ''gate01'' ''1.2.3.4:99'' login_conn True) ?s0 = logged_in demo_sys_env ''gate01'' ann_session bs ?s0"
    using demo_accepted by blast
  let ?s1 = "logged_in demo_sys_env ''gate01'' ann_session bs ?s0"
  have "sy_up ?s1 (''gate01'', ''chat'', 0) = [bs]" "sy_in ?s1 = [s_ChannelId ann_session \<mapsto> ann_session]"
    "sy_on ?s1 (s_ChannelId ann_session)" "\<not> sy_out ?s1 (s_ChannelId ann_session)"
    by (simp_all add: logged_in_def enqueue_def sys_init_def ann_session_fields demo_sys_env_fields session_lib_fields)
  then show ?thesis unfolding assms sys_run.simps acc by (simp add: split_beta Let_def)
qed

end
