(* ===== verification/Forgery.thy ===== *)
theory Forgery
  imports SessionTruth
begin

text \<open>
  What the machine of \<open>System\<close> does when a logged-in user is not honest: \<open>Receive\<close> of the gateway
  (\<open>services/gateway/serv/handler.go\<close>) forwards a packet with the login command like any other, and the
  service (\<open>services/server/serv/handler.go\<close>, \<open>handler/login_handler.go\<close>) cannot tell it from one an
  acceptor has made.
\<close>

text \<open>C14: A session can be forged.  When a connected user sends a packet with the login command, addressed to a
  service and with a session of his own making as its body, then the store holds this session once the
  service, connected to the gateways, has taken the packet: the account it names, anybody's, is found on the channel and gateway it
  names, although no acceptor has made this session.\<close>

theorem forged_session:
  assumes "env_ok E" and "connected_at g i s" and "p_read (en_lib E) payload = Inr (Logic_pkt p)"
    and "p_command (en_lib E) p = w_CommandLoginSignIn (en_lib E)" and "i \<noteq> ''''"
    and "q = p_set_channel (en_lib E) i p" and "svc = p_service (en_lib E) q" and "k = en_inst E svc i"
    and "sy_up s (g, svc, k) = []"
    and "p_read_session (en_lib E) (p_add_meta (en_lib E) (w_MetaDestServer (en_lib E)) g q) = Inr forged"
    and "p_get_meta (en_lib E) (w_MetaDestServer (en_lib E)) (p_add_meta (en_lib E) (w_MetaDestServer (en_lib E)) g q) = Some (MStr x)"
    and "short_session forged"
    and "s' = sys_do E (SyServe g svc k reach) (sys_do E (SyReceive g i payload True) s)"
    and "\<forall>x. reach x"
  shows "rs_GetLocation (en_redis E) (s_Account forged) '''' (sy_store s') = Ret (session_location forged)
    \<and> rs_Get (en_codec E) (en_redis E) (s_ChannelId forged) (sy_store s') = Ret forged
    \<and> sy_in s' = sy_in s"
proof -
  let ?L = "en_lib E" let ?bs = "p_marshal ?L (p_add_meta ?L (w_MetaDestServer ?L) g q)"
  have laws: "login_laws ?L" "redis_laws (en_redis E) \<and> codec_laws (en_codec E)" using assms(1) by (simp_all add: env_ok_def)
  have q: "p_command ?L q = w_CommandLoginSignIn ?L" "p_channel ?L q = i" and f: "forwardable ?L (Some q)"
    using laws(1) assms(4,5,6) by (simp_all add: login_laws_def set_channel_law_def forwardable_def)
  have recv: "sys_do E (SyReceive g i payload True) s = enqueue (g, svc, k) ?bs s"
    using assms(2,3) f q(2) by (simp add: Gateway_Receive_def Let_def link_forward_eq assms(6) [symmetric] assms(7) [symmetric] assms(8))
  have up: "sy_up (enqueue (g, svc, k) ?bs s) (g, svc, k) = [?bs]" using assms(9) by (simp add: enqueue_def)
  have read: "p_must_read ?L ?bs = Inr (p_add_meta ?L (w_MetaDestServer ?L) g q)"
    "p_command ?L (p_add_meta ?L (w_MetaDestServer ?L) g q) = w_CommandLoginSignIn ?L"
    using laws(1) q(1) by (simp_all add: login_laws_def wire_laws_def header_laws_def)
  have st: "sy_store (enqueue (g, svc, k) ?bs s) = sy_store s" "sy_in (enqueue (g, svc, k) ?bs s) = sy_in s"
    by (simp_all add: enqueue_def)
  have routed: "routed E ?bs" using read(1) assms(11) by (simp add: routed_def)
  obtain d where s': "sy_store s' = fst (snd (session_service E reach g ?bs (sy_store s, d)))" "sy_in s' = sy_in s"
    using serve_step [OF up assms(1) routed assms(14)] unfolding assms(13) recv by (auto simp: st simp del: sys_do.simps)
  from serve_login [OF assms(1) read assms(10,11,14), of "sy_store s" g d]
  have add: "rs_Add (en_codec E) (en_redis E) forged (sy_store s) = (Ret (), sy_store s')" unfolding s'(1) .
  show ?thesis
    using rs.add_loc [OF laws(2) assms(12) add, of "s_Account forged"] rs.add_get [OF laws(2) assms(12) add, of "s_ChannelId forged"] s'(2)
    by simp
qed

text \<open>A routing entry that is not a string, in a packet with the login command, ends the process of the
  service: the handler's type assertion panics.\<close>

lemma odd_entry_panics:
  assumes "p_must_read L payload = Inr p" and "p_command L p = w_CommandLoginSignIn L"
    and "p_get_meta L (w_MetaDestServer L) p = Some (MOther t)"
  shows "ServHandler_Receive L routes store ag_push payload s = (Panics ''interface conversion'', s)"
  using assms by (simp add: ServHandler_Receive_def)

section \<open>An example\<close>

definition stolen :: session where
  "stolen = ann_session\<lparr>s_Account := ''bob''\<rparr>"

definition stolen_login :: bytes where
  "stolen_login = demo_enc (p_write_body session_lib (B_Session stolen) demo_login)"

theorem forged_session_witness:
  "\<exists>s. s = sys_run demo_sys_env (demo_login_events @ [SyReceive ''gate01'' (s_ChannelId ann_session) stolen_login True,
        SyServe ''gate01'' ''chat'' 0 (\<lambda>_. True)]) (sys_init Map.empty)
     \<and> rs_GetLocation demo_redis ''bob'' '''' (sy_store s) = Ret (session_location ann_session)"
proof -
  define s where "s = sys_run demo_sys_env demo_login_events (sys_init Map.empty)"
  note s = demo_logged_in [OF s_def]
  let ?i = "s_ChannelId ann_session" let ?p = "p_write_body session_lib (B_Session stolen) demo_login"
  have "p_must_read session_lib stolen_login = Inr ?p" by (simp add: session_lib_fields stolen_login_def demo_read)
  then have read: "p_read session_lib stolen_login = Inr (Logic_pkt ?p)" by (simp add: session_lib_def demo_lib_def)
  have on: "connected_at ''gate01'' ?i s" using s by (simp add: connected_at_def ann_session_fields)
  have cmd: "p_command session_lib ?p = w_CommandLoginSignIn session_lib" by (simp add: session_lib_def demo_lib_def demo_login_def)
  have i: "?i \<noteq> ''''" by (simp add: ann_session_fields generateChannelID_def)
  have svc: "''chat'' = p_service session_lib (p_set_channel session_lib ?i ?p)" by (simp add: session_lib_def demo_lib_def)
  have body: "p_read_session session_lib (p_add_meta session_lib (w_MetaDestServer session_lib) ''gate01'' (p_set_channel session_lib ?i ?p)) = Inr stolen"
    using demo_codec_laws by (simp add: session_lib_def demo_lib_def codec_laws_def)
  have meta: "p_get_meta session_lib (w_MetaDestServer session_lib)
      (p_add_meta session_lib (w_MetaDestServer session_lib) ''gate01'' (p_set_channel session_lib ?i ?p)) = Some (MStr ''gate01'')"
    by (simp add: session_lib_def demo_lib_def demo_login_def)
  have all: "\<forall>x. (\<lambda>_ :: string. True) x" by simp
  have short: "short_session stolen" using ann_session_fields by (simp add: stolen_def short_session_def)
  have loc: "s_Account stolen = ''bob''" "session_location stolen = session_location ann_session"
    by (simp_all add: stolen_def session_location_def)
  let ?s' = "sys_do demo_sys_env (SyServe ''gate01'' ''chat'' 0 (\<lambda>_. True)) (sys_do demo_sys_env (SyReceive ''gate01'' ?i stolen_login True) s)"
  have "rs_GetLocation (en_redis demo_sys_env) (s_Account stolen) '''' (sy_store ?s') = Ret (session_location stolen)"
  proof (rule conjunct1 [OF forged_session [where p = ?p and x = "''gate01''" and svc = "''chat''" and k = 0,
      OF demo_sys_env_ok on _ _ i refl _ _ _ _ _ short refl all]])
    show "sy_up s (''gate01'', ''chat'', 0) = []" using s by blast
  qed (use read cmd svc body meta in \<open>simp_all only: demo_sys_env_fields\<close>)
  moreover have "sys_run demo_sys_env (demo_login_events @ [SyReceive ''gate01'' ?i stolen_login True, SyServe ''gate01'' ''chat'' 0 (\<lambda>_. True)]) (sys_init Map.empty) = ?s'"
    unfolding s_def by (simp del: sys_do.simps)
  ultimately show ?thesis using loc by (simp only: demo_sys_env_fields) blast
qed

end
