(* ===== verification/Settling.thy ===== *)
theory Settling
  imports SessionTruth
begin

text \<open>
  Another fact about the machine of \<open>System\<close>: when the services have taken what is on the way, in
  whatever order, the session store holds the sessions of exactly the users who are there.
\<close>

section \<open>Draining the queues\<close>

fun serves_from :: "'c sys_event \<Rightarrow> (string \<times> string \<times> nat) option" where
  "serves_from (SyServe g svc k reach) = Some (g, svc, k)"
| "serves_from _ = None"

definition drains :: "string set \<Rightarrow> 'r sys \<Rightarrow> 'c sys_event list \<Rightarrow> bool" where
  "drains G s later \<longleftrightarrow> (\<forall>e \<in> set later. \<exists>g svc k reach. e = SyServe g svc k reach \<and> (\<forall>x \<in> G. reach x))
     \<and> (\<forall>q. length (sy_up s q) \<le> count_list (map serves_from later) (Some q))"

lemma serve_pops:
  assumes "env_ok E" "sys_inv E G s" "e = SyServe g svc k (\<lambda>_. True)"
  shows "sy_up (sys_do E e s) = (sy_up s)((g, svc, k) := tl (sy_up s (g, svc, k)))"
    and "sy_in (sys_do E e s) = sy_in s" "sy_on (sys_do E e s) = sy_on s" "sy_out (sys_do E e s) = sy_out s"
    and "sys_inv E G (sys_do E e s)"
proof -
  show "sys_inv E G (sys_do E e s)" unfolding assms(3) by (rule serve_inv [OF assms(1,2)]) simp
  have "sy_up (sys_do E e s) = (sy_up s)((g, svc, k) := tl (sy_up s (g, svc, k))) \<and> sy_in (sys_do E e s) = sy_in s
      \<and> sy_on (sys_do E e s) = sy_on s \<and> sy_out (sys_do E e s) = sy_out s"
  proof (cases "sy_up s (g, svc, k)")
    case (Cons bs rest)
    then have "bs \<in> set (sy_up s (g, svc, k))" by simp
    then have "routed E bs" using assms(2) by (simp add: sys_inv_def job_ok_def)
    from serve_step [OF Cons assms(1) this, of "\<lambda>_. True"] Cons show ?thesis
      by (auto simp: assms(3) simp del: sys_do.simps)
  qed (simp add: assms(3) fun_upd_idem)
  then show "sy_up (sys_do E e s) = (sy_up s)((g, svc, k) := tl (sy_up s (g, svc, k)))" "sy_in (sys_do E e s) = sy_in s"
    "sy_on (sys_do E e s) = sy_on s" "sy_out (sys_do E e s) = sy_out s" by simp_all
qed

lemma served_all:
  assumes "env_ok E" "sys_inv E G s" "\<forall>e \<in> set later. \<exists>g svc k. e = SyServe g svc k (\<lambda>_. True)"
  shows "sy_up (sys_run E later s) q = drop (count_list (map serves_from later) (Some q)) (sy_up s q)
    \<and> sy_in (sys_run E later s) = sy_in s \<and> sy_on (sys_run E later s) = sy_on s \<and> sy_out (sys_run E later s) = sy_out s
    \<and> sys_inv E G (sys_run E later s)"
  using assms(2,3)
proof (induction later arbitrary: s)
  case (Cons e later)
  then obtain g svc k where e: "e = SyServe g svc k (\<lambda>_. True)" by auto
  note pops = serve_pops [OF assms(1) Cons.prems(1) e]
  show ?case using Cons.IH [OF pops(5)] Cons.prems(2) pops(1-4) by (simp add: e drop_Suc tl_drop del: sys_do.simps)
qed simp

text \<open>Only finitely many connections have something on the way.\<close>

definition busy :: "'r sys \<Rightarrow> (string \<times> string \<times> nat) set" where
  "busy s = {q. sy_up s q \<noteq> []}"

lemma busy_link: "finite (busy s) \<Longrightarrow> finite (busy (snd (link_forward E g up svc p s)))"
proof -
  assume "finite (busy s)"
  moreover have "busy (snd (link_forward E g up svc p s)) \<subseteq> insert (g, svc, en_inst E svc (p_channel (en_lib E) (the p))) (busy s)"
    by (auto simp: busy_def link_forward_def Let_def)
  ultimately show ?thesis by (metis finite_insert finite_subset)
qed

lemma busy_same: "sy_up s' = sy_up s \<Longrightarrow> finite (busy s) \<Longrightarrow> finite (busy s')"
  by (simp add: busy_def)

lemma busy_do:
  assumes "env_ok E" "honest E G e" "finite (busy s)"
  shows "finite (busy (sys_do E e s))"
proof (cases e)
  case (SyAccept g addr conn up)
  show ?thesis using accept_effect [OF assms(1) assms(2) [unfolded SyAccept], of s] unfolding SyAccept
  proof (elim disjE exE conjE)
    fix account app bs p sn
    assume step: "sys_do E (SyAccept g addr conn up) s = logged_in E g sn bs s"
    have "busy (logged_in E g sn bs s) \<subseteq> insert (way E sn) (busy s)" by (auto simp: busy_def logged_in_def enqueue_def)
    with assms(3) show "finite (busy (sys_do E (SyAccept g addr conn up) s))" unfolding step by (metis finite_insert finite_subset)
  qed (use assms(3) in \<open>simp_all add: busy_def\<close>)
next
  case (SyReceive g i payload up)
  show ?thesis using assms(3) unfolding SyReceive sys_do.simps
    by (simp add: Gateway_Receive_def Let_def busy_link split: sum.split any_pkt.split)
next
  case (SyLeave g i up)
  have same: "busy (s'\<lparr>sy_on := f, sy_out := f'\<rparr>) = busy s'" for s' :: "'r sys" and f f' by (simp add: busy_def)
  show ?thesis unfolding SyLeave sys_do.simps Let_def Gateway_Disconnect_def snd_ignore
    using assms(3) by (simp add: busy_link same)
next
  case (SyServe g svc k reach)
  have "sy_up (sys_do E e s) q = []" if "sy_up s q = []" for q
    using that by (auto simp: SyServe split_beta Let_def split: list.split)
  then have "busy (sys_do E e s) \<subseteq> busy s" unfolding busy_def by blast
  with assms(3) show ?thesis by (metis finite_subset)
qed

lemma busy_run:
  assumes "env_ok E" "\<forall>e \<in> set evs. honest E G e" "finite (busy s)"
  shows "finite (busy (sys_run E evs s))"
  using assms(2,3)
proof (induction evs arbitrary: s)
  case (Cons e evs)
  then show ?case using busy_do [OF assms(1), of G e s] by simp
qed simp

lemma count_list_replicate: "count_list (replicate n x) x = n"
  by (induction n) simp_all

lemma count_list_concat: "xs \<in> set xss \<Longrightarrow> count_list xs x \<le> count_list (concat xss) x"
  by (induction xss) auto

lemma drain_exists:
  assumes "finite (busy s)"
  shows "\<exists>later :: 'c sys_event list. drains G s later"
proof -
  obtain qs where qs: "set qs = busy s" using assms finite_list by blast
  define one :: "string \<times> string \<times> nat \<Rightarrow> 'c sys_event list" where
    "one q = (let (g, svc, k) = q in replicate (length (sy_up s q)) (SyServe g svc k (\<lambda>_. True)))" for q
  have one: "map serves_from (one q) = replicate (length (sy_up s q)) (Some q)" for q
    by (simp add: one_def split_beta)
  have "length (sy_up s q) \<le> count_list (map serves_from (concat (map one qs))) (Some q)" for q
  proof (cases "sy_up s q = []")
    case False
    then have "map serves_from (one q) \<in> set (map (map serves_from) (map one qs))" using qs by (auto simp: busy_def)
    from count_list_concat [OF this, of "Some q"] show ?thesis by (simp add: one count_list_replicate map_concat)
  qed simp
  moreover have "\<exists>g svc k reach. e = SyServe g svc k reach \<and> (\<forall>x \<in> G. reach x)" if "e \<in> set (concat (map one qs))" for e
  proof -
    from that obtain xs where xs: "xs \<in> set (map one qs)" "e \<in> set xs" unfolding set_concat by blast
    from xs(1) obtain q where "xs = one q" unfolding set_map by (rule imageE)
    with xs(2) show ?thesis by (auto simp: one_def split_beta)
  qed
  ultimately show ?thesis unfolding drains_def by blast
qed

text \<open>With every gateway there could be connected, the sessions settle.\<close>

lemma settling_connected:
  assumes "env_ok E" and "gates_ok G" and "\<forall>e \<in> set evs. honest E G e"
    and "\<forall>k. rd_Get (en_redis E) k r0 = Inl ErrRedisNil" and "s = sys_run E evs (sys_init r0)"
    and "drains UNIV s later" and "t = sys_run E later s"
  shows "(\<forall>q. sy_up t q = [])
    \<and> (\<forall>i. rs_Get (en_codec E) (en_redis E) i (sy_store t) =
        (case sy_in s i of Some sn \<Rightarrow> if sy_out s i then Fail ErrSessionNil else Ret sn | None \<Rightarrow> Fail ErrSessionNil))
    \<and> (\<forall>i. sy_on s i \<longrightarrow> (\<exists>sn. sy_in s i = Some sn \<and> rs_Get (en_codec E) (en_redis E) i (sy_store t) = Ret sn))"
proof (intro conjI allI impI)
  have d: "drains UNIV s later \<and> t = sys_run E later s" using assms(6,7) by simp
  have inv: "sys_inv E G s" unfolding assms(5) by (rule sys_run_inv [OF assms(1-3) sys_inv_init [OF assms(4)]])
  have "\<forall>e \<in> set later. \<exists>g svc k. e = SyServe g svc k (\<lambda>_. True)"
  proof
    fix e
    assume "e \<in> set later"
    then obtain g svc k reach where e: "e = SyServe g svc k reach" "\<forall>x. reach x" using d by (auto simp: drains_def)
    then have "reach = (\<lambda>_. True)" by (intro ext) simp
    with e show "\<exists>g svc k. e = SyServe g svc k (\<lambda>_. True)" by blast
  qed
  note t = served_all [OF assms(1) inv this]
  then have inv': "sys_inv E G t" using d by blast
  show up: "sy_up t q = []" for q
  proof -
    have "length (sy_up s q) \<le> count_list (map serves_from later) (Some q)" using d unfolding drains_def by blast
    with t [of q] d show ?thesis by simp
  qed
  show get: "rs_Get (en_codec E) (en_redis E) i (sy_store t) =
      (case sy_in s i of Some sn \<Rightarrow> if sy_out s i then Fail ErrSessionNil else Ret sn | None \<Rightarrow> Fail ErrSessionNil)" for i
  proof (cases "sy_in s i")
    case None
    have R: "reliable (en_redis E)" using assms(1) by (simp add: env_ok_def)
    have "sy_in t i = None" using None d t by simp
    then have "stored E i (sy_store t) = None" using inv' unfolding sys_inv_def by (metis not_Some_eq)
    with None reliable_get(2) [OF R, of "en_codec E" i "sy_store t"] show ?thesis by (simp add: stored_None)
  next
    case (Some sn)
    with nothing_on_the_way [OF assms(1) inv', of i sn] d t up show ?thesis by simp
  qed
  fix i
  assume on: "sy_on s i"
  then obtain sn where "sy_in s i = Some sn" "\<not> sy_out s i" using inv unfolding sys_inv_def by blast
  with get [of i] show "\<exists>sn. sy_in s i = Some sn \<and> rs_Get (en_codec E) (en_redis E) i (sy_store t) = Ret sn" by simp
qed

end
