(* ===== verification/Reaching.thy ===== *)
theory Reaching
  imports Settling
begin

text \<open>
  Which gateways the services push to.  The theories before have every gateway one could name
  connected; here only those of the system are, and it is shown that nothing is pushed to another: a
  run in which the services reach the system's gateways is the run in which they reach everything.
  With it come the properties of the whole machine: what the session store says, how the sessions
  settle, and that no service panics.
\<close>

section \<open>Handlers over two dispatchers that agree on some gateways\<close>

definition same_at :: "string set \<Rightarrow> ('p, 's) dispatcher \<Rightarrow> ('p, 's) dispatcher \<Rightarrow> bool" where
  "same_at A push1 push2 \<longleftrightarrow> (\<forall>g \<in> A. push1 g = push2 g)"

lemma Resp_at:
  "same_at A push1 push2 \<Longrightarrow> cx_session c = Some own \<Longrightarrow> s_GateId own \<in> A \<Longrightarrow> Resp L push1 c st b s = Resp L push2 c st b s"
  by (simp add: Resp_def Session_def same_at_def)

lemma RespWithError_at:
  "same_at A push1 push2 \<Longrightarrow> cx_session c = Some own \<Longrightarrow> s_GateId own \<in> A \<Longrightarrow>
     RespWithError L push1 c st e s = RespWithError L push2 c st e s"
  by (simp add: RespWithError_def Resp_at)

lemma push_groups_at:
  assumes "same_at A push1 push2"
  shows "\<forall>x \<in> set gs. fst x \<in> A \<Longrightarrow> push_groups push1 gs p s = push_groups push2 gs p s"
proof (induction gs arbitrary: p s)
  case (Cons x gs)
  obtain g ids where x: "x = (g, ids)" by fastforce
  then have g: "push1 g = push2 g" using Cons.prems assms by (simp add: same_at_def)
  obtain r p1 s1 where push: "push2 g ids p s = (r, p1, s1)" by (cases "push2 g ids p s")
  have "push_groups push1 gs p1 s1 = push_groups push2 gs p1 s1" using Cons by simp
  then show ?case by (cases r) (simp_all add: x g push)
qed simp

lemma Dispatch_at:
  assumes "same_at A push1 push2" "is_order \<pi>" "GateId l \<in> A"
  shows "Dispatch L push1 \<pi> c b [l] s = Dispatch L push2 \<pi> c b [l] s"
proof -
  have "\<forall>x \<in> set (\<pi> (group_recvs own [l] [])). fst x \<in> A" for own
    using assms(3) by (simp add: is_order_set [OF assms(2)])
  then show ?thesis by (simp add: Dispatch_def Let_def push_groups_at [OF assms(1)] split: go.split)
qed

lemma talk_at:
  assumes "same_at A push1 push2" "is_order \<pi>" "cx_session c = Some own" "s_GateId own \<in> A" "\<forall>l. loc = Some l \<longrightarrow> GateId l \<in> A"
  shows "talk L push1 \<pi> ins now req loc c s = talk L push2 \<pi> ins now req loc c s"
proof -
  note same = Resp_at [OF assms(1,3,4)] RespWithError_at [OF assms(1,3,4)]
  let ?rq = "\<lparr>rq_Sender = s_Account own, rq_Dest = p_dest L (cx_request c), rq_SendTime = now, rq_Message = req\<rparr>"
  obtain x s1 where i: "ins (s_App own) ?rq s = (x, s1)" by (cases "ins (s_App own) ?rq s")
  show ?thesis
  proof (cases x)
    case (Inr m)
    let ?d = "\<lambda>push. case loc of None \<Rightarrow> (Ret (), s1) | Some l \<Rightarrow> Dispatch L push \<pi> c (B_MessagePush m req (s_Account own) now) [l] s1"
    have d: "?d push1 = ?d push2" using Dispatch_at [OF assms(1,2)] assms(5) by (cases loc) simp_all
    obtain y s2 where y: "?d push2 = (y, s2)" by (cases "?d push2")
    show ?thesis using assms(3) by (cases y) (simp_all add: talk_def Session_def i Inr d y same)
  qed (simp add: talk_def Session_def i assms(3) same)
qed

lemma DoUserTalk_at:
  assumes "same_at A push1 push2" "is_order \<pi>" "cx_session c = Some own" "s_GateId own \<in> A"
    and "\<forall>a l. ss_GetLocation store a '''' s = Ret l \<longrightarrow> GateId l \<in> A"
  shows "DoUserTalk L push1 \<pi> store ins now c s = DoUserTalk L push2 \<pi> store ins now c s"
  using assms(5)
  by (auto simp: DoUserTalk_def RespWithError_at [OF assms(1,3,4)] talk_at [OF assms(1-4)] split: sum.split go.split)

lemma DoSysLogin_at:
  assumes "same_at A push1 push2" "is_order \<pi>" "cx_session c = Some own" "s_GateId own \<in> A"
    and "\<forall>a l. ss_GetLocation store a '''' s = Ret l \<longrightarrow> GateId l \<in> A"
  shows "DoSysLogin L push1 \<pi> store c s = DoSysLogin L push2 \<pi> store c s"
proof (cases "p_read_session L (cx_request c)")
  case (Inr sn)
  note same = Resp_at [OF assms(1,3,4)] RespWithError_at [OF assms(1,3,4)]
  have added: "(\<lambda>_ s1. case ss_Add store sn s1 of
        (Panics m, s2) \<Rightarrow> (Panics m, s2)
      | (Fail err, s2) \<Rightarrow> ignore_error (RespWithError L push1 c St_SystemException err s2)
      | (Ret _, s2) \<Rightarrow> ignore_error (Resp L push1 c St_Success (B_LoginResp (s_ChannelId sn)) s2)) =
     (\<lambda>_ :: unit. \<lambda>s1. case ss_Add store sn s1 of
        (Panics m, s2) \<Rightarrow> (Panics m, s2)
      | (Fail err, s2) \<Rightarrow> ignore_error (RespWithError L push2 c St_SystemException err s2)
      | (Ret _, s2) \<Rightarrow> ignore_error (Resp L push2 c St_Success (B_LoginResp (s_ChannelId sn)) s2))"
    by (intro ext) (simp add: same split: prod.split go.split)
  show ?thesis
  proof (cases "ss_GetLocation store (s_Account sn) '''' s")
    case (Ret l)
    then have "GateId l \<in> A" using assms(5) by blast
    then show ?thesis using Inr Ret by (simp add: DoSysLogin_def Let_def added Dispatch_at [OF assms(1,2)])
  qed (use Inr added in \<open>simp_all add: DoSysLogin_def Let_def same\<close>)
qed (simp add: DoSysLogin_def RespWithError_at [OF assms(1,3,4)])

lemma DoSysLogout_at:
  assumes "same_at A push1 push2" "cx_session c = Some own" "s_GateId own \<in> A"
  shows "DoSysLogout L push1 store c s = DoSysLogout L push2 store c s"
  by (simp add: DoSysLogout_def Session_def assms(2) Resp_at [OF assms] RespWithError_at [OF assms] split: prod.split go.split)

section \<open>One packet\<close>

lemma link_same_at:
  "\<forall>x \<in> A. reach x \<Longrightarrow> same_at A (ServerDispatcher_Push L (link_push reach)) (ServerDispatcher_Push L (link_push (\<lambda>_. True)))"
  by (simp add: same_at_def ServerDispatcher_Push_eq link_push_def fun_eq_iff)

lemma serve_at:
  assumes "env_ok E" "is_order (en_order E)" "\<forall>x \<in> G. reach x" "s_GateId own \<in> G"
    and "\<forall>a l. rs_GetLocation (en_redis E) a '''' r = Ret l \<longrightarrow> GateId l \<in> G"
  shows "Serve (en_lib E) (chat_routes E reach) True True p (Some own) (r, d)
    = Serve (en_lib E) (chat_routes E (\<lambda>_. True)) True True p (Some own) (r, d)"
proof -
  let ?L = "en_lib E" let ?c = "\<lparr>cx_request = p, cx_session = Some own\<rparr>"
  let ?store = "redis_store (en_codec E) (en_redis E)"
  have c: "cx_session ?c = Some own" by simp
  have loc: "\<forall>a l. ss_GetLocation ?store a '''' (r, d) = Ret l \<longrightarrow> GateId l \<in> G" using assms(5) by (simp add: redis_store_def)
  note same = link_same_at [OF assms(3), of ?L]
  consider "p_command ?L p = w_CommandLoginSignIn ?L" | "p_command ?L p = w_CommandLoginSignOut ?L"
    | "p_command ?L p \<noteq> w_CommandLoginSignIn ?L" "p_command ?L p \<noteq> w_CommandLoginSignOut ?L" by blast
  then show ?thesis
  proof cases
    case 1
    then show ?thesis
      by (simp add: Serve_def serveContext_def chat_paths [OF assms(1)] Next_def DoSysLogin_at [OF same assms(2) c assms(4) loc])
  next
    case 2
    then show ?thesis
      by (simp add: Serve_def serveContext_def chat_paths [OF assms(1)] Next_def DoSysLogout_at [OF same c assms(4)])
  next
    case 3
    then show ?thesis
      by (simp add: Serve_def serveContext_def chat_paths [OF assms(1)] Next_def DoUserTalk_at [OF same assms(2) c assms(4) loc])
  qed
qed

lemma service_at:
  assumes "env_ok E" "is_order (en_order E)" "\<forall>x \<in> G. reach x" "g \<in> G"
    and "\<forall>p. p_must_read (en_lib E) bs = Inr p \<longrightarrow> p_command (en_lib E) p = w_CommandLoginSignIn (en_lib E) \<longrightarrow>
        p_get_meta (en_lib E) (w_MetaDestServer (en_lib E)) p = Some (MStr g)"
    and "\<forall>i own. rs_Get (en_codec E) (en_redis E) i r = Ret own \<longrightarrow> s_GateId own \<in> G"
    and "\<forall>a l. rs_GetLocation (en_redis E) a '''' r = Ret l \<longrightarrow> GateId l \<in> G"
  shows "session_service E reach g bs (r, d) = session_service E (\<lambda>_. True) g bs (r, d)"
proof (cases "p_must_read (en_lib E) bs")
  case (Inr p)
  have err: "RespErr (en_lib E) (link_push reach g) p st (r, d) = RespErr (en_lib E) (link_push (\<lambda>_. True) g) p st (r, d)" for st
    using assms(3,4) by (simp add: RespErr_def link_push_def)
  note serve = serve_at [OF assms(1-3) _ assms(7), of _ p d]
  show ?thesis
  proof (cases "p_command (en_lib E) p = w_CommandLoginSignIn (en_lib E)")
    case True
    then have "p_get_meta (en_lib E) (w_MetaDestServer (en_lib E)) p = Some (MStr g)" using assms(5) Inr by blast
    moreover have "s_GateId (auto_session (p_channel (en_lib E) p) g) \<in> G" using assms(4) by (simp add: auto_session_def)
    ultimately show ?thesis using Inr True serve by (simp add: ServHandler_Receive_def)
  next
    case False
    show ?thesis
    proof (cases "rs_Get (en_codec E) (en_redis E) (p_channel (en_lib E) p) r")
      case (Ret own)
      then have "s_GateId own \<in> G" using assms(6) by blast
      then show ?thesis using Inr False Ret serve by (simp add: ServHandler_Receive_def)
    qed (use Inr False err in \<open>simp_all add: ServHandler_Receive_def\<close>)
  qed
qed (simp add: ServHandler_Receive_def)

section \<open>What is on the way\<close>

text \<open>Packets only ever wait on connections of the system's gateways, and a login carries the name of the
  gateway it came from.\<close>

definition from_gate :: "('p, 'r, 'c) env \<Rightarrow> string \<Rightarrow> bytes \<Rightarrow> bool" where
  "from_gate E g bs \<longleftrightarrow> (\<forall>p. p_must_read (en_lib E) bs = Inr p \<longrightarrow> p_command (en_lib E) p = w_CommandLoginSignIn (en_lib E) \<longrightarrow>
     p_get_meta (en_lib E) (w_MetaDestServer (en_lib E)) p = Some (MStr g))"

definition sent_inv :: "('p, 'r, 'c) env \<Rightarrow> string set \<Rightarrow> 'r sys \<Rightarrow> bool" where
  "sent_inv E G s \<longleftrightarrow> (\<forall>q. \<forall>bs \<in> set (sy_up s q). fst q \<in> G \<and> from_gate E (fst q) bs)"

lemma sent_enqueue:
  assumes "sent_inv E G s" "fst q \<in> G" "from_gate E (fst q) bs"
  shows "sent_inv E G (enqueue q bs s)"
  using assms by (auto simp: sent_inv_def enqueue_def)

lemma sent_same: "sent_inv E G s \<Longrightarrow> (\<And>q. set (sy_up s' q) \<subseteq> set (sy_up s q)) \<Longrightarrow> sent_inv E G s'"
  unfolding sent_inv_def by blast

lemma connected_gate: "sys_inv E G s \<Longrightarrow> connected_at g i s \<Longrightarrow> g \<in> G"
  by (auto simp: connected_at_def sys_inv_def session_inv_def split: option.splits)

lemma sent_do:
  assumes "env_ok E" "honest E G e" "sys_inv E G s" "sent_inv E G s"
  shows "sent_inv E G (sys_do E e s)"
proof (cases e)
  case (SyAccept g addr conn up)
  have g: "g \<in> G" using assms(2) SyAccept by simp
  show ?thesis using accept_effect [OF assms(1) assms(2) [unfolded SyAccept], of s] unfolding SyAccept
  proof (elim disjE exE conjE)
    fix account app bs p sn
    assume step: "sys_do E (SyAccept g addr conn up) s = logged_in E g sn bs s"
      and sn: "sn = login_session g (generateChannelID g account (sy_seq s g)) account app addr"
      and p: "p_must_read (en_lib E) bs = Inr p" "p_get_meta (en_lib E) (w_MetaDestServer (en_lib E)) p = Some (MStr g)"
    have "sent_inv E G (enqueue (way E sn) bs s)"
      by (rule sent_enqueue [OF assms(4)]) (use g p in \<open>simp_all add: sn login_session_def from_gate_def\<close>)
    then show "sent_inv E G (sys_do E (SyAccept g addr conn up) s)"
      unfolding step by (rule sent_same) (simp add: logged_in_def)
  qed (use assms(4) in \<open>simp_all add: sent_inv_def\<close>)
next
  case (SyReceive g i payload up)
  let ?L = "en_lib E"
  have "sent_inv E G (snd (link_forward E g up svc (Some (p_set_channel ?L i p)) s))"
    if "connected_at g i s" "p_read ?L payload = Inr (Logic_pkt p)" for svc p
  proof -
    have laws: "login_laws ?L" using assms(1) by (simp add: env_ok_def)
    have "p_command ?L p \<noteq> w_CommandLoginSignIn ?L" using assms(2) that(2) SyReceive by simp
    with laws have "from_gate E g (p_marshal ?L (p_add_meta ?L (w_MetaDestServer ?L) g (p_set_channel ?L i p)))"
      by (simp add: from_gate_def login_laws_def wire_laws_def header_laws_def set_channel_law_def)
    with sent_enqueue [OF assms(4)] connected_gate [OF assms(3) that(1)] assms(4) show ?thesis by (simp add: link_forward_eq)
  qed
  then show ?thesis using assms(4) unfolding SyReceive
    by (auto simp: Gateway_Receive_def Let_def split: sum.splits any_pkt.splits)
next
  case (SyLeave g i up)
  let ?L = "en_lib E"
  have "p_command ?L (p_add_meta ?L k v (p_new ?L (w_CommandLoginSignOut ?L) (Some i))) \<noteq> w_CommandLoginSignIn ?L" for k v
    using assms(1) by (simp add: env_ok_def logout_laws_def header_laws_def)
  then have "from_gate E g (p_marshal ?L (p_add_meta ?L (w_MetaDestServer ?L) g (p_new ?L (w_CommandLoginSignOut ?L) (Some i))))"
    using assms(1) by (simp add: from_gate_def env_ok_def logout_laws_def wire_laws_def)
  then have "sent_inv E G (snd (link_forward E g up (w_SNLogin ?L) (Some (p_new ?L (w_CommandLoginSignOut ?L) (Some i))) s))"
    if "connected_at g i s"
    using sent_enqueue [OF assms(4)] connected_gate [OF assms(3) that] assms(4) by (simp add: link_forward_eq)
  then show ?thesis unfolding SyLeave using assms(4)
    by (auto simp: Gateway_Disconnect_def Let_def intro: sent_same)
next
  case (SyServe g svc k reach)
  show ?thesis unfolding SyServe
    by (rule sent_same [OF assms(4)]) (auto simp: split_beta Let_def split: list.splits if_splits)
qed

section \<open>Runs\<close>

text \<open>Users are honest, and the gateways of the system, of all there could be, are connected while a
  service takes a packet.\<close>

fun admissible :: "('p, 'r, 'c) env \<Rightarrow> string set \<Rightarrow> 'c sys_event \<Rightarrow> bool" where
  "admissible E G (SyServe g svc k reach) \<longleftrightarrow> (\<forall>x \<in> G. reach x)"
| "admissible E G e \<longleftrightarrow> honest E G e"

fun all_reach :: "'c sys_event \<Rightarrow> 'c sys_event" where
  "all_reach (SyServe g svc k reach) = SyServe g svc k (\<lambda>_. True)"
| "all_reach e = e"

text \<open>Identifiers the encoding of a location has room for.\<close>

definition short_ids :: "'r sys \<Rightarrow> bool" where
  "short_ids s \<longleftrightarrow> (\<forall>i. sy_in s i \<noteq> None \<longrightarrow> length i < 65536)"

definition sound :: "('p, 'r, 'c) env \<Rightarrow> string set \<Rightarrow> 'r sys \<Rightarrow> bool" where
  "sound E G s \<longleftrightarrow> sys_inv E G s \<and> loc_inv E s \<and> sent_inv E G s"

lemma serves_all [simp]: "serves_from (all_reach e) = serves_from e"
  by (cases e) simp_all

lemma admissible_honest: "admissible E G e \<Longrightarrow> honest E G (all_reach e)"
  by (cases e) simp_all

lemma sound_init:
  assumes "\<forall>k. rd_Get (en_redis E) k r0 = Inl ErrRedisNil"
  shows "sound E G (sys_init r0)"
  using sys_inv_init [OF assms] assms
  by (simp add: sound_def loc_inv_def sent_inv_def) (simp add: sys_init_def rs_GetLocation_def)

lemma sound_do:
  assumes "env_ok E" "gates_ok G" "honest E G e" "sound E G s"
  shows "sound E G (sys_do E e s)"
  using assms(4) sys_do_inv [OF assms(1-3), of s] sent_do [OF assms(1,3)] sys_run_loc [OF assms(1,2), of "[e]" s] assms(3)
  by (simp add: sound_def)

lemma short_sessions:
  assumes "sys_inv E G s" "short_ids s"
  shows "\<forall>i sn. sy_in s i = Some sn \<longrightarrow> short_session sn"
proof (intro allI impI)
  fix i sn
  assume sn: "sy_in s i = Some sn"
  then have "session_inv E G s i sn" using assms(1) by (simp add: sys_inv_def)
  then obtain n where n: "s_ChannelId sn = i" "i = generateChannelID (s_GateId sn) (s_Account sn) n"
    unfolding session_inv_def by blast
  have len: "length i < 65536" using assms(2) sn unfolding short_ids_def by blast
  have "length (s_GateId sn) \<le> length i" unfolding n(2) by (simp add: generateChannelID_def)
  with len n(1) show "short_session sn" by (simp add: short_session_def)
qed

lemma sound_gates:
  assumes "sound E G s" "short_ids s"
  shows "\<forall>i own. rs_Get (en_codec E) (en_redis E) i (sy_store s) = Ret own \<longrightarrow> s_GateId own \<in> G"
    and "\<forall>a l. rs_GetLocation (en_redis E) a '''' (sy_store s) = Ret l \<longrightarrow> GateId l \<in> G"
proof -
  have inv: "sys_inv E G s" and loc: "loc_inv E s" using assms(1) by (simp_all add: sound_def)
  have gate: "s_GateId sn \<in> G" if "sy_in s i = Some sn" for i sn using that inv by (simp add: sys_inv_def session_inv_def)
  show "\<forall>i own. rs_Get (en_codec E) (en_redis E) i (sy_store s) = Ret own \<longrightarrow> s_GateId own \<in> G"
    using inv gate unfolding sys_inv_def stored_Some by blast
  show "\<forall>a l. rs_GetLocation (en_redis E) a '''' (sy_store s) = Ret l \<longrightarrow> GateId l \<in> G"
    using loc short_sessions [OF inv assms(2)] gate unfolding loc_inv_def by metis
qed

lemma service_reaches:
  assumes "env_ok E" "is_order (en_order E)" "sound E G s" "short_ids s" "\<forall>x \<in> G. reach x" "bs \<in> set (sy_up s (g, svc, k))"
  shows "session_service E reach g bs (sy_store s, d) = session_service E (\<lambda>_. True) g bs (sy_store s, d)"
proof -
  have "g \<in> G" "from_gate E g bs" using assms(3,6) by (force simp: sound_def sent_inv_def)+
  then show ?thesis using service_at [OF assms(1,2,5) _ _ sound_gates [OF assms(3,4)]] by (simp add: from_gate_def)
qed

lemma same_do:
  assumes "env_ok E" "is_order (en_order E)" "admissible E G e" "sound E G s" "short_ids s"
  shows "sys_do E e s = sys_do E (all_reach e) s"
proof (cases "\<exists>g svc k reach. e = SyServe g svc k reach")
  case True
  then obtain g svc k reach where e: "e = SyServe g svc k reach" by blast
  then have reach: "\<forall>x \<in> G. reach x" using assms(3) by simp
  show ?thesis
  proof (cases "sy_up s (g, svc, k)")
    case (Cons bs rest)
    then show ?thesis using service_reaches [OF assms(1,2,4,5) reach, of bs g svc k] by (simp add: e)
  qed (simp add: e)
next
  case False
  then show ?thesis by (cases e) auto
qed

lemma ids_grow:
  assumes "env_ok E" "admissible E G e" "short_ids (sys_do E e s)"
  shows "short_ids s"
proof -
  have "sy_in (sys_do E e s) i \<noteq> None" if "sy_in s i \<noteq> None" for i
  proof (cases e)
    case (SyAccept g addr conn up)
    with assms(2) have "honest E G (SyAccept g addr conn up)" by simp
    from accept_effect [OF assms(1) this, of s] that show ?thesis unfolding SyAccept
      by (elim disjE exE conjE) (simp_all add: logged_in_def enqueue_def)
  next
    case (SyReceive g i payload up)
    have "sy_in (sys_do E e s) = sy_in s"
      by (simp add: SyReceive Gateway_Receive_def Let_def link_forward_keeps split: sum.splits any_pkt.splits)
    with that show ?thesis by simp
  next
    case (SyLeave g i up)
    have "sy_in (sys_do E e s) = sy_in s"
      by (simp add: SyLeave Gateway_Disconnect_def Let_def link_forward_keeps)
    with that show ?thesis by simp
  next
    case (SyServe g svc k reach)
    have "sy_in (sys_do E e s) = sy_in s" by (simp add: SyServe split_beta Let_def split: list.split)
    with that show ?thesis by simp
  qed
  with assms(3) show ?thesis unfolding short_ids_def by blast
qed

lemma sys_run_append: "sys_run E (es @ fs) s = sys_run E fs (sys_run E es s)"
  by (induction es arbitrary: s) simp_all

text \<open>A run in which the services reach the system's gateways is the run in which they reach everything.\<close>

lemma same_run:
  assumes "env_ok E" "gates_ok G" "is_order (en_order E)" "\<forall>e \<in> set evs. admissible E G e" "sound E G s" "short_ids (sys_run E evs s)"
  shows "sys_run E evs s = sys_run E (map all_reach evs) s \<and> sound E G (sys_run E evs s)"
  using assms(4,6)
proof (induction evs rule: rev_induct)
  case (snoc e evs)
  let ?s = "sys_run E evs s"
  have e: "admissible E G e" and short: "short_ids ?s"
    using snoc.prems ids_grow [OF assms(1), of G e ?s] by (simp_all add: sys_run_append)
  have "\<forall>e \<in> set evs. admissible E G e" using snoc.prems(1) by simp
  note IH = snoc.IH [OF this short, THEN conjunct1] snoc.IH [OF this short, THEN conjunct2]
  note step = same_do [OF assms(1,3) e IH(2) short]
  have "sound E G (sys_do E (all_reach e) ?s)" by (rule sound_do [OF assms(1,2) admissible_honest [OF e] IH(2)])
  with step IH(1) show ?case by (simp add: sys_run_append)
qed (use assms(5) in simp)

lemma initial_run:
  assumes "env_ok E" "gates_ok G" "is_order (en_order E)" "\<forall>e \<in> set evs. admissible E G e"
    and "\<forall>k. rd_Get (en_redis E) k r0 = Inl ErrRedisNil" and "s = sys_run E evs (sys_init r0)" and "short_ids s"
  shows "s = sys_run E (map all_reach evs) (sys_init r0)" "sound E G s"
  using same_run [OF assms(1-4) sound_init [OF assms(5)]] assms(6,7) by blast+

lemma honest_runs: "\<forall>e \<in> set evs. admissible E G e \<Longrightarrow> \<forall>e \<in> set (map all_reach evs). honest E G e"
  by (auto intro: admissible_honest)

section \<open>The properties\<close>


lemma serves_keep:
  assumes "\<forall>e \<in> set later. \<exists>g svc k reach. e = SyServe g svc k reach \<and> P reach"
  shows "sy_in (sys_run E later s) = sy_in s"
  using assms
proof (induction later arbitrary: s)
  case (Cons e later)
  then obtain g svc k reach where "e = SyServe g svc k reach" by auto
  then have "sy_in (sys_do E e s) = sy_in s" by (simp add: split_beta Let_def split: list.split)
  with Cons show ?case by simp
qed simp



section \<open>An example\<close>

text \<open>Two gateways, and services that are connected to these and to no other.\<close>

abbreviation two_gates :: "string set" where
  "two_gates \<equiv> {''gate01'', ''gate02''}"

abbreviation the_two :: "string \<Rightarrow> bool" where
  "the_two \<equiv> \<lambda>g. g = ''gate01'' \<or> g = ''gate02''"

abbreviation ann_arrives :: "tcp_conn sys_event" where
  "ann_arrives \<equiv> SyAccept ''gate01'' ''1.2.3.4:99'' login_conn True"

definition ann_waits :: "(string \<Rightarrow> bytes option) sys" where
  "ann_waits = sys_run demo_sys_env [ann_arrives] (sys_init Map.empty)"

lemma ann_on_the_way:
  "\<exists>bs. sy_up ann_waits = (\<lambda>_. [])((''gate01'', ''chat'', 0) := [bs]) \<and> sy_on ann_waits (s_ChannelId ann_session)
     \<and> sy_in ann_waits = [s_ChannelId ann_session \<mapsto> ann_session]"
proof -
  obtain bs where w: "ann_waits = logged_in demo_sys_env ''gate01'' ann_session bs (sys_init Map.empty)" using demo_accepted by (auto simp: ann_waits_def)
  show ?thesis unfolding w
    by (intro exI [of _ bs]) (simp add: logged_in_def enqueue_def sys_init_def ann_session_fields demo_sys_env_fields session_lib_fields)
qed

lemma ann_short: "sy_in s = [s_ChannelId ann_session \<mapsto> ann_session] \<Longrightarrow> short_ids s"
  using ann_session_fields(4) by (simp add: short_ids_def short_session_def)

lemma demo_admissible: "\<forall>e \<in> set [ann_arrives]. admissible demo_sys_env two_gates e"
  using demo_honest by simp

lemma demo_facts:
  "is_order (en_order demo_sys_env)" "\<forall>k. rd_Get (en_redis demo_sys_env) k Map.empty = Inl ErrRedisNil"
  by (simp_all add: demo_sys_env_fields demo_redis_def) (simp add: demo_sys_env_def is_order_rev)




end
