(* ===== verification/Uplink.thy ===== *)
theory Uplink
  imports SessionTruth
begin

text \<open>
  Why the links of \<open>System\<close> are right: the handlers of a gateway over the container's \<open>Forward\<close> and its TCP
  clients behave as the same handlers over a queue for each service, and the read loop of the instance
  at the other end hands over exactly what is in the queue, in order.
\<close>

section \<open>Calls of a gateway's handlers\<close>

datatype 'c gate_call = GcAccept nat string 'c | GcReceive string bytes | GcLeave string

fun gate_do ::
    "('p, 'r, 'c) env \<Rightarrow> (string \<Rightarrow> 'p option \<Rightarrow> 's \<Rightarrow> unit go \<times> 's) \<Rightarrow> string \<Rightarrow> 'c gate_call \<Rightarrow> 's \<Rightarrow> string go \<times> 's" where
  "gate_do E forward g (GcAccept n addr conn) s =
     (let (r, _, s1) = Gateway_Accept (en_lib E) (en_read E) (en_write E) (en_token E) forward n addr g conn s in (r, s1))"
| "gate_do E forward g (GcReceive i payload) s =
     (let (r, s1) = Gateway_Receive (en_lib E) (\<lambda>_ s. (Ret (), s)) forward i payload s in (map_go (\<lambda>_. i) r, s1))"
| "gate_do E forward g (GcLeave i) s =
     (let (r, s1) = Gateway_Disconnect (en_lib E) forward i s in (map_go (\<lambda>_. i) r, s1))"

fun gate_calls ::
    "('p, 'r, 'c) env \<Rightarrow> (string \<Rightarrow> 'p option \<Rightarrow> 's \<Rightarrow> unit go \<times> 's) \<Rightarrow> string \<Rightarrow> 'c gate_call list \<Rightarrow> 's \<Rightarrow> string go list \<times> 's" where
  "gate_calls E forward g [] s = ([], s)"
| "gate_calls E forward g (c # cs) s =
     (let (r, s1) = gate_do E forward g c s; (rs, s2) = gate_calls E forward g cs s1 in (r # rs, s2))"

text \<open>Two calls end alike: both with the same value, both with an error, or both with a panic.\<close>

fun alike :: "'a go \<Rightarrow> 'a go \<Rightarrow> bool" where
  "alike (Ret a) (Ret b) \<longleftrightarrow> a = b"
| "alike (Fail _) (Fail _) \<longleftrightarrow> True"
| "alike (Panics _) (Panics _) \<longleftrightarrow> True"
| "alike _ _ \<longleftrightarrow> False"

text \<open>The contract between the handlers and the way a packet is forwarded.\<close>

locale same_forwarding =
  fixes f1 :: "string \<Rightarrow> 'p option \<Rightarrow> 's \<Rightarrow> unit go \<times> 's"
    and f2 :: "string \<Rightarrow> 'p option \<Rightarrow> 't \<Rightarrow> unit go \<times> 't"
    and tied :: "'s \<Rightarrow> 't \<Rightarrow> bool"
  assumes same: "tied s t \<Longrightarrow> alike (fst (f1 svc p s)) (fst (f2 svc p t)) \<and> tied (snd (f1 svc p s)) (snd (f2 svc p t))"
begin

lemma forward_cases:
  assumes "tied s t"
  obtains (ret) s1 t1 where "f1 svc p s = (Ret (), s1)" "f2 svc p t = (Ret (), t1)" "tied s1 t1"
  | (fail) e1 e2 s1 t1 where "f1 svc p s = (Fail e1, s1)" "f2 svc p t = (Fail e2, t1)" "tied s1 t1"
  | (panic) m1 m2 s1 t1 where "f1 svc p s = (Panics m1, s1)" "f2 svc p t = (Panics m2, t1)" "tied s1 t1"
proof -
  obtain r1 s1 r2 t1 where f: "f1 svc p s = (r1, s1)" "f2 svc p t = (r2, t1)" by (meson surj_pair)
  with same [OF assms, of svc p] have "alike r1 r2" "tied s1 t1" by simp_all
  with f that show thesis by (cases r1; cases r2) auto
qed

lemma gate_do_same:
  assumes "tied s t"
  shows "alike (fst (gate_do E f1 g c s)) (fst (gate_do E f2 g c t)) \<and> tied (snd (gate_do E f1 g c s)) (snd (gate_do E f2 g c t))"
proof (cases c)
  case (GcAccept n addr conn)
  obtain r c1 where r: "en_read E conn = (r, c1)" by fastforce
  show ?thesis
  proof (cases r)
    case (Ret fr)
    show ?thesis
    proof (cases "p_must_read (en_lib E) (GetPayload fr)")
      case (Inr req)
      let ?i = "\<lambda>a. generateChannelID g a n"
      let ?p = "\<lambda>a b. Some (p_write_body (en_lib E) (B_Session (no_session\<lparr>s_Account := a, s_ChannelId := ?i a, s_GateId := g,
        s_App := b, s_RemoteIP := getIP addr\<rparr>)) (p_set_channel (en_lib E) (?i a) req))"
      show ?thesis
      proof (cases "identity E conn")
        case None
        then show ?thesis using assms GcAccept r Ret Inr
          by (auto simp: Gateway_Accept_def identity_def Let_def split: sum.splits if_splits)
      next
        case (Some x)
        obtain a b where "x = (a, b)" by fastforce
        with Some obtain tok where "p_command (en_lib E) req = w_CommandLoginSignIn (en_lib E)"
          "p_read_login (en_lib E) req = Inr tok" "en_token E tok = Inr (a, b)"
          using r Ret Inr by (auto simp: identity_def split: sum.splits if_splits)
        with GcAccept r Ret Inr show ?thesis
          by (cases rule: forward_cases [OF assms, of "w_SNLogin (en_lib E)" "?p a b"]) (simp_all add: Gateway_Accept_def Let_def)
      qed
    qed (use assms GcAccept r Ret in \<open>simp add: Gateway_Accept_def\<close>)
  qed (use assms GcAccept r in \<open>simp_all add: Gateway_Accept_def\<close>)
next
  case (GcReceive i payload)
  show ?thesis
  proof (cases "p_read (en_lib E) payload")
    case (Inr q)
    show ?thesis
    proof (cases q)
      case (Logic_pkt p)
      let ?p = "p_set_channel (en_lib E) i p"
      show ?thesis using GcReceive Inr Logic_pkt
        by (cases rule: forward_cases [OF assms, of "p_service (en_lib E) ?p" "Some ?p"]) (simp_all add: Gateway_Receive_def Let_def ignore_error_def)
    qed (use assms GcReceive Inr in \<open>simp add: Gateway_Receive_def ignore_error_def\<close>)
  qed (use assms GcReceive in \<open>simp add: Gateway_Receive_def\<close>)
next
  case (GcLeave i)
  then show ?thesis
    by (cases rule: forward_cases [OF assms, of "w_SNLogin (en_lib E)" "Some (p_new (en_lib E) (w_CommandLoginSignOut (en_lib E)) (Some i))"])
       (simp_all add: Gateway_Disconnect_def ignore_error_def)
qed

lemma gate_calls_same:
  assumes "tied s t"
  shows "list_all2 alike (fst (gate_calls E f1 g cs s)) (fst (gate_calls E f2 g cs t))
    \<and> tied (snd (gate_calls E f1 g cs s)) (snd (gate_calls E f2 g cs t))"
  using assms
proof (induction cs arbitrary: s t)
  case (Cons c cs)
  with gate_do_same [OF Cons.prems, of E g c] show ?case by (simp add: split_beta Let_def)
qed simp

end

section \<open>TCP clients as queues\<close>

definition bin_enc :: "bytes \<Rightarrow> bytes" where
  "bin_enc bs = frame_enc \<lparr>OpCode = OpBinary, Payload = bs\<rparr>"

definition client_bytes :: "tcp_conn client \<Rightarrow> bytes" where
  "client_bytes cli = (case c_conn cli of None \<Rightarrow> [] | Some k \<Rightarrow> written (wr k))"

text \<open>
  A container \<open>ct\<close> reached from \<open>ct0\<close>, and the queues: each service that is up has one adult instance, to
  which what is in its queue has been written; the others have none.
\<close>

definition tied_to ::
    "('p, 'r, 'c) env \<Rightarrow> (tcp_conn clients \<Rightarrow> tcp_conn clients) \<Rightarrow> string \<Rightarrow> (string \<Rightarrow> bool) \<Rightarrow> tcp_conn container
       \<Rightarrow> tcp_conn container \<Rightarrow> 'r sys \<Rightarrow> bool" where
  "tied_to E \<pi> g up ct0 ct s \<longleftrightarrow>
     ct_ok ct \<and> is_order \<pi> \<and> (\<exists>srv. Srv ct = Some srv \<and> ServiceID srv = g) \<and> en_inst E = (\<lambda>_ _. 0)
     \<and> (\<forall>svc. if up svc
          then \<exists>cli0 cli. adults svc ct0 = {cli0} \<and> adults svc ct = {cli} \<and> healthy cli
             \<and> client_bytes cli = client_bytes cli0 @ concat (map bin_enc (sy_up s (g, svc, 0)))
          else adults svc ct = {})"

lemma wrote_fields [simp]:
  "c_id (wrote bs cli) = c_id cli" "c_meta (wrote bs cli) = c_meta cli" "c_state (wrote bs cli) = c_state cli"
  by (simp_all add: wrote_def)

lemma healthy_wrote: "healthy cli \<Longrightarrow> healthy (wrote bs cli)"
  by (auto simp: healthy_def wrote_def)

lemma client_bytes_wrote: "healthy cli \<Longrightarrow> client_bytes (wrote bs cli) = client_bytes cli @ bs"
  by (auto simp: healthy_def wrote_def client_bytes_def)

lemma adults_wrote:
  assumes "ct_ok ct" "adults svc ct = {cli}"
  shows "adults n (set_clients svc (cl_Add (wrote bs cli) (clients_of svc ct)) ct) = (if n = svc then {wrote bs cli} else adults n ct)"
proof -
  have k: "keyed c_id (clients_of svc ct)" using clients_of_up [OF assms(1)] by (simp add: clients_up_def)
  have cli: "cli \<in> adults svc ct" using assms(2) by simp
  have "x \<in> adults svc (set_clients svc (cl_Add (wrote bs cli) (clients_of svc ct)) ct) \<longleftrightarrow> x = wrote bs cli" for x
  proof (cases "c_id x = c_id cli")
    case True
    then have "cl_Get (c_id x) (cl_Add (wrote bs cli) (clients_of svc ct)) = Some (wrote bs cli)"
      by (simp add: cl.get_add [OF k])
    moreover have "meta_get (ct_metas ct) (c_meta cli) KeyServiceState = StateAdult" using cli by (simp add: adults_def)
    ultimately show ?thesis by (auto simp: adults_def)
  next
    case False
    then have "x \<in> adults svc (set_clients svc (cl_Add (wrote bs cli) (clients_of svc ct)) ct) \<longleftrightarrow> x \<in> adults svc ct"
      by (simp add: adults_def cl.get_add [OF k])
    moreover have "x \<noteq> cli" "x \<noteq> wrote bs cli" using False by auto
    ultimately show ?thesis using assms(2) by simp
  qed
  moreover have "adults n (set_clients svc (cl_Add (wrote bs cli) (clients_of svc ct)) ct) = adults n ct" if "n \<noteq> svc"
    using that by (simp add: adults_def)
  ultimately show ?thesis by auto
qed

lemma link_is_Forward:
  assumes "tied_to E \<pi> g up ct0 ct s"
  shows "alike (fst (Forward (en_lib E) tcp_ops \<pi> svc p ct)) (fst (link_forward E g (up svc) svc p s))
    \<and> tied_to E \<pi> g up ct0 (snd (Forward (en_lib E) tcp_ops \<pi> svc p ct)) (snd (link_forward E g (up svc) svc p s))"
proof -
  let ?L = "en_lib E"
  from assms obtain srv where t: "ct_ok ct" "is_order \<pi>" "Srv ct = Some srv" "ServiceID srv = g" "en_inst E = (\<lambda>_ _. 0)"
    by (auto simp: tied_to_def)
  have ad: "adults svc ct \<noteq> {} \<longleftrightarrow> up svc" using assms by (auto simp: tied_to_def split: if_splits)
  show ?thesis
  proof (cases "up svc \<and> forwardable ?L p")
    case False
    then have "\<not> (forwardable ?L p \<and> adults svc ct \<noteq> {})" using ad by blast
    with Forward_refuses [OF t(1,2)] obtain e where "Forward ?L tcp_ops \<pi> svc p ct = (Fail e, ct)" by blast
    moreover have "link_forward E g (up svc) svc p s = (Fail (ErrMsg ''no services found''), s)"
      using False by (auto simp: link_forward_def)
    ultimately show ?thesis using assms by simp
  next
    case True
    then obtain cli0 cli where cli: "adults svc ct0 = {cli0}" "adults svc ct = {cli}" "healthy cli"
      "client_bytes cli = client_bytes cli0 @ concat (map bin_enc (sy_up s (g, svc, 0)))"
      using assms unfolding tied_to_def by (meson)
    obtain q where q: "p = Some q" using True by (auto simp: forwardable_def)
    let ?bs = "p_marshal ?L (p_add_meta ?L (w_MetaDestServer ?L) g q)"
    let ?ct = "set_clients svc (cl_Add (wrote (bin_enc ?bs) cli) (clients_of svc ct)) ct"
    have ne: "adults svc ct \<noteq> {}" using cli(2) by simp
    have f: "Forward ?L tcp_ops \<pi> svc p ct = (Ret (), ?ct)"
      using Forward_sends [OF t(1-3) conjunct2 [OF True] ne, of tcp_ops] cli(2,3) t(4)
      by (simp add: Let_def q healthy_Send bin_enc_def)
    have l: "link_forward E g (up svc) svc p s = (Ret (), enqueue (g, svc, 0) ?bs s)"
      using True t(5) by (simp add: q link_forward_eq)
    have "ct_ok ?ct" using Forward_ok [OF t(1,2) tcp_ops_safe, of ?L svc p] by (simp add: f)
    moreover have "if up n
        then \<exists>cli0 cli. adults n ct0 = {cli0} \<and> adults n ?ct = {cli} \<and> healthy cli
          \<and> client_bytes cli = client_bytes cli0 @ concat (map bin_enc (sy_up (enqueue (g, svc, 0) ?bs s) (g, n, 0)))
        else adults n ?ct = {}" for n
    proof (cases "n = svc")
      case True
      then show ?thesis using cli ad ne
        by (simp add: adults_wrote [OF t(1) cli(2)] healthy_wrote client_bytes_wrote enqueue_def)
    next
      case False
      have "if up n
        then \<exists>cli0 cli. adults n ct0 = {cli0} \<and> adults n ct = {cli} \<and> healthy cli
          \<and> client_bytes cli = client_bytes cli0 @ concat (map bin_enc (sy_up s (g, n, 0)))
        else adults n ct = {}" using assms unfolding tied_to_def by blast
      then show ?thesis using False by (cases "up n") (auto simp: adults_wrote [OF t(1) cli(2)] enqueue_def)
    qed
    moreover have "\<exists>srv. Srv ?ct = Some srv \<and> ServiceID srv = g" using t by simp
    ultimately have "tied_to E \<pi> g up ct0 ?ct (enqueue (g, svc, 0) ?bs s)" unfolding tied_to_def using t(2,5) by blast
    then show ?thesis unfolding f l by simp
  qed
qed

interpretation up: same_forwarding "Forward (en_lib E) tcp_ops \<pi>" "\<lambda>svc. link_forward E g (up svc) svc" "tied_to E \<pi> g up ct0"
  for E :: "('p, 'r, 'c) env" and \<pi> g up ct0
  by unfold_locales (rule link_is_Forward)

section \<open>The property\<close>

lemma bins_deliver:
  "deliveries (map (\<lambda>bs. \<lparr>OpCode = OpBinary, Payload = bs\<rparr>) xs) = filter (\<lambda>bs. bs \<noteq> []) xs"
  "pongs (map (\<lambda>bs. \<lparr>OpCode = OpBinary, Payload = bs\<rparr>) xs) = []" "loop_rest (map (\<lambda>bs. \<lparr>OpCode = OpBinary, Payload = bs\<rparr>) xs) = []"
  "loop_error (map (\<lambda>bs. \<lparr>OpCode = OpBinary, Payload = bs\<rparr>) xs) e = e"
proof -
  let ?f = "\<lambda>bs. \<lparr>OpCode = OpBinary, Payload = bs\<rparr>"
  have all: "before_close (map ?f xs) = map ?f xs" by (induction xs) (simp_all add: before_close_def)
  show "deliveries (map ?f xs) = filter (\<lambda>bs. bs \<noteq> []) xs"
    unfolding deliveries_def all by (induction xs) simp_all
  show "pongs (map ?f xs) = []" unfolding pongs_def all by (induction xs) simp_all
  show "loop_rest (map ?f xs) = []" by (induction xs) (simp_all add: loop_rest_def)
  show "loop_error (map ?f xs) e = e" by (simp add: loop_error_def)
qed

text \<open>C11: Whatever calls of its handlers a gateway makes (logins, packets and ends of connections, in any
  order), over the TCP clients of its container with one adult instance for each service that is up
  they end as they do over a queue for each service; and the read loop of the instance, on the bytes
  the gateway has added to the connection, hands over exactly the packets in that queue, each once and
  in the order the calls were made.\<close>

theorem uplink_fifo:
  assumes "ct_ok ct" and "is_order \<pi>" and "Srv ct = Some srv" and "ServiceID srv = g" and "en_inst E = (\<lambda>_ _. 0)"
    and "\<forall>svc. if up svc then \<exists>cli. adults svc ct = {cli} \<and> healthy cli else adults svc ct = {}"
    and "gate_calls E (Forward (en_lib E) tcp_ops \<pi>) g cs ct = (rs, ct')"
    and "gate_calls E (\<lambda>svc. link_forward E g (up svc) svc) g cs (sys_init r0) = (rs', s')"
    and "up svc" and "adults svc ct = {cli}"
    and "\<forall>bs \<in> set (sy_up s' (g, svc, 0)). length bs < 2 ^ 32"
  shows "list_all2 alike rs rs'
    \<and> (\<exists>cli' sent. adults svc ct' = {cli'} \<and> client_bytes cli' = client_bytes cli @ sent
        \<and> (\<forall>peer. room (wr peer) = None \<and> avail (rd peer) = sent \<longrightarrow>
            Readloop tcp_ReadFrame tcp_WriteFrame peer [] =
              Some (Fail (rerr (rd peer)), peer\<lparr>rd := (rd peer)\<lparr>avail := []\<rparr>\<rparr>, filter (\<lambda>bs. bs \<noteq> []) (sy_up s' (g, svc, 0)))))"
proof -
  let ?f = "\<lambda>bs. \<lparr>OpCode = OpBinary, Payload = bs\<rparr>"
  let ?sent = "concat (map bin_enc (sy_up s' (g, svc, 0)))"
  have "tied_to E \<pi> g up ct ct (sys_init r0)"
    using assms(1-6) unfolding tied_to_def by (auto simp: sys_init_def) metis
  from up.gate_calls_same [OF this, of E g cs] assms(7,8)
  have all: "list_all2 alike rs rs'" and tied: "tied_to E \<pi> g up ct ct' s'" by simp_all
  from tied assms(9,10) obtain cli' where cli': "adults svc ct' = {cli'}" "client_bytes cli' = client_bytes cli @ ?sent"
    unfolding tied_to_def by (metis singleton_inject)
  have "Readloop tcp_ReadFrame tcp_WriteFrame peer [] =
      Some (Fail (rerr (rd peer)), peer\<lparr>rd := (rd peer)\<lparr>avail := []\<rparr>\<rparr>, filter (\<lambda>bs. bs \<noteq> []) (sy_up s' (g, svc, 0)))"
    if "room (wr peer) = None" "avail (rd peer) = ?sent" for peer
  proof -
    have av: "avail (rd peer) = concat (map frame_enc (map ?f (sy_up s' (g, svc, 0))))"
      using that(2) by (simp add: bin_enc_def [abs_def] comp_def)
    have "\<forall>x \<in> set (map ?f (sy_up s' (g, svc, 0))). frame_ok x" using assms(11) by (simp add: frame_ok_def)
    from Readloop_frames [OF this that(1) av, of "[]"] show ?thesis unfolding bins_deliver by simp
  qed
  with all cli' show ?thesis by blast
qed

lemma demo_ct_others: "svc \<noteq> ''chat'' \<Longrightarrow> adults svc demo_ct = {}"
  by (simp add: adults_def demo_ct_def clients_of_def cl.get_empty Default_def)

lemma enc_str_length: "length (enc_str s) = 2 * length s + 1"
  by (induction s) (simp_all add: enc_str_def)

definition demo_leave :: "string \<Rightarrow> bytes" where
  "demo_leave i = demo_enc \<lparr>d_command = ''login.signout'', d_channel = i, d_metas = [(''dest.server'', ''gate01'')]\<rparr>"

lemma demo_leave_queued:
  "i \<noteq> '''' \<Longrightarrow> gate_do demo_sys_env (\<lambda>svc. link_forward demo_sys_env ''gate01'' (svc = ''chat'') svc) ''gate01'' (GcLeave i) s
     = (Ret i, enqueue (''gate01'', ''chat'', 0) (demo_leave i) s)"
proof -
  let ?p = "\<lparr>d_command = ''login.signout'', d_channel = i, d_metas = []\<rparr>"
  have E: "en_lib demo_sys_env = session_lib" "en_inst demo_sys_env = (\<lambda>_ _. 0)" by (simp_all add: demo_sys_env_def)
  have p: "p_new session_lib (w_CommandLoginSignOut session_lib) (Some i) = ?p"
    "p_marshal session_lib (p_add_meta session_lib ''dest.server'' ''gate01'' ?p) = demo_leave i"
    by (simp_all add: session_lib_def demo_lib_def demo_leave_def)
  assume "i \<noteq> ''''"
  then have f: "forwardable session_lib (Some ?p)" by (simp add: forwardable_def session_lib_fields)
  show ?thesis by (simp add: Gateway_Disconnect_def E p f link_forward_eq session_lib_fields(7,9) p(2))
qed

theorem uplink_fifo_witness:
  "\<exists>ct' cli' sent. snd (gate_calls demo_sys_env (Forward session_lib tcp_ops rev) ''gate01'' [GcLeave ''ch1'', GcLeave ''ch2''] demo_ct) = ct'
     \<and> adults ''chat'' ct' = {cli'} \<and> client_bytes cli' = client_bytes (demo_client ''c1'' 0) @ sent
     \<and> Readloop tcp_ReadFrame tcp_WriteFrame \<lparr>rd = \<lparr>avail = sent, rerr = ErrEOF\<rparr>, wr = buffer\<rparr> []
        = Some (Fail ErrEOF, \<lparr>rd = \<lparr>avail = [], rerr = ErrEOF\<rparr>, wr = buffer\<rparr>, [demo_leave ''ch1'', demo_leave ''ch2''])"
proof -
  let ?cs = "[GcLeave ''ch1'', GcLeave ''ch2''] :: tcp_conn gate_call list" let ?up = "\<lambda>svc. svc = ''chat''"
  have E: "en_lib demo_sys_env = session_lib" by (simp add: demo_sys_env_def)
  have srv: "Srv demo_ct = Some demo_gate" "ServiceID demo_gate = ''gate01''"
    by (simp_all add: demo_ct_def demo_gate_def NewEntry_def ServiceID_def)
  have inst: "en_inst demo_sys_env = (\<lambda>_ _. 0)" by (simp add: demo_sys_env_def)
  have ad: "\<forall>svc. if ?up svc then \<exists>cli. adults svc demo_ct = {cli} \<and> healthy cli else adults svc demo_ct = {}"
    by (simp add: demo_ct_adults demo_ct_others) (simp add: healthy_def demo_client_def demo_conn_def buffer_def)
  obtain rs ct' where c: "gate_calls demo_sys_env (Forward (en_lib demo_sys_env) tcp_ops rev) ''gate01'' ?cs demo_ct = (rs, ct')" by fastforce
  obtain rs' s' where l: "gate_calls demo_sys_env (\<lambda>svc. link_forward demo_sys_env ''gate01'' (?up svc) svc) ''gate01'' ?cs (sys_init Map.empty) = (rs', s')" by fastforce
  have q: "sy_up s' (''gate01'', ''chat'', 0) = [demo_leave ''ch1'', demo_leave ''ch2'']"
    using arg_cong [OF l, of snd] by (auto simp add: demo_leave_queued enqueue_def sys_init_def simp del: gate_do.simps)
  have "\<forall>bs \<in> set (sy_up s' (''gate01'', ''chat'', 0)). length bs < 2 ^ 32"
    by (simp add: q demo_leave_def demo_enc_def enc_str_length)
  from uplink_fifo [OF demo_ct_ok is_order_rev srv inst ad c l refl demo_ct_adults this]
  obtain cli' sent where r: "adults ''chat'' ct' = {cli'}" "client_bytes cli' = client_bytes (demo_client ''c1'' 0) @ sent"
    "\<forall>peer. room (wr peer) = None \<and> avail (rd peer) = sent \<longrightarrow>
        Readloop tcp_ReadFrame tcp_WriteFrame peer [] =
          Some (Fail (rerr (rd peer)), peer\<lparr>rd := (rd peer)\<lparr>avail := []\<rparr>\<rparr>, filter (\<lambda>bs. bs \<noteq> []) (sy_up s' (''gate01'', ''chat'', 0)))"
    by blast
  have ne: "demo_leave i \<noteq> []" for i by (simp add: demo_leave_def demo_enc_nonempty)
  from r(3) [THEN spec, of "\<lparr>rd = \<lparr>avail = sent, rerr = ErrEOF\<rparr>, wr = buffer\<rparr>"] q ne
  have "Readloop tcp_ReadFrame tcp_WriteFrame \<lparr>rd = \<lparr>avail = sent, rerr = ErrEOF\<rparr>, wr = buffer\<rparr> []
        = Some (Fail ErrEOF, \<lparr>rd = \<lparr>avail = [], rerr = ErrEOF\<rparr>, wr = buffer\<rparr>, [demo_leave ''ch1'', demo_leave ''ch2''])"
    by (simp add: buffer_def)
  with r(1,2) c show ?thesis unfolding E by auto
qed

end
