(* ===== verification/Downward.thy ===== *)
theory Downward
  imports Uplink
begin

text \<open>
  The other direction: what the services of the machine of \<open>System\<close> send down is a list of packets, and
  the code pushes them through the TCP server of the service (\<open>container.Push\<close>, \<open>tcp/server.go\<close>) to the
  connections of the gateways.  The handlers cannot tell the two apart, and what a gateway's read loop
  gets from its connection are its packets of the list in order.
\<close>

section \<open>Handlers over two ways to push\<close>

definition agree :: "('s \<Rightarrow> 't \<Rightarrow> bool) \<Rightarrow> 'a \<times> 's \<Rightarrow> 'a \<times> 't \<Rightarrow> bool" where
  "agree tied x y \<longleftrightarrow> fst x = fst y \<and> tied (snd x) (snd y)"

lemma agree_pair [simp]: "agree tied (a, s) (b, t) \<longleftrightarrow> a = b \<and> tied s t"
  by (simp add: agree_def)

lemma agreeE:
  assumes "agree tied x y"
  obtains a s t where "x = (a, s)" "y = (a, t)" "tied s t"
  using assms by (cases x; cases y) simp

lemma agree_ignore: "agree tied x y \<Longrightarrow> agree tied (ignore_error x) (ignore_error y)"
  by (erule agreeE) (simp add: ignore_error_def split: go.split)

definition handlers_agree :: "('s \<Rightarrow> 't \<Rightarrow> bool) \<Rightarrow> ('p, 's) handler \<Rightarrow> ('p, 't) handler \<Rightarrow> bool" where
  "handlers_agree tied h1 h2 \<longleftrightarrow> (\<forall>c own s t. tied s t \<longrightarrow> cx_session c = Some own \<longrightarrow> agree tied (h1 c s) (h2 c t))"

text \<open>What the handlers use, twice: a push, a session store and a message store that answer alike.\<close>

locale same_service =
  fixes push1 :: "string \<Rightarrow> bytes \<Rightarrow> 's \<Rightarrow> unit go \<times> 's" and push2 :: "string \<Rightarrow> bytes \<Rightarrow> 't \<Rightarrow> unit go \<times> 't"
    and store1 :: "'s session_store" and store2 :: "'t session_store"
    and ins1 :: "string \<Rightarrow> insert_req \<Rightarrow> 's \<Rightarrow> (error + int) \<times> 's" and ins2 :: "string \<Rightarrow> insert_req \<Rightarrow> 't \<Rightarrow> (error + int) \<times> 't"
    and tied :: "'s \<Rightarrow> 't \<Rightarrow> bool"
  assumes same_push: "tied s t \<Longrightarrow> agree tied (push1 g bs s) (push2 g bs t)"
    and same_add: "tied s t \<Longrightarrow> agree tied (ss_Add store1 sn s) (ss_Add store2 sn t)"
    and same_delete: "tied s t \<Longrightarrow> agree tied (ss_Delete store1 a i s) (ss_Delete store2 a i t)"
    and same_get: "tied s t \<Longrightarrow> ss_Get store1 i s = ss_Get store2 i t"
    and same_loc: "tied s t \<Longrightarrow> ss_GetLocation store1 a d s = ss_GetLocation store2 a d t"
    and same_insert: "tied s t \<Longrightarrow> agree tied (ins1 app req s) (ins2 app req t)"
begin

lemma Resp_same:
  "tied s t \<Longrightarrow> cx_session c = Some own \<Longrightarrow>
    agree tied (Resp L (ServerDispatcher_Push L push1) c st b s) (Resp L (ServerDispatcher_Push L push2) c st b t)"
  using same_push by (simp add: Resp_def Session_def Let_def ServerDispatcher_Push_eq agree_def)

lemma RespWithError_same:
  "tied s t \<Longrightarrow> cx_session c = Some own \<Longrightarrow>
    agree tied (RespWithError L (ServerDispatcher_Push L push1) c st e s) (RespWithError L (ServerDispatcher_Push L push2) c st e t)"
  by (simp add: RespWithError_def Resp_same)

lemma push_groups_same:
  "tied s t \<Longrightarrow> agree tied (push_groups (ServerDispatcher_Push L push1) gs p s) (push_groups (ServerDispatcher_Push L push2) gs p t)"
proof (induction gs arbitrary: p s t)
  case (Cons x gs)
  obtain g ids where x: "x = (g, ids)" by fastforce
  from same_push [OF Cons.prems, of g "p_marshal L (route_metas L g ids p)"]
  obtain a s1 t1 where "push1 g (p_marshal L (route_metas L g ids p)) s = (a, s1)"
    "push2 g (p_marshal L (route_metas L g ids p)) t = (a, t1)" "tied s1 t1" by (rule agreeE)
  with Cons.IH show ?case by (cases a) (simp_all add: x ServerDispatcher_Push_eq)
qed simp

lemma Dispatch_same:
  "tied s t \<Longrightarrow> cx_session c = Some own \<Longrightarrow>
    agree tied (Dispatch L (ServerDispatcher_Push L push1) \<pi> c b ls s) (Dispatch L (ServerDispatcher_Push L push2) \<pi> c b ls t)"
  by (simp add: Dispatch_def Session_def Let_def push_groups_same)

lemma talk_same:
  assumes "tied s t" "cx_session c = Some own"
  shows "agree tied (talk L (ServerDispatcher_Push L push1) \<pi> ins1 now req loc c s) (talk L (ServerDispatcher_Push L push2) \<pi> ins2 now req loc c t)"
proof -
  let ?rq = "\<lparr>rq_Sender = s_Account own, rq_Dest = p_dest L (cx_request c), rq_SendTime = now, rq_Message = req\<rparr>"
  from same_insert [OF assms(1), of "s_App own" ?rq] obtain x s1 t1
    where i: "ins1 (s_App own) ?rq s = (x, s1)" "ins2 (s_App own) ?rq t = (x, t1)" "tied s1 t1" by (rule agreeE)
  show ?thesis
  proof (cases x)
    case (Inl e)
    then show ?thesis using i assms(2) by (simp add: talk_def Session_def agree_ignore RespWithError_same)
  next
    case (Inr m)
    let ?d1 = "case loc of None \<Rightarrow> (Ret (), s1)
      | Some l \<Rightarrow> Dispatch L (ServerDispatcher_Push L push1) \<pi> c (B_MessagePush m req (s_Account own) now) [l] s1"
    let ?d2 = "case loc of None \<Rightarrow> (Ret (), t1)
      | Some l \<Rightarrow> Dispatch L (ServerDispatcher_Push L push2) \<pi> c (B_MessagePush m req (s_Account own) now) [l] t1"
    have "agree tied ?d1 ?d2" using i(3) assms(2) by (simp add: Dispatch_same split: option.split)
    then obtain y s2 t2 where "?d1 = (y, s2)" "?d2 = (y, t2)" "tied s2 t2" by (rule agreeE)
    then show ?thesis using i assms(2) Inr
      by (cases y) (simp_all add: talk_def Session_def agree_ignore RespWithError_same Resp_same)
  qed
qed

lemma DoUserTalk_same:
  "handlers_agree tied (DoUserTalk L (ServerDispatcher_Push L push1) \<pi> store1 ins1 now) (DoUserTalk L (ServerDispatcher_Push L push2) \<pi> store2 ins2 now)"
  unfolding handlers_agree_def
proof (intro allI impI)
  fix c :: "'a ctx" and own s t
  assume t: "tied s t" "cx_session c = Some own"
  show "agree tied (DoUserTalk L (ServerDispatcher_Push L push1) \<pi> store1 ins1 now c s) (DoUserTalk L (ServerDispatcher_Push L push2) \<pi> store2 ins2 now c t)"
    using t same_loc [OF t(1), of "p_dest L (cx_request c)" "''''"]
    by (simp add: DoUserTalk_def agree_ignore RespWithError_same talk_same split: sum.split go.split)
qed

lemma DoSysLogout_same:
  "handlers_agree tied (DoSysLogout L (ServerDispatcher_Push L push1) store1) (DoSysLogout L (ServerDispatcher_Push L push2) store2)"
  unfolding handlers_agree_def
proof (intro allI impI)
  fix c :: "'a ctx" and own s t
  assume t: "tied s t" "cx_session c = Some own"
  from same_delete [OF t(1), of "s_Account own" "s_ChannelId own"] obtain a s1 t1
    where "ss_Delete store1 (s_Account own) (s_ChannelId own) s = (a, s1)" "ss_Delete store2 (s_Account own) (s_ChannelId own) t = (a, t1)"
      "tied s1 t1" by (rule agreeE)
  then show "agree tied (DoSysLogout L (ServerDispatcher_Push L push1) store1 c s) (DoSysLogout L (ServerDispatcher_Push L push2) store2 c t)"
    using t by (cases a) (simp_all add: DoSysLogout_def Session_def agree_ignore RespWithError_same Resp_same)
qed

lemma DoSysLogin_same:
  "handlers_agree tied (DoSysLogin L (ServerDispatcher_Push L push1) \<pi> store1) (DoSysLogin L (ServerDispatcher_Push L push2) \<pi> store2)"
  unfolding handlers_agree_def
proof (intro allI impI)
  fix c :: "'a ctx" and own s t
  assume t: "tied s t" "cx_session c = Some own"
  show "agree tied (DoSysLogin L (ServerDispatcher_Push L push1) \<pi> store1 c s) (DoSysLogin L (ServerDispatcher_Push L push2) \<pi> store2 c t)"
  proof (cases "p_read_session L (cx_request c)")
    case (Inr sn)
    let ?rest1 = "\<lambda>kicked. go_bind kicked (\<lambda>_ s1. case ss_Add store1 sn s1 of
        (Panics m, s2) \<Rightarrow> (Panics m, s2)
      | (Fail err, s2) \<Rightarrow> ignore_error (RespWithError L (ServerDispatcher_Push L push1) c St_SystemException err s2)
      | (Ret _, s2) \<Rightarrow> ignore_error (Resp L (ServerDispatcher_Push L push1) c St_Success (B_LoginResp (s_ChannelId sn)) s2))"
    let ?rest2 = "\<lambda>kicked. go_bind kicked (\<lambda>_ s1. case ss_Add store2 sn s1 of
        (Panics m, s2) \<Rightarrow> (Panics m, s2)
      | (Fail err, s2) \<Rightarrow> ignore_error (RespWithError L (ServerDispatcher_Push L push2) c St_SystemException err s2)
      | (Ret _, s2) \<Rightarrow> ignore_error (Resp L (ServerDispatcher_Push L push2) c St_Success (B_LoginResp (s_ChannelId sn)) s2))"
    have rest: "agree tied (?rest1 x) (?rest2 y)" if kicked: "agree tied x y" for x :: "unit go \<times> 's" and y
    proof -
      from kicked obtain a s1 t1 where k: "x = (a, s1)" "y = (a, t1)" "tied s1 t1" by (rule agreeE)
      from same_add [OF k(3), of sn] obtain b s2 t2
        where "ss_Add store1 sn s1 = (b, s2)" "ss_Add store2 sn t1 = (b, t2)" "tied s2 t2" by (rule agreeE)
      then show ?thesis using k t(2) by (cases a; cases b) (simp_all add: agree_ignore RespWithError_same Resp_same)
    qed
    have "agree tied (Ret (), s) (Ret (), t)" using t(1) by simp
    from rest [OF this] rest [OF agree_ignore [OF Dispatch_same [OF t]]] same_loc [OF t(1), of "s_Account sn" "''''"] Inr t
    show ?thesis
      by (cases "ss_GetLocation store2 (s_Account sn) '''' t")
         (simp_all add: DoSysLogin_def Let_def agree_ignore RespWithError_same)
  qed (use t in \<open>simp add: DoSysLogin_def agree_ignore RespWithError_same\<close>)
qed

text \<open>The same chain of handlers under every command.\<close>

lemma Serve_same:
  assumes "\<forall>cmd. rel_option (list_all2 (rel_option (handlers_agree tied))) (t1 cmd) (t2 cmd)" and "tied s t"
  shows "agree tied (Serve L t1 True True p (Some own) s) (Serve L t2 True True p (Some own) t)"
proof -
  let ?c = "\<lparr>cx_request = p, cx_session = Some own\<rparr>"
  from assms(1) have "rel_option (list_all2 (rel_option (handlers_agree tied))) (t1 (p_command L p)) (t2 (p_command L p))" by blast
  then show ?thesis
  proof cases
    case None
    then show ?thesis using assms(2) by (simp add: Serve_def serveContext_def GetPath_def Next_def)
  next
    case (Some hs1 hs2)
    from Some(3) show ?thesis
    proof cases
      case (Cons h1 hs1' h2 hs2')
      from Cons(3) show ?thesis
        by cases (use Some Cons assms(2) in \<open>simp_all add: Serve_def serveContext_def GetPath_def Next_def handlers_agree_def\<close>)
    qed (use Some assms(2) in \<open>simp add: Serve_def serveContext_def GetPath_def Next_def\<close>)
  qed
qed

lemma ServHandler_Receive_same:
  assumes "\<forall>cmd. rel_option (list_all2 (rel_option (handlers_agree tied))) (t1 cmd) (t2 cmd)" and "tied s t"
  shows "agree tied (ServHandler_Receive L t1 store1 (push1 g) bs s) (ServHandler_Receive L t2 store2 (push2 g) bs t)"
proof (cases "p_must_read L bs")
  case (Inr p)
  have err: "agree tied (RespErr L (push1 g) p st s) (RespErr L (push2 g) p st t)" for st
    by (simp add: RespErr_def same_push [OF assms(2)])
  show ?thesis
    using Inr assms(2) err Serve_same [OF assms] same_get [OF assms(2), of "p_channel L p"]
    by (cases "ss_Get store2 (p_channel L p) t")
       (auto simp: ServHandler_Receive_def intro: agree_ignore split: option.split meta_val.split)
qed (simp add: ServHandler_Receive_def assms(2))

lemma routes_same:
  "rel_option (list_all2 (rel_option (handlers_agree tied)))
     (Handle talkcmd [Some (DoUserTalk L (ServerDispatcher_Push L push1) \<pi> store1 ins1 now)]
        (server_routes L (ServerDispatcher_Push L push1) \<pi> store1) cmd)
     (Handle talkcmd [Some (DoUserTalk L (ServerDispatcher_Push L push2) \<pi> store2 ins2 now)]
        (server_routes L (ServerDispatcher_Push L push2) \<pi> store2) cmd)"
  by (simp add: Handle_def server_routes_def NewTree_def DoUserTalk_same DoSysLogin_same DoSysLogout_same)

end

section \<open>A server for a list\<close>

text \<open>The message store works on the session store's part of the state.\<close>

definition lift_insert ::
    "(string \<Rightarrow> insert_req \<Rightarrow> 'r \<Rightarrow> (error + int) \<times> 'r) \<Rightarrow> string \<Rightarrow> insert_req \<Rightarrow> 'r \<times> 'x \<Rightarrow> (error + int) \<times> 'r \<times> 'x" where
  "lift_insert ins app req s = (let (a, r) = ins app req (fst s) in (a, (r, snd s)))"

text \<open>A push of the service's own server; the agent a packet came over is the channel that is registered for
  its gateway, so that its \<open>Push\<close> is the same.\<close>

definition live_link :: "string \<Rightarrow> bytes \<Rightarrow> 'r \<times> tcp_conn server \<Rightarrow> unit go \<times> 'r \<times> tcp_conn server" where
  "live_link g bs s = (let (x, sv) = tcp_srv_Push tcp_WriteFrame g bs (snd s) in (x, (fst s, sv)))"

definition live_routes ::
    "('p, 'r, 'c) env \<Rightarrow> (string \<Rightarrow> insert_req \<Rightarrow> 'r \<Rightarrow> (error + int) \<times> 'r) \<Rightarrow> ('p, 'r \<times> tcp_conn server) func_tree" where
  "live_routes E ins =
     (let L = en_lib E; push = ServerDispatcher_Push L live_link; store = redis_store (en_codec E) (en_redis E)
      in Handle (en_talk E) [Some (DoUserTalk L push (en_order E) store (lift_insert ins) (en_now E))]
           (server_routes L push (en_order E) store))"

text \<open>The packets of a list that are for one gateway.\<close>

definition mail :: "string \<Rightarrow> (string \<times> bytes) list \<Rightarrow> bytes list" where
  "mail g down = map snd (filter (\<lambda>m. fst m = g) down)"

definition posted :: "tcp_conn server \<Rightarrow> 'r \<times> (string \<times> bytes) list \<Rightarrow> 'r \<times> tcp_conn server \<Rightarrow> bool" where
  "posted t0 s t \<longleftrightarrow> fst s = fst t \<and> srv_inv (snd t) \<and> (\<forall>g. srv_target g (snd t) = srv_target g t0)
     \<and> (\<forall>k. room (wr (conn_of (snd t) k)) = None)
     \<and> (\<forall>g k. srv_target g t0 = Some k \<longrightarrow>
          written (wr (conn_of (snd t) k)) = written (wr (conn_of t0 k)) @ concat (map bin_enc (mail g (snd s))))"

lemma posted_push:
  assumes "posted t0 s t"
  shows "agree (posted t0) (link_push (\<lambda>g. srv_target g t0 \<noteq> None) g bs s) (live_link g bs t)"
proof (cases "srv_target g t0")
  case None
  then have "srv_target g (snd t) = None" using assms by (simp add: posted_def)
  then have "cm_Get g (sv_map (snd t)) = None" by (simp add: srv_target_def)
  with None show ?thesis using assms by (simp add: link_push_def live_link_def tcp_srv_Push_def)
next
  case (Some k)
  then have k: "srv_inv (snd t)" "srv_target g (snd t) = Some k" "room (wr (conn_of (snd t) k)) = None"
    using assms by (simp_all add: posted_def)
  define t' where "t' = snd (tcp_srv_Push tcp_WriteFrame g bs (snd t))"
  note hit = tcps.push_hit [OF k(1,2), of tcp_WriteFrame bs, folded t'_def]
  let ?new = "if bs = [] then [] else bin_enc bs"
  have give: "deliver tcp_WriteFrame bs (conn_of (snd t) k) = (Ret (), gave ?new (conn_of (snd t) k))"
    using tcp_deliver [OF k(3), of bs] by (simp add: gave_def bin_enc_def deliver_def)
  have live: "live_link g bs t = (Ret (), (fst t, t'))" using hit give by (simp add: live_link_def t'_def split_beta)
  have link: "link_push (\<lambda>g. srv_target g t0 \<noteq> None) g bs s = (Ret (), (fst s, if bs = [] then snd s else snd s @ [(g, bs)]))"
    using Some by (simp add: link_push_def)
  have conns: "conn_of t' = (conn_of (snd t))(k := gave ?new (conn_of (snd t) k))" using hit give by simp
  have sent: "written (wr (conn_of t' k')) = written (wr (conn_of t0 k')) @ concat (map bin_enc (mail g' (if bs = [] then snd s else snd s @ [(g, bs)])))"
    if "srv_target g' t0 = Some k'" for g' k'
  proof -
    have old: "written (wr (conn_of (snd t) k')) = written (wr (conn_of t0 k')) @ concat (map bin_enc (mail g' (snd s)))"
      using that assms unfolding posted_def by blast
    have "srv_target g' (snd t) = Some k'" using that assms unfolding posted_def by metis
    from srv_invD(1) [OF k(1) this] srv_invD(1) [OF k(1,2)] Some that have "g' = g \<longleftrightarrow> k' = k" by auto
    with old show ?thesis by (cases "k' = k") (auto simp: conns mail_def)
  qed
  have "room (wr (conn_of t' k')) = None" for k' using assms unfolding posted_def by (simp add: conns)
  then have "posted t0 (fst s, if bs = [] then snd s else snd s @ [(g, bs)]) (fst t, t')"
    using assms hit sent unfolding posted_def by simp
  then show ?thesis unfolding live link by simp
qed

interpretation live: same_service "link_push (\<lambda>g. srv_target g t0 \<noteq> None)" live_link "redis_store C R" "redis_store C R"
    "lift_insert ins" "lift_insert ins" "posted t0"
  for t0 :: "tcp_conn server" and C and R :: "'r redis" and ins
proof
  fix s :: "'r \<times> (string \<times> bytes) list" and t
  assume tied: "posted t0 s t"
  then have f: "fst s = fst t" by (simp add: posted_def)
  have keep: "posted t0 (r, snd s) (r, snd t)" for r using tied by (simp add: posted_def)
  show "agree (posted t0) (link_push (\<lambda>g. srv_target g t0 \<noteq> None) g bs s) (live_link g bs t)" for g bs
    by (rule posted_push [OF tied])
  show "agree (posted t0) (ss_Add (redis_store C R) sn s) (ss_Add (redis_store C R) sn t)" for sn
    using keep by (simp add: redis_store_def f split_beta)
  show "agree (posted t0) (ss_Delete (redis_store C R) a i s) (ss_Delete (redis_store C R) a i t)" for a i
    using keep by (simp add: redis_store_def f split_beta)
  show "ss_Get (redis_store C R) i s = ss_Get (redis_store C R) i t" for i by (simp add: f)
  show "ss_GetLocation (redis_store C R) a d s = ss_GetLocation (redis_store C R) a d t" for a d
    by (simp add: redis_store_def f)
  show "agree (posted t0) (lift_insert ins app req s) (lift_insert ins app req t)" for app req
    using keep by (simp add: lift_insert_def f split_beta)
qed

section \<open>A service and its gateways\<close>

text \<open>The packets an instance takes, with the gateway each comes from; a panic ends the process.\<close>

fun serve_packets :: "(string \<Rightarrow> bytes \<Rightarrow> 's \<Rightarrow> unit go \<times> 's) \<Rightarrow> (string \<times> bytes) list \<Rightarrow> 's \<Rightarrow> unit go list \<times> 's" where
  "serve_packets recv [] s = ([], s)"
| "serve_packets recv ((g, bs) # ps) s =
     (let (r, s1) = recv g bs s
      in if is_panic r then ([r], s1) else (let (rs, s2) = serve_packets recv ps s1 in (r # rs, s2)))"

lemma serve_packets_same:
  assumes "\<And>g bs s t. tied s t \<Longrightarrow> agree tied (recv1 g bs s) (recv2 g bs t)" and "tied s t"
  shows "agree tied (serve_packets recv1 ps s) (serve_packets recv2 ps t)"
  using assms(2)
proof (induction ps arbitrary: s t)
  case (Cons x ps)
  obtain g bs where x: "x = (g, bs)" by fastforce
  from assms(1) [OF Cons.prems, of g bs] obtain r s1 t1
    where "recv1 g bs s = (r, s1)" "recv2 g bs t = (r, t1)" "tied s1 t1" by (rule agreeE)
  with Cons.IH [of s1 t1] show ?case by (simp add: x agree_def split_beta Let_def)
qed simp

lemma posted_init:
  "srv_inv t0 \<Longrightarrow> \<forall>k. room (wr (conn_of t0 k)) = None \<Longrightarrow> posted t0 (r, []) (r, t0)"
  by (simp add: posted_def mail_def)

lemma live_read:
  assumes "c_conn cli = Some conn" "avail (rd conn) = concat (map bin_enc ms)" "\<forall>bs \<in> set ms. length bs < 2 ^ 32"
  shows "\<exists>cli'. container_readloop L g (tcp_Read tcp_ops) push cli u =
    (let (r, u1) = frames_effect L g push (map (\<lambda>bs. \<lparr>OpCode = OpBinary, Payload = bs\<rparr>) ms) u
     in Some (case r of Panics m \<Rightarrow> Panics m | _ \<Rightarrow> Fail (rerr (rd conn)), cli', u1))"
proof -
  have "avail (rd conn) = concat (map frame_enc (map (\<lambda>bs. \<lparr>OpCode = OpBinary, Payload = bs\<rparr>) ms))"
    using assms(2) by (simp add: bin_enc_def [abs_def] comp_def)
  from container_readloop_frames [OF assms(1) this, of L g push u] assms(3) show ?thesis
    by (auto simp: frame_ok_def split_beta Let_def)
qed


section \<open>An example\<close>

text \<open>A packet of someone without a session: the answer goes to the gateway it came from.\<close>

definition stranger :: bytes where
  "stranger = demo_enc \<lparr>d_command = ''chat.user.talk'', d_channel = ''nobody'', d_metas = []\<rparr>"

lemma demo_chat_rooms: "\<forall>k. room (wr (conn_of demo_chat k)) = None"
  by (simp add: demo_chat_def served_run_def srv_init_def srv_goto_def Done_ready_def NewEvent_def Let_def
      conn_of_def SetReadWait_def SetWriteWait_def NewChannel_def demo_conns_def buffer_def)

lemma demo_insert: "en_insert demo_sys_env = lift_insert (\<lambda>_ _ r. (Inr 7, r))"
  by (simp add: demo_sys_env_def lift_insert_def fun_eq_iff)

lemma stranger_answered:
  "\<exists>answer_bytes. serve_packets (\<lambda>g. ServHandler_Receive (en_lib demo_sys_env) (chat_routes demo_sys_env reach)
      (redis_store (en_codec demo_sys_env) (en_redis demo_sys_env)) (link_push (\<lambda>g. srv_target g demo_chat \<noteq> None) g))
      [(''gate01'', stranger)] (Map.empty, []) = ([Ret ()], Map.empty, [(''gate01'', answer_bytes)])"
proof -
  have "p_must_read session_lib stranger = Inr \<lparr>d_command = ''chat.user.talk'', d_channel = ''nobody'', d_metas = []\<rparr>"
    by (simp add: session_lib_fields stranger_def demo_read)
  then show ?thesis using demo_enc_nonempty
    by (simp add: ServHandler_Receive_def demo_sys_env_fields RespErr_def link_push_def demo_chat_facts rs_Get_def demo_redis_def
        session_lib_fields)
qed


end
