(* ===== verification/ContextPool.thy ===== *)
theory ContextPool
  imports Services
begin

text \<open>
  The contexts of \<open>core/context.go\<close> as the router of \<open>core/router.go\<close> recycles them: \<open>Serve\<close> takes one out of a
  \<open>sync.Pool\<close>, resets and fills it, runs the chain and puts it back, and several goroutines do so at
  once.  A context is an object on a heap.  Dispatchers, stores and handlers are abstract here
  (\<open>'d\<close>, \<open>'k\<close>, \<open>'h\<close>, where \<open>run\<close> says what a handler does: it sees dispatcher, store, request and session
  of its context and can only change the session kept there, which is how \<open>Session()\<close> caches it);
  \<open>fresh_is_Serve\<close> relates them to the definitions of \<open>Router\<close>.
\<close>

section \<open>Contexts\<close>

record ('p, 'd, 'k, 'h) pctx =
  gx_dispatcher :: "'d option"
  gx_storage :: "'k option"
  gx_handlers :: "'h option list"
  gx_index :: nat
  gx_request :: "'p option"
  gx_session :: "session option"

definition BuildContext :: "('p, 'd, 'k, 'h) pctx" where
  "BuildContext = \<lparr>gx_dispatcher = None, gx_storage = None, gx_handlers = [], gx_index = 0, gx_request = None, gx_session = None\<rparr>"

definition ctx_reset :: "('p, 'd, 'k, 'h) pctx \<Rightarrow> ('p, 'd, 'k, 'h) pctx" where
  "ctx_reset c = c\<lparr>gx_request := None, gx_index := 0, gx_handlers := [], gx_session := None\<rparr>"

type_synonym ('p, 'd, 'k, 'h, 's) semantics =
  "'h \<Rightarrow> 'd option \<Rightarrow> 'k option \<Rightarrow> 'p option \<Rightarrow> session option \<Rightarrow> 's \<Rightarrow> unit go \<times> session option \<times> 's"

definition ctx_Next ::
    "('p, 'd, 'k, 'h, 's) semantics \<Rightarrow> ('p, 'd, 'k, 'h) pctx \<Rightarrow> 's \<Rightarrow> unit go \<times> ('p, 'd, 'k, 'h) pctx \<times> 's" where
  "ctx_Next run c s =
     (if gx_index c \<ge> length (gx_handlers c) then (Ret (), c, s)
      else let c1 = c\<lparr>gx_index := Suc (gx_index c)\<rparr>
           in case gx_handlers c ! gx_index c of
                None \<Rightarrow> (Ret (), c1, s)
              | Some f \<Rightarrow>
                  let (r, sn, s1) = run f (gx_dispatcher c1) (gx_storage c1) (gx_request c1) (gx_session c1) s
                  in (r, c1\<lparr>gx_session := sn\<rparr>, s1))"

section \<open>The router and its pool\<close>

record ('p, 'd, 'k) request =
  jb_packet :: 'p
  jb_dispatcher :: "'d option"
  jb_cache :: "'k option"
  jb_session :: "session option"

datatype ('p, 'd, 'k) serving =
    RIdle
  | RReady nat "('p, 'd, 'k) request"  \<comment> \<open>holds a context, about to run the chain\<close>
  | RCalled nat "unit go"  \<comment> \<open>the chain has returned\<close>
  | RDone "unit go"

record ('p, 'd, 'k, 'h, 's) router =
  rt_tree :: "string \<Rightarrow> 'h option list option"
  rt_heap :: "nat \<Rightarrow> ('p, 'd, 'k, 'h) pctx"
  rt_pool :: "nat list"
  rt_next :: nat
  rt_at :: "nat \<Rightarrow> ('p, 'd, 'k) serving"
  rt_state :: 's
  rt_calls :: "(('p, 'd, 'k) request \<times> unit go) list"  \<comment> \<open>the chains that were run, in order\<close>

definition NewRouter :: "(string \<Rightarrow> 'h option list option) \<Rightarrow> 's \<Rightarrow> ('p, 'd, 'k, 'h, 's) router" where
  "NewRouter tree s = \<lparr>rt_tree = tree, rt_heap = (\<lambda>_. BuildContext), rt_pool = [], rt_next = 0, rt_at = (\<lambda>_. RIdle),
     rt_state = s, rt_calls = []\<rparr>"

text \<open>What \<open>Serve\<close> makes of the context it got, up to the call of \<open>Next\<close>.\<close>

definition load_context ::
    "'p pkt_lib \<Rightarrow> (string \<Rightarrow> 'h option list option) \<Rightarrow> ('p, 'd, 'k) request \<Rightarrow> ('p, 'd, 'k, 'h) pctx \<Rightarrow> ('p, 'd, 'k, 'h) pctx" where
  "load_context L tree j c =
     (let ctx = (ctx_reset c)\<lparr>gx_request := Some (jb_packet j), gx_dispatcher := jb_dispatcher j,
                  gx_storage := jb_cache j, gx_session := jb_session j\<rparr>
      in case tree (p_command L (jb_packet j)) of
           None \<Rightarrow> ctx\<lparr>gx_handlers := []\<rparr>
         | Some chain \<Rightarrow> ctx\<lparr>gx_handlers := chain\<rparr>)"

text \<open>
  One event per action of a goroutine \<open>t\<close> on the pool: \<open>RtGet t j (Some n)\<close> takes the \<open>n\<close>-th context of the
  pool, \<open>RtGet t j None\<close> a new one; \<open>RtDrop\<close> is the collector emptying the pool.  A call that has panicked
  puts nothing back.
\<close>

datatype ('p, 'd, 'k) rt_event =
    RtGet nat "('p, 'd, 'k) request" "nat option"
  | RtCall nat
  | RtPut nat
  | RtDrop nat

definition rt_take :: "'p pkt_lib \<Rightarrow> nat \<Rightarrow> ('p, 'd, 'k) request \<Rightarrow> nat \<Rightarrow> ('p, 'd, 'k, 'h, 's) router \<Rightarrow> ('p, 'd, 'k, 'h, 's) router" where
  "rt_take L t j a rt = rt\<lparr>rt_heap := (rt_heap rt)(a := load_context L (rt_tree rt) j (rt_heap rt a)), rt_at := (rt_at rt)(t := RReady a j)\<rparr>"

fun rt_do ::
    "'p pkt_lib \<Rightarrow> ('p, 'd, 'k, 'h, 's) semantics \<Rightarrow> ('p, 'd, 'k) rt_event \<Rightarrow> ('p, 'd, 'k, 'h, 's) router
       \<Rightarrow> ('p, 'd, 'k, 'h, 's) router option" where
  "rt_do L run (RtGet t j n) rt =
     (case rt_at rt t of
        RReady _ _ \<Rightarrow> None
      | RCalled _ _ \<Rightarrow> None
      | _ \<Rightarrow>
          if jb_dispatcher j = None then Some (rt\<lparr>rt_at := (rt_at rt)(t := RDone (Fail (ErrMsg ''dispacher is nil'')))\<rparr>)
          else if jb_cache j = None then Some (rt\<lparr>rt_at := (rt_at rt)(t := RDone (Fail (ErrMsg ''cache is nil'')))\<rparr>)
          else (case n of
              None \<Rightarrow> Some (rt_take L t j (rt_next rt) (rt\<lparr>rt_heap := (rt_heap rt)(rt_next rt := BuildContext), rt_next := Suc (rt_next rt)\<rparr>))
            | Some m \<Rightarrow>
                if m < length (rt_pool rt)
                then Some (rt_take L t j (rt_pool rt ! m) (rt\<lparr>rt_pool := take m (rt_pool rt) @ drop (Suc m) (rt_pool rt)\<rparr>))
                else None))"
| "rt_do L run (RtCall t) rt =
     (case rt_at rt t of
        RReady a j \<Rightarrow>
          let (r, c, s1) = ctx_Next run (rt_heap rt a) (rt_state rt)
          in Some (rt\<lparr>rt_heap := (rt_heap rt)(a := c), rt_state := s1, rt_at := (rt_at rt)(t := RCalled a r),
                      rt_calls := rt_calls rt @ [(j, r)]\<rparr>)
      | _ \<Rightarrow> None)"
| "rt_do L run (RtPut t) rt =
     (case rt_at rt t of
        RCalled a r \<Rightarrow>
          if is_panic r then None
          else Some (rt\<lparr>rt_pool := a # rt_pool rt, rt_at := (rt_at rt)(t := RDone (Ret ()))\<rparr>)
      | _ \<Rightarrow> None)"
| "rt_do L run (RtDrop m) rt = Some (rt\<lparr>rt_pool := take m (rt_pool rt) @ drop (Suc m) (rt_pool rt)\<rparr>)"

fun rt_run ::
    "'p pkt_lib \<Rightarrow> ('p, 'd, 'k, 'h, 's) semantics \<Rightarrow> ('p, 'd, 'k) rt_event list \<Rightarrow> ('p, 'd, 'k, 'h, 's) router
       \<Rightarrow> ('p, 'd, 'k, 'h, 's) router option" where
  "rt_run L run [] rt = Some rt"
| "rt_run L run (e # es) rt = (case rt_do L run e rt of None \<Rightarrow> None | Some rt1 \<Rightarrow> rt_run L run es rt1)"

section \<open>The same without a pool\<close>

definition fresh_serve ::
    "'p pkt_lib \<Rightarrow> ('p, 'd, 'k, 'h, 's) semantics \<Rightarrow> (string \<Rightarrow> 'h option list option) \<Rightarrow> ('p, 'd, 'k) request \<Rightarrow> 's \<Rightarrow> unit go \<times> 's" where
  "fresh_serve L run tree j s =
     (let (r, _, s1) = ctx_Next run (load_context L tree j BuildContext) s in (r, s1))"

fun serve_each ::
    "'p pkt_lib \<Rightarrow> ('p, 'd, 'k, 'h, 's) semantics \<Rightarrow> (string \<Rightarrow> 'h option list option) \<Rightarrow> ('p, 'd, 'k) request list \<Rightarrow> 's
       \<Rightarrow> unit go list \<times> 's" where
  "serve_each L run tree [] s = ([], s)"
| "serve_each L run tree (j # js) s =
     (let (r, s1) = fresh_serve L run tree j s; (rs, s2) = serve_each L run tree js s1 in (r # rs, s2))"

lemma serve_each_snoc:
  "serve_each L run tree (js @ [j]) s =
     (let (rs, s1) = serve_each L run tree js s; (r, s2) = fresh_serve L run tree j s1 in (rs @ [r], s2))"
  by (induction js arbitrary: s) (simp_all add: split_beta Let_def)

text \<open>With the handlers of \<open>Router\<close>, this is its \<open>Serve\<close>.\<close>

definition as_handler ::
    "('p, 'd, 'k, 'h, 's) semantics \<Rightarrow> 'd option \<Rightarrow> 'k option \<Rightarrow> 'h \<Rightarrow> ('p, 's) handler" where
  "as_handler run d k h = (\<lambda>c s. let (r, _, s1) = run h d k (Some (cx_request c)) (cx_session c) s in (r, s1))"

lemma fresh_is_Serve:
  "fresh_serve L run tree j s =
     Serve L (\<lambda>path. map_option (map (map_option (as_handler run (jb_dispatcher j) (jb_cache j)))) (tree path))
       True True (jb_packet j) (jb_session j) s"
proof (cases "tree (p_command L (jb_packet j))")
  case None
  then show ?thesis
    by (simp add: fresh_serve_def load_context_def ctx_reset_def ctx_Next_def Let_def Serve_def serveContext_def GetPath_def Next_def)
next
  case (Some chain)
  show ?thesis
  proof (cases chain)
    case Nil
    with Some show ?thesis
      by (simp add: fresh_serve_def load_context_def ctx_reset_def ctx_Next_def Let_def Serve_def serveContext_def GetPath_def Next_def)
  next
    case (Cons h hs)
    with Some show ?thesis
      by (cases h) (simp_all add: fresh_serve_def load_context_def ctx_reset_def ctx_Next_def BuildContext_def Let_def Serve_def
          serveContext_def GetPath_def Next_def as_handler_def split_beta)
  qed
qed

section \<open>Nothing is left over\<close>

text \<open>Resetting forgets whatever an earlier request has left in a context.\<close>

lemma load_context_any: "load_context L tree j c = load_context L tree j BuildContext"
  by (simp add: load_context_def ctx_reset_def BuildContext_def Let_def split: option.split)

fun held :: "('p, 'd, 'k) serving \<Rightarrow> nat option" where
  "held (RReady a j) = Some a"
| "held (RCalled a r) = Some a"
| "held _ = None"

definition rt_inv :: "'p pkt_lib \<Rightarrow> ('p, 'd, 'k, 'h, 's) router \<Rightarrow> bool" where
  "rt_inv L rt \<longleftrightarrow> distinct (rt_pool rt) \<and> (\<forall>a \<in> set (rt_pool rt). a < rt_next rt)
     \<and> (\<forall>t a. held (rt_at rt t) = Some a \<longrightarrow> a < rt_next rt \<and> a \<notin> set (rt_pool rt))
     \<and> (\<forall>t u a. held (rt_at rt t) = Some a \<longrightarrow> held (rt_at rt u) = Some a \<longrightarrow> t = u)
     \<and> (\<forall>t a j. rt_at rt t = RReady a j \<longrightarrow> rt_heap rt a = load_context L (rt_tree rt) j BuildContext)"

lemma rt_inv_init: "rt_inv L (NewRouter tree s)"
  by (simp add: rt_inv_def NewRouter_def)

lemma set_without: "set (take m xs @ drop (Suc m) xs) \<subseteq> set xs"
  using set_take_subset set_drop_subset by fastforce

lemma distinct_without:
  assumes "distinct xs" "m < length xs"
  shows "distinct (take m xs @ drop (Suc m) xs)" "xs ! m \<notin> set (take m xs @ drop (Suc m) xs)"
proof -
  have "xs = take m xs @ xs ! m # drop (Suc m) xs" using assms(2) by (simp add: id_take_nth_drop)
  then have "distinct (take m xs @ xs ! m # drop (Suc m) xs)" using assms(1) by simp
  then show "distinct (take m xs @ drop (Suc m) xs)" "xs ! m \<notin> set (take m xs @ drop (Suc m) xs)" by auto
qed

lemma take_inv:
  assumes "rt_inv L rt" "held (rt_at rt t) = None" "a < rt_next rt" "a \<notin> set (rt_pool rt)" "\<forall>u. held (rt_at rt u) \<noteq> Some a"
  shows "rt_inv L (rt_take L t j a rt)"
proof -
  have "rt_heap (rt_take L t j a rt) b = load_context L (rt_tree rt) j' BuildContext"
    if "rt_at (rt_take L t j a rt) u = RReady b j'" for u b j'
  proof (cases "u = t")
    case True
    then have "b = a" "j' = j" using that by (simp_all add: rt_take_def)
    then show ?thesis using load_context_any [of L "rt_tree rt" j "rt_heap rt a"] by (simp add: rt_take_def)
  next
    case False
    then have at: "rt_at rt u = RReady b j'" using that by (simp add: rt_take_def)
    then have "held (rt_at rt u) = Some b" by simp
    with assms(5) have "b \<noteq> a" by auto
    with at assms(1) show ?thesis by (simp add: rt_take_def rt_inv_def)
  qed
  then show ?thesis using assms by (auto simp: rt_inv_def rt_take_def split: if_splits)
qed

lemma without_inv: "rt_inv L rt \<Longrightarrow> rt_inv L (rt\<lparr>rt_pool := take m (rt_pool rt) @ drop (Suc m) (rt_pool rt)\<rparr>)"
proof -
  assume inv: "rt_inv L rt"
  have "distinct (take m (rt_pool rt) @ drop (Suc m) (rt_pool rt))"
    using inv distinct_without(1) [of "rt_pool rt" m] by (cases "m < length (rt_pool rt)") (auto simp: rt_inv_def)
  then show ?thesis using inv set_without [of m "rt_pool rt"] unfolding rt_inv_def by (simp del: set_append) blast
qed

lemma done_inv: "rt_inv L rt \<Longrightarrow> rt_inv L (rt\<lparr>rt_at := (rt_at rt)(t := RDone r)\<rparr>)"
  by (auto simp: rt_inv_def)

lemma call_inv:
  assumes "rt_inv L rt" "rt_at rt t = RReady a j"
  shows "rt_inv L (rt\<lparr>rt_heap := (rt_heap rt)(a := c), rt_state := s1, rt_at := (rt_at rt)(t := RCalled a r), rt_calls := l\<rparr>)"
proof -
  have h: "held (rt_at rt t) = Some a" using assms(2) by simp
  have "b \<noteq> a" if "u \<noteq> t" "rt_at rt u = RReady b j'" for u b j'
  proof
    assume "b = a"
    then have "held (rt_at rt u) = Some a" using that by simp
    with h that(1) assms(1) show False unfolding rt_inv_def by blast
  qed
  moreover have "held (((rt_at rt)(t := RCalled a r)) u) = held (rt_at rt u)" for u using h by simp
  ultimately show ?thesis using assms(1) unfolding rt_inv_def by (simp split: if_splits)
qed

lemma put_inv:
  assumes "rt_inv L rt" "rt_at rt t = RCalled a r"
  shows "rt_inv L (rt\<lparr>rt_pool := a # rt_pool rt, rt_at := (rt_at rt)(t := RDone (Ret ()))\<rparr>)"
proof -
  have h: "held (rt_at rt t) = Some a" using assms(2) by simp
  then have "a < rt_next rt" "a \<notin> set (rt_pool rt)" "\<And>u. u \<noteq> t \<Longrightarrow> held (rt_at rt u) \<noteq> Some a"
    using assms(1) unfolding rt_inv_def by blast+
  then show ?thesis using assms(1) by (auto simp: rt_inv_def split: if_splits)
qed

lemma new_inv:
  assumes "rt_inv L rt"
  shows "rt_inv L (rt\<lparr>rt_heap := (rt_heap rt)(rt_next rt := BuildContext), rt_next := Suc (rt_next rt)\<rparr>)"
proof -
  have "a \<noteq> rt_next rt" if "rt_at rt t = RReady a j" for t a j
    using assms that unfolding rt_inv_def by (metis held.simps(1) less_irrefl)
  then show ?thesis using assms by (auto simp: rt_inv_def less_Suc_eq)
qed

lemma get_inv:
  assumes "rt_inv L rt" "rt_do L run (RtGet t j n) rt = Some rt'"
  shows "rt_inv L rt' \<and> rt_state rt' = rt_state rt \<and> rt_calls rt' = rt_calls rt \<and> rt_tree rt' = rt_tree rt"
proof -
  have free: "held (rt_at rt t) = None" using assms(2) by (cases "rt_at rt t") auto
  consider (nil) e where "rt' = rt\<lparr>rt_at := (rt_at rt)(t := RDone e)\<rparr>"
    | (new) "rt' = rt_take L t j (rt_next rt) (rt\<lparr>rt_heap := (rt_heap rt)(rt_next rt := BuildContext), rt_next := Suc (rt_next rt)\<rparr>)"
    | (old) m where "m < length (rt_pool rt)"
        "rt' = rt_take L t j (rt_pool rt ! m) (rt\<lparr>rt_pool := take m (rt_pool rt) @ drop (Suc m) (rt_pool rt)\<rparr>)"
    using assms(2) by (auto split: serving.splits if_splits option.splits)
  then show ?thesis
  proof cases
    case nil
    then show ?thesis using done_inv [OF assms(1)] by simp
  next
    case new
    have a: "\<forall>u. held (rt_at rt u) \<noteq> Some (rt_next rt)" "rt_next rt \<notin> set (rt_pool rt)"
      using assms(1) unfolding rt_inv_def by (metis less_irrefl)+
    have "rt_inv L rt'" unfolding new by (rule take_inv [OF new_inv [OF assms(1)]]) (simp_all add: free a)
    then show ?thesis by (simp add: new rt_take_def)
  next
    case old
    have m: "rt_pool rt ! m \<in> set (rt_pool rt)" using old(1) by simp
    have a: "\<forall>u. held (rt_at rt u) \<noteq> Some (rt_pool rt ! m)" "rt_pool rt ! m < rt_next rt" "distinct (rt_pool rt)"
      using assms(1) m unfolding rt_inv_def by blast+
    note out = distinct_without(2) [OF a(3) old(1)]
    have "rt_inv L rt'" unfolding old(2) by (rule take_inv [OF without_inv [OF assms(1)]]) (use free a out in simp_all)
    then show ?thesis by (simp add: old rt_take_def)
  qed
qed

definition served_right :: "'p pkt_lib \<Rightarrow> ('p, 'd, 'k, 'h, 's) semantics \<Rightarrow> 's \<Rightarrow> ('p, 'd, 'k, 'h, 's) router \<Rightarrow> bool" where
  "served_right L run s0 rt \<longleftrightarrow>
     serve_each L run (rt_tree rt) (map fst (rt_calls rt)) s0 = (map snd (rt_calls rt), rt_state rt)"

lemma rt_do_inv:
  assumes "rt_inv L rt" "served_right L run s0 rt" "rt_do L run e rt = Some rt'"
  shows "rt_inv L rt' \<and> served_right L run s0 rt' \<and> rt_tree rt' = rt_tree rt"
proof (cases e)
  case (RtGet t j n)
  then show ?thesis using get_inv [OF assms(1)] assms(2,3) by (simp add: served_right_def)
next
  case (RtCall t)
  then obtain a j where at: "rt_at rt t = RReady a j" using assms(3) by (auto split: serving.splits)
  obtain r c s1 where n: "ctx_Next run (rt_heap rt a) (rt_state rt) = (r, c, s1)" by (cases "ctx_Next run (rt_heap rt a) (rt_state rt)")
  have rt': "rt' = rt\<lparr>rt_heap := (rt_heap rt)(a := c), rt_state := s1, rt_at := (rt_at rt)(t := RCalled a r), rt_calls := rt_calls rt @ [(j, r)]\<rparr>"
    using assms(3) RtCall at n by simp
  have "rt_heap rt a = load_context L (rt_tree rt) j BuildContext" using assms(1) at unfolding rt_inv_def by blast
  then have "fresh_serve L run (rt_tree rt) j (rt_state rt) = (r, s1)" using n by (simp add: fresh_serve_def)
  then have "served_right L run s0 rt'" using assms(2) by (simp add: served_right_def rt' serve_each_snoc)
  with call_inv [OF assms(1) at] show ?thesis by (simp add: rt')
next
  case (RtPut t)
  then obtain a r where "rt_at rt t = RCalled a r" "rt' = rt\<lparr>rt_pool := a # rt_pool rt, rt_at := (rt_at rt)(t := RDone (Ret ()))\<rparr>"
    using assms(3) by (auto split: serving.splits if_splits)
  with put_inv [OF assms(1)] assms(2) show ?thesis by (simp add: served_right_def)
next
  case (RtDrop m)
  then have "rt' = rt\<lparr>rt_pool := take m (rt_pool rt) @ drop (Suc m) (rt_pool rt)\<rparr>" using assms(3) by simp
  with without_inv [OF assms(1)] assms(2) show ?thesis by (simp add: served_right_def)
qed

lemma rt_run_inv:
  assumes "rt_run L run es rt = Some rt'" "rt_inv L rt" "served_right L run s0 rt"
  shows "rt_inv L rt' \<and> served_right L run s0 rt' \<and> rt_tree rt' = rt_tree rt"
  using assms
proof (induction es arbitrary: rt)
  case (Cons e es)
  then obtain rt1 where "rt_do L run e rt = Some rt1" "rt_run L run es rt1 = Some rt'" by (auto split: option.splits)
  with Cons.IH [of rt1] rt_do_inv [OF Cons.prems(2,3)] show ?case by metis
qed simp

text \<open>C15: Recycled contexts.  In every interleaving of calls of \<open>Serve\<close> by any number of goroutines on one
  router, whichever contexts the pool hands out or forgets: no context is held by two calls, or by a
  call and the pool; and the calls of the handlers' chains, in the order they happen, have the results
  and the effects they would have on contexts made for them, so that no request sees anything of
  another one through its context.\<close>

theorem contexts_fresh:
  assumes "rt_run L run es (NewRouter tree s0) = Some rt"
  shows "serve_each L run tree (map fst (rt_calls rt)) s0 = (map snd (rt_calls rt), rt_state rt)
    \<and> distinct (rt_pool rt)
    \<and> (\<forall>t a. held (rt_at rt t) = Some a \<longrightarrow> a \<notin> set (rt_pool rt) \<and> (\<forall>u. held (rt_at rt u) = Some a \<longrightarrow> u = t))"
proof -
  have "served_right L run s0 (NewRouter tree s0)" by (simp add: served_right_def NewRouter_def)
  from rt_run_inv [OF assms rt_inv_init this] have "rt_inv L rt" "served_right L run s0 rt" "rt_tree rt = tree"
    by (simp_all add: NewRouter_def)
  then show ?thesis unfolding rt_inv_def served_right_def by (intro conjI) (simp, blast+)
qed

section \<open>An example\<close>

text \<open>A handler that counts the requests whose context came with a session and caches one.\<close>

definition demo_run :: "(demo_pkt, unit, unit, unit, nat) semantics" where
  "demo_run = (\<lambda>_ _ _ _ sn s. (Ret (), Some no_session, if sn = None then s else Suc s))"

definition demo_request :: "(demo_pkt, unit, unit) request" where
  "demo_request = \<lparr>jb_packet = demo_push_pkt, jb_dispatcher = Some (), jb_cache = Some (), jb_session = None\<rparr>"

theorem contexts_fresh_witness:
  "\<exists>rt. rt_run demo_lib demo_run [RtGet 0 demo_request None, RtCall 0, RtPut 0, RtGet 1 demo_request (Some 0), RtCall 1]
       (NewRouter (\<lambda>_. Some [Some ()]) 0) = Some rt \<and> rt_at rt 1 = RCalled 0 (Ret ()) \<and> rt_state rt = 0"
proof -
  let ?es = "[RtGet 0 demo_request None, RtCall 0, RtPut 0, RtGet 1 demo_request (Some 0), RtCall 1]"
  obtain rt where rt: "rt_run demo_lib demo_run ?es (NewRouter (\<lambda>_. Some [Some ()]) 0) = Some rt" "rt_at rt 1 = RCalled 0 (Ret ())"
    "map fst (rt_calls rt) = [demo_request, demo_request]"
    by (simp add: NewRouter_def demo_request_def rt_take_def load_context_def ctx_Next_def ctx_reset_def demo_run_def Let_def)
  from contexts_fresh [OF rt(1)] rt(3) have "rt_state rt = 0"
    by (simp add: fresh_serve_def load_context_def ctx_reset_def BuildContext_def ctx_Next_def demo_run_def demo_request_def Let_def)
  with rt show ?thesis by blast
qed

end
