(* ===== verification/UserSide.thy ===== *)
theory UserSide
  imports WsFrame Login
begin

text \<open>
  The user's side of a login: \<open>examples/dialer/client_dialer.go\<close>, the dialer a WebSocket client
  (\<open>websocket/client.go\<close>) is given to log in at a gateway, against the acceptor of the gateway
  (\<open>services/gateway/serv/handler.go\<close>).  Dialling, the token library and the two calls on the connection
  (\<open>wsutil.WriteClientBinary\<close>, \<open>ws.ReadFrame\<close>) are arguments; so is how the header of a packet prints.
\<close>

section \<open>The dialer\<close>

definition login_request :: "'p pkt_lib \<Rightarrow> string \<Rightarrow> 'p" where
  "login_request L tk = p_write_body L (B_LoginReq tk) (p_new L (w_CommandLoginSignIn L) None)"

text \<open>On an error the connection is dropped without being closed.\<close>

definition ClientDialAndHandshake ::
    "'p pkt_lib \<Rightarrow> (string \<Rightarrow> error + 'c) \<Rightarrow> (string \<Rightarrow> string \<Rightarrow> int \<Rightarrow> error + string)
       \<Rightarrow> ('c \<Rightarrow> bytes \<Rightarrow> error option \<times> 'c) \<Rightarrow> ('c \<Rightarrow> (error + ws_frame) \<times> 'c) \<Rightarrow> ('p \<Rightarrow> string) \<Rightarrow> int \<Rightarrow> 'c dialer" where
  "ClientDialAndHandshake L dial generate write_bin read_raw header_text tomorrow ctx =
     (case dial (dc_Address ctx) of
        Inl e \<Rightarrow> Fail e
      | Inr conn \<Rightarrow>
          (case generate (dc_Id ctx) ''kim'' tomorrow of
             Inl e \<Rightarrow> Fail e
           | Inr tk \<Rightarrow>
               (case write_bin conn (p_marshal L (login_request L tk)) of
                  (Some e, _) \<Rightarrow> Fail e
                | (None, c1) \<Rightarrow>
                    (case read_raw c1 of
                       (Inl e, _) \<Rightarrow> Fail e
                     | (Inr f, c2) \<Rightarrow>
                         (case p_must_read L (raw_Payload f) of
                            Inl e \<Rightarrow> Fail e
                          | Inr ack \<Rightarrow>
                              if p_status L ack \<noteq> St_Success then Fail (ErrMsg (''login failed: '' @ header_text ack))
                              else Ret (Some c2))))))"

text \<open>Like every dialer a client can be given, it returns a connection or an error.\<close>

lemma ClientDialAndHandshake_good:
  "good_dialer (ClientDialAndHandshake L dial generate write_bin read_raw header_text tomorrow)"
  by (auto simp: good_dialer_def ClientDialAndHandshake_def split: sum.splits prod.splits option.splits)

section \<open>A login seen from both sides\<close>

text \<open>What the packet library promises: a packet is read back as it was, a token comes out as it went in, and
  the status of a packet is the last one set.\<close>

definition user_laws :: "'p pkt_lib \<Rightarrow> bool" where
  "user_laws L \<longleftrightarrow> wire_laws L
     \<and> (\<forall>c. p_command L (p_new L c None) = c)
     \<and> (\<forall>tk p. p_command L (p_write_body L (B_LoginReq tk) p) = p_command L p \<and> p_read_login L (p_write_body L (B_LoginReq tk) p) = Inr tk)
     \<and> (\<forall>st p. p_status L (p_set_status L st p) = st)
     \<and> (\<forall>f p. p_status L (p_set_flag L f p) = p_status L p) \<and> (\<forall>b p. p_status L (p_write_body L b p) = p_status L p)
     \<and> (\<forall>k v p. p_status L (p_add_meta L k v p) = p_status L p \<and> p_status L (p_del_meta L k p) = p_status L p)"

lemma answer_status:
  assumes "user_laws L"
  shows "p_must_read L (user_bytes L (route_metas L g ids (reply L c st b))) =
      Inr (p_del_meta L (w_MetaDestChannels L) (p_del_meta L (w_MetaDestServer L) (route_metas L g ids (reply L c st b))))"
    and "p_status L (p_del_meta L (w_MetaDestChannels L) (p_del_meta L (w_MetaDestServer L) (route_metas L g ids (reply L c st b)))) = st"
  using assms by (simp_all add: user_laws_def wire_laws_def user_bytes_def route_metas_def reply_def)

text \<open>C13: A login seen from both sides.  The bytes a user's dialer sends make the gateway's acceptor forward a
  login for exactly the account the dialer was started with, whatever the mask of his frame was, and
  accept him under an identifier of that account if that could be forwarded.  The dialer then returns
  the connection when the first frame that comes back is the service's answer to a successful login,
  and an error when it is an answer or a refusal with any other status.\<close>

theorem user_login:
  assumes "user_laws L" and "cipher_law W" and "ws_stream_law W pending"
    and "dial (dc_Address ctx) = Inr conn" and "generate (dc_Id ctx) ''kim'' tomorrow = Inr tk"
    and "account_app tk = Inr (dc_Id ctx, ''kim'')"
    and "write_bin conn (p_marshal L (login_request L tk)) = (None, opened)"
    and "pending k = masked_frame W OpBinary mk (p_marshal L (login_request L tk)) # later"
    and "i = generateChannelID me (dc_Id ctx) n" and "sn = login_session me i (dc_Id ctx) ''kim'' addr"
    and "read_raw opened = (Inr f, ready)"
    and "out = ClientDialAndHandshake L dial generate write_bin read_raw header_text tomorrow ctx"
  shows "(\<exists>k'. Gateway_Accept L (ws_conn_read W) wfr account_app forward n addr me k s =
        (let (r, s1) = forward (w_SNLogin L) (Some (p_write_body L (B_Session sn) (p_set_channel L i (login_request L tk)))) s
         in (map_go (\<lambda>_. i) r, k', s1)))
    \<and> (\<forall>c st b. raw_Payload f = user_bytes L (route_metas L me [i] (reply L c st b)) \<longrightarrow>
        (if st = St_Success then out = Ret (Some ready) else \<exists>m. out = Fail (ErrMsg m)))
    \<and> (\<forall>p st. raw_Payload f = p_marshal L (p_set_status L st p) \<and> st \<noteq> St_Success \<longrightarrow> (\<exists>m. out = Fail (ErrMsg m)))"
proof (intro conjI allI impI)
  let ?req = "login_request L tk"
  have req: "p_must_read L (p_marshal L ?req) = Inr ?req" "p_command L ?req = w_CommandLoginSignIn L" "p_read_login L ?req = Inr tk"
    using assms(1) by (simp_all add: user_laws_def wire_laws_def login_request_def)
  obtain k' where "wl_ReadFrame W k = (Inr (masked_frame W OpBinary mk (p_marshal L ?req)), k')"
    using assms(3,8) unfolding ws_stream_law_def by blast
  then have "ws_conn_read W k = (Ret \<lparr>OpCode = OpBinary, Payload = p_marshal L ?req\<rparr>, k')"
    using ws_view_masked [OF assms(2)] by (simp add: ws_conn_read_def WsConn_ReadFrame_def)
  then show "\<exists>k'. Gateway_Accept L (ws_conn_read W) wfr account_app forward n addr me k s =
        (let (r, s1) = forward (w_SNLogin L) (Some (p_write_body L (B_Session sn) (p_set_channel L i ?req))) s
         in (map_go (\<lambda>_. i) r, k', s1))"
    using req assms(6)
    by (intro exI [of _ k']) (auto simp: Gateway_Accept_def GetPayload_def Let_def assms(9,10) login_session_def split: prod.split go.split)
next
  fix c st b
  assume "raw_Payload f = user_bytes L (route_metas L me [i] (reply L c st b))"
  then show "if st = St_Success then out = Ret (Some ready) else \<exists>m. out = Fail (ErrMsg m)"
    using answer_status [OF assms(1)] assms(4,5,7,11) by (simp add: assms(12) ClientDialAndHandshake_def)
next
  fix p st
  assume "raw_Payload f = p_marshal L (p_set_status L st p) \<and> st \<noteq> St_Success"
  then show "\<exists>m. out = Fail (ErrMsg m)"
    using assms(1,4,5,7,11) by (simp add: assms(12) ClientDialAndHandshake_def user_laws_def wire_laws_def)
qed

section \<open>An example\<close>

fun status_text :: "status \<Rightarrow> string" where
  "status_text St_Success = ''0''"
| "status_text St_NoDestination = ''1''"
| "status_text St_InvalidPacketBody = ''2''"
| "status_text St_InvalidCommand = ''3''"
| "status_text St_Unauthorized = ''4''"
| "status_text St_SystemException = ''5''"
| "status_text St_NotImplemented = ''6''"
| "status_text St_SessionNotFound = ''7''"

definition text_status :: "string \<Rightarrow> status" where
  "text_status t = (case find (\<lambda>st. status_text st = t) [St_NoDestination, St_InvalidPacketBody, St_InvalidCommand,
     St_Unauthorized, St_SystemException, St_NotImplemented, St_SessionNotFound] of None \<Rightarrow> St_Success | Some st \<Rightarrow> st)"

lemma text_status_text [simp]: "text_status (status_text st) = st"
  by (cases st) (simp_all add: text_status_def)

text \<open>Status and token are entries of the packet.\<close>

definition user_lib :: "demo_pkt pkt_lib" where
  "user_lib = demo_lib\<lparr>p_status := (\<lambda>p. case map_of (d_metas p) ''status'' of None \<Rightarrow> St_Success | Some t \<Rightarrow> text_status t),
     p_set_status := (\<lambda>st p. p\<lparr>d_metas := (''status'', status_text st) # d_metas p\<rparr>),
     p_add_meta := (\<lambda>k v p. p\<lparr>d_metas := d_metas p @ (if k = ''status'' then [] else [(k, v)])\<rparr>),
     p_del_meta := (\<lambda>k p. p\<lparr>d_metas := (if k = ''status'' then d_metas p else filter (\<lambda>(j, _). j \<noteq> k) (d_metas p))\<rparr>),
     p_write_body := (\<lambda>b p. case b of B_LoginReq tk \<Rightarrow> p\<lparr>d_metas := (''token'', tk) # d_metas p\<rparr> | _ \<Rightarrow> p),
     p_read_login := (\<lambda>p. case map_of (d_metas p) ''token'' of None \<Rightarrow> Inl (ErrExt ''no token'') | Some t \<Rightarrow> Inr t)\<rparr>"

lemma map_of_other: "k \<noteq> j \<Longrightarrow> map_of (filter (\<lambda>(i, _). i \<noteq> k) xs) j = map_of xs j"
  by (induction xs) auto

lemma user_lib_laws: "user_laws user_lib"
proof -
  have "wire_laws user_lib" using demo_wire_laws by (simp add: wire_laws_def user_lib_def)
  moreover have "p_status user_lib (p_add_meta user_lib k v p) = p_status user_lib p" for k v p
    by (simp add: user_lib_def map_add_def split: option.split)
  moreover have "p_status user_lib (p_del_meta user_lib k p) = p_status user_lib p" for k p
    by (simp add: user_lib_def map_of_other)
  moreover have "p_status user_lib (p_write_body user_lib b p) = p_status user_lib p" for b p
    by (cases b) (simp_all add: user_lib_def)
  ultimately show ?thesis by (simp add: user_laws_def) (simp add: user_lib_def demo_lib_def)
qed

theorem user_login_witness:
  "\<exists>k'. Gateway_Accept user_lib (ws_conn_read demo_ws) (\<lambda>c _ _. (Ret (), c)) (\<lambda>tk. Inr (tk, ''kim'')) (\<lambda>_ _ s. (Ret (), Suc s))
      5 ''1.2.3.4:99'' ''gate01'' [masked_frame demo_ws OpBinary [1, 2, 3, 4] (p_marshal user_lib (login_request user_lib ''ann''))] 0
    = (Ret (generateChannelID ''gate01'' ''ann'' 5), k', 1)"
proof -
  let ?ctx = "\<lparr>dc_Id = ''ann'', dc_Name = ''unittest'', dc_Address = ''ws://localhost:8000'', dc_Timeout = 10\<rparr>"
  let ?f = "\<lparr>raw_OpCode = OpBinary, raw_Masked = False, raw_Mask = [], raw_Payload = []\<rparr>"
  have "\<exists>k'. Gateway_Accept user_lib (ws_conn_read demo_ws) (\<lambda>c _ _. (Ret (), c)) (\<lambda>tk. Inr (tk, ''kim'')) (\<lambda>_ _ s. (Ret (), Suc s))
      5 ''1.2.3.4:99'' ''gate01'' [masked_frame demo_ws OpBinary [1, 2, 3, 4] (p_marshal user_lib (login_request user_lib ''ann''))] 0
    = (let (r, s1) = (Ret (), Suc 0) in (map_go (\<lambda>_. generateChannelID ''gate01'' (dc_Id ?ctx) 5) r, k', s1))"
    by (rule conjunct1 [OF user_login [where ctx = ?ctx and conn = "()" and opened = "()" and ready = "()" and f = ?f
      and dial = "\<lambda>_. Inr ()" and generate = "\<lambda>a _ _. Inr a" and write_bin = "\<lambda>c _. (None, c)" and read_raw = "\<lambda>c. (Inr ?f, c)"
      and header_text = "\<lambda>_. ''''" and tomorrow = 0 and tk = "''ann''" and later = "[]",
      OF user_lib_laws demo_cipher demo_ws_stream _ _ _ _ _ refl refl _ refl]]) simp_all
  then show ?thesis by simp
qed

end
