(* ===== verification/Acceptance.thy ===== *)
theory Acceptance
  imports Gateway
begin

text \<open>
  The acceptors of \<open>services/gateway/serv/handler.go\<close> and \<open>services/server/serv/handler.go\<close> inside the
  servers that call them (\<open>tcp/server.go\<close>, \<open>websocket/server.go\<close>): the machine of \<open>Server\<close> leaves open what an
  acceptor does between \<open>EvAccept\<close> and its result; here it is the code's.
\<close>

section \<open>The calls an acceptor makes\<close>

text \<open>One read, and after it at most one write, which only a refused connection gets.\<close>

definition reads_once ::
    "('c \<Rightarrow> frame go \<times> 'c) \<Rightarrow> ('c \<Rightarrow> opcode \<Rightarrow> bytes \<Rightarrow> unit go \<times> 'c) \<Rightarrow> 'c \<Rightarrow> string go \<Rightarrow> 'c \<Rightarrow> bool" where
  "reads_once rfr wfr c r c' \<longleftrightarrow>
     (is_panic (fst (rfr c)) \<longrightarrow> is_panic r)
     \<and> (c' = snd (rfr c) \<or> (\<not> is_ret r \<and> (\<exists>p. c' = snd (wfr (snd (rfr c)) OpBinary p))))"

lemma gateway_reads_once:
  "Gateway_Accept L rfr wfr account_app forward n addr me c st = (r, c', st') \<Longrightarrow> reads_once rfr wfr c r c'"
  by (auto simp: Gateway_Accept_def reads_once_def Let_def split: prod.splits go.splits sum.splits if_splits)

lemma service_reads_once:
  "ServHandler_Accept rfr service_id c = (r, c') \<Longrightarrow> reads_once rfr wfr c r c'"
  by (auto simp: ServHandler_Accept_def reads_once_def split: prod.splits go.splits)

section \<open>In the server\<close>

definition auth_events :: "nat \<Rightarrow> bytes option \<Rightarrow> srv_event list" where
  "auth_events k ans = [EvAccept k, EvAuthRead k] @ (case ans of None \<Rightarrow> [] | Some p \<Rightarrow> [EvAuthWrite k OpBinary p])"

definition answered :: "('c \<Rightarrow> frame go \<times> 'c) \<Rightarrow> ('c \<Rightarrow> opcode \<Rightarrow> bytes \<Rightarrow> unit go \<times> 'c) \<Rightarrow> 'c \<Rightarrow> bytes option \<Rightarrow> 'c" where
  "answered rfr wfr c ans = (case ans of None \<Rightarrow> snd (rfr c) | Some p \<Rightarrow> snd (wfr (snd (rfr c)) OpBinary p))"

lemma write_safeD: "write_safe wfr \<Longrightarrow> wfr c code p \<noteq> (Panics m, c1)"
proof
  assume "write_safe wfr" "wfr c code p = (Panics m, c1)"
  then have "\<not> is_panic (fst (Panics m :: unit go, c1))" unfolding write_safe_def by metis
  then show False by simp
qed

lemma srv_run_auth:
  assumes "srv_inv s" "sv_pc s k = HNone" "write_safe wfr" "\<not> is_panic (fst (rfr (sv_conn s k)))"
  shows "srv_run kind rfr wfr \<pi> w (auth_events k ans @ evs) s =
    srv_run kind rfr wfr \<pi> w evs ((srv_goto k HAuth s)\<lparr>sv_conn := (sv_conn s)(k := answered rfr wfr (sv_conn s k) ans)\<rparr>)"
proof -
  have q: "\<not> Done_ready (sv_quit s)" using assms(1) by (simp add: srv_inv_def)
  obtain x c1 where x: "rfr (sv_conn s k) = (x, c1)" by fastforce
  show ?thesis
  proof (cases ans)
    case None
    then show ?thesis using assms(2,4) q x
      by (cases x) (simp_all add: auth_events_def answered_def srv_goto_def)
  next
    case (Some p)
    obtain y c2 where y: "wfr c1 OpBinary p = (y, c2)" by fastforce
    with write_safeD [OF assms(3)] have "\<not> is_panic y" by (cases y) auto
    then show ?thesis using Some assms(2,4) q x y
      by (cases x; cases y) (simp_all add: auth_events_def answered_def srv_goto_def)
  qed
qed

lemma reads_once_answer:
  assumes "reads_once rfr wfr c r c'" "\<not> is_panic r"
  obtains ans where "c' = answered rfr wfr c ans" "\<not> is_panic (fst (rfr c))" "is_ret r \<Longrightarrow> ans = None"
proof -
  have np: "\<not> is_panic (fst (rfr c))" using assms by (auto simp: reads_once_def)
  show thesis
  proof (cases "c' = snd (rfr c)")
    case True
    then show thesis using that [of None] np by (simp add: answered_def)
  next
    case False
    then obtain p where "\<not> is_ret r" "c' = snd (wfr (snd (rfr c)) OpBinary p)" using assms(1) by (auto simp: reads_once_def)
    then show thesis using that [of "Some p"] np by (simp add: answered_def)
  qed
qed

text \<open>How far the goroutine of a connection gets: a channel of its own, or a close.\<close>

definition ends_up :: "nat \<Rightarrow> string go \<Rightarrow> 'c \<Rightarrow> 'c server \<Rightarrow> 'c server \<Rightarrow> bool" where
  "ends_up k r c' s s' \<longleftrightarrow>
     (case r of
        Ret i \<Rightarrow>
          if srv_target i s = None
          then sv_pc s' k = HServing i \<and> srv_target i s' = Some k
             \<and> (\<exists>ch. sv_chan s' k = Some ch \<and> ch_id ch = i \<and> IConn ch = c')
          else sv_pc s' k = HRejected \<and> \<not> sv_open s' k \<and> sv_map s' = sv_map s
      | _ \<Rightarrow> sv_pc s' k = HRejected \<and> \<not> sv_open s' k \<and> sv_map s' = sv_map s)
     \<and> (\<forall>j. j \<noteq> k \<longrightarrow> sv_pc s' j = sv_pc s j \<and> sv_conn s' j = sv_conn s j \<and> sv_chan s' j = sv_chan s j)"

definition finish :: "nat \<Rightarrow> string go \<Rightarrow> bool \<Rightarrow> srv_event list" where
  "finish k r fresh = (case r of Ret i \<Rightarrow> EvAuthOk k i # EvCheck k # (if fresh then [EvAdd k] else []) | Fail e \<Rightarrow> [EvAuthFailed k e] | Panics m \<Rightarrow> [])"

lemma acceptor_serves:
  assumes "srv_inv s" "sv_pc s k = HNone" "write_safe wfr" "reads_once rfr wfr (sv_conn s k) r c'" "\<not> is_panic r"
  shows "\<exists>ans s'. srv_run kind rfr wfr \<pi> w
      (auth_events k ans @ finish k r (\<forall>i. r = Ret i \<longrightarrow> srv_target i s = None)) s = Some (Ret (), s')
    \<and> (is_ret r \<longrightarrow> ans = None) \<and> ends_up k r c' s s'"
proof -
  obtain ans where a: "c' = answered rfr wfr (sv_conn s k) ans" "\<not> is_panic (fst (rfr (sv_conn s k)))"
    "is_ret r \<Longrightarrow> ans = None" using reads_once_answer [OF assms(4,5)] by blast
  note run = srv_run_auth [where rfr = rfr, OF assms(1-3) a(2), of kind \<pi> w ans, folded a(1)]
  have key: "keyed ref_id (sv_map s)" using assms(1) by (simp add: srv_inv_def)
  let ?s1 = "(srv_goto k HAuth s)\<lparr>sv_conn := (sv_conn s)(k := c')\<rparr>"
  have step: "\<exists>s'. srv_run kind rfr wfr \<pi> w (finish k r (\<forall>i. r = Ret i \<longrightarrow> srv_target i s = None)) ?s1 = Some (Ret (), s') \<and> ends_up k r c' s s'"
  proof (cases r)
    case (Ret i)
    show ?thesis
    proof (cases "cm_Get i (sv_map s)")
      case None
      let ?ch = "SetWriteWait (snd w) (SetReadWait (fst w) (NewChannel i c'))"
      have t: "srv_target i s = None" using None by (simp add: srv_target_def)
      have ch: "ch_id ?ch = i" "IConn ?ch = c'" by (simp_all add: SetWriteWait_def SetReadWait_def NewChannel_def)
      have add: "cm_Get i (cm_Add \<lparr>ref_id = i, ref_conn = k\<rparr> (sv_map s)) = Some \<lparr>ref_id = i, ref_conn = k\<rparr>"
        using cm.get_add [OF key, of i "\<lparr>ref_id = i, ref_conn = k\<rparr>"] by simp
      show ?thesis using Ret None t ch add
        by (simp add: finish_def Let_def srv_goto_def ends_up_def srv_target_def)
    next
      case (Some ref)
      then have t: "srv_target i s \<noteq> None" by (simp add: srv_target_def)
      with Ret Some show ?thesis
        by (simp add: finish_def srv_goto_def ends_up_def reject_def)
    qed
  next
    case (Fail e)
    then show ?thesis by (simp add: finish_def srv_goto_def ends_up_def reject_def)
  qed (use assms(5) in simp)
  then obtain s' where s': "srv_run kind rfr wfr \<pi> w (finish k r (\<forall>i. r = Ret i \<longrightarrow> srv_target i s = None)) ?s1 = Some (Ret (), s')"
    "ends_up k r c' s s'" by blast
  have "srv_run kind rfr wfr \<pi> w (auth_events k ans @ finish k r (\<forall>i. r = Ret i \<longrightarrow> srv_target i s = None)) s = Some (Ret (), s')"
    by (rule trans [OF run s'(1)])
  with s'(2) a(3) show ?thesis by blast
qed


text \<open>The same for a gateway that arrives at a service, whose acceptor only reads.\<close>

lemma service_serves:
  assumes "srv_inv s" and "sv_pc s k = HNone" and "write_safe wfr"
    and "ServHandler_Accept rfr service_id (sv_conn s k) = (r, c')" and "\<not> is_panic r"
  shows "\<exists>ans s'. srv_run kind rfr wfr \<pi> w
      (auth_events k ans @ finish k r (\<forall>i. r = Ret i \<longrightarrow> srv_target i s = None)) s = Some (Ret (), s')
    \<and> ends_up k r c' s s'"
  using acceptor_serves [OF assms(1-3) service_reads_once [OF assms(4)] assms(5)] by blast


end
