(* ===== verification/Logger.thy ===== *)
theory Logger
  imports Prelude
begin

text \<open>
  \<open>logger/setting.go\<close> and \<open>logger/logger.go\<close>: the process-wide logger, how it is set up and the functions the
  whole program logs with.  The logging library (\<open>logrus\<close>), the rotating files and the hook that ties them
  to levels are outside the repository: a parameter \<open>log_lib\<close> on an abstract logger \<open>'g\<close> with files \<open>'w\<close>.
\<close>

section \<open>The library\<close>

datatype level = PanicLevel | FatalLevel | ErrorLevel | WarnLevel | InfoLevel | DebugLevel | TraceLevel

datatype formatter =
    JSONFormatter bool  \<comment> \<open>\<open>DisableTimestamp\<close>\<close>
  | TextFormatter bool  \<comment> \<open>\<open>DisableColors\<close>\<close>

text \<open>What \<open>lfshook.NewHook\<close> is given: a file for each level it writes, and the format.\<close>

record 'w hook =
  hk_writers :: "(level \<times> 'w) list"
  hk_format :: formatter

text \<open>The methods of the standard logger the wrappers call.\<close>

datatype style = Plain | Formatted string | Ln
datatype std_method = M_Trace | M_Debug | M_Print | M_Info | M_Warn | M_Warning | M_Error | M_Panic | M_Fatal

text \<open>\<open>lg_log\<close> returns what is written to the files: file, format and arguments.\<close>

record ('g, 'w) log_lib =
  lg_ParseLevel :: "string \<Rightarrow> error + level"
  lg_SetLevel :: "level \<Rightarrow> 'g \<Rightarrow> 'g"
  lg_AddHook :: "'w hook \<Rightarrow> 'g \<Rightarrow> 'g"
  lg_log :: "std_method \<Rightarrow> style \<Rightarrow> string list \<Rightarrow> 'g \<Rightarrow> ('w \<times> formatter \<times> string list) list \<times> 'g"
  lg_rotate :: "string \<Rightarrow> string \<Rightarrow> nat \<Rightarrow> 64 word \<Rightarrow> error + 'w"  \<comment> \<open>pattern, link, hours, count\<close>

section \<open>Setting up\<close>

record settings =
  st_Filename :: string
  st_Level :: string
  st_RollingDays :: "64 word"
  st_Format :: string

definition file_format :: "string \<Rightarrow> formatter" where
  "file_format f = (if f = ''json'' then JSONFormatter False else TextFormatter True)"

definition logger_Init :: "('g, 'w) log_lib \<Rightarrow> settings \<Rightarrow> 'g \<Rightarrow> unit go \<times> 'g" where
  "logger_Init G settings std =
     (let lv = (if st_Level settings = '''' then ''debug'' else st_Level settings);
          std1 = (case lg_ParseLevel G lv of
                    Inr ll \<Rightarrow> lg_SetLevel G ll std
                  | Inl _ \<Rightarrow> snd (lg_log G M_Error Plain [''Invalid log level''] std))
      in if st_Filename settings = '''' then (Ret (), std1)
         else
           let days = (if st_RollingDays settings = 0 then 7 else st_RollingDays settings)
           in case lg_rotate G (st_Filename settings @ ''.%Y%m%d'') (st_Filename settings) 24 days of
                Inl e \<Rightarrow> (Fail e, std1)
              | Inr writer \<Rightarrow>
                  (Ret (), lg_AddHook G \<lparr>hk_writers = [(DebugLevel, writer), (InfoLevel, writer), (WarnLevel, writer), (ErrorLevel, writer)],
                             hk_format = file_format (st_Format settings)\<rparr> std1))"

text \<open>The options of the other way to set it up; \<open>int\<close> is 64 bits wide.\<close>

record log_options =
  op_Format :: string
  op_RotationCount :: "64 word"
  op_LogLevel :: string

definition WithRotationCount :: "64 word \<Rightarrow> log_options \<Rightarrow> log_options" where "WithRotationCount v o' = o'\<lparr>op_RotationCount := v\<rparr>"
definition WithFormat :: "string \<Rightarrow> log_options \<Rightarrow> log_options" where "WithFormat f o' = o'\<lparr>op_Format := f\<rparr>"
definition WithLevel :: "string \<Rightarrow> log_options \<Rightarrow> log_options" where "WithLevel l o' = o'\<lparr>op_LogLevel := l\<rparr>"

definition SetLevel :: "('g, 'w) log_lib \<Rightarrow> string \<Rightarrow> 'g \<Rightarrow> unit go \<times> 'g" where
  "SetLevel G lv std =
     (case lg_ParseLevel G lv of Inr ll \<Rightarrow> (Ret (), lg_SetLevel G ll std) | Inl e \<Rightarrow> (Fail e, std))"

text \<open>\<open>filepath.Join\<close> is an argument.  The conversion to \<open>uint\<close> keeps the bits of the count.\<close>

definition InitDailyRolling ::
    "('g, 'w) log_lib \<Rightarrow> (string \<Rightarrow> string \<Rightarrow> string) \<Rightarrow> string \<Rightarrow> string \<Rightarrow> (log_options \<Rightarrow> log_options) list \<Rightarrow> 'g
       \<Rightarrow> unit go \<times> ('w \<times> formatter \<times> string list) list \<times> 'g" where
  "InitDailyRolling G join fileDir fileName opts std =
     (let logfile = join fileDir fileName;
          options = fold (\<lambda>opt o'. opt o') opts \<lparr>op_Format = ''text'', op_RotationCount = 7, op_LogLevel = ''debug''\<rparr>
      in case lg_rotate G (logfile @ ''.%Y%m%d'') logfile 24 (op_RotationCount options) of
           Inl e \<Rightarrow> (Fail e, [], std)
         | Inr writer \<Rightarrow>
             let std1 = snd (SetLevel G (op_LogLevel options) std);
                 std2 = lg_AddHook G \<lparr>hk_writers = [(InfoLevel, writer), (WarnLevel, writer), (ErrorLevel, writer),
                          (FatalLevel, writer), (PanicLevel, writer)], hk_format = file_format (op_Format options)\<rparr> std1;
                 (lines, std3) = lg_log G M_Info Plain [''***********This is logrus*************''] std2
             in (Ret (), lines, std3))"

section \<open>The functions the program logs with\<close>

datatype wrapper =
    Trace | Debug | Print | Info | Warn | Warning | Error | Panic | Fatal
  | Tracef | Debugf | Printf | Infof | Warnf | Warningf | Errorf | Panicf | Fatalf
  | Traceln | Debugln | Println | Infoln | Warnln | Warningln | Errorln | Panicln | Fatalln

fun std_call :: "wrapper \<Rightarrow> string \<Rightarrow> std_method \<times> style" where
  "std_call Trace _ = (M_Trace, Plain)"
| "std_call Debug _ = (M_Debug, Plain)"
| "std_call Print _ = (M_Print, Plain)"
| "std_call Info _ = (M_Info, Plain)"
| "std_call Warn _ = (M_Warn, Plain)"
| "std_call Warning _ = (M_Warning, Plain)"
| "std_call Error _ = (M_Error, Plain)"
| "std_call Panic _ = (M_Panic, Plain)"
| "std_call Fatal _ = (M_Fatal, Plain)"
| "std_call Tracef f = (M_Trace, Formatted f)"
| "std_call Debugf f = (M_Debug, Formatted f)"
| "std_call Printf f = (M_Print, Formatted f)"
| "std_call Infof f = (M_Info, Formatted f)"
| "std_call Warnf f = (M_Warn, Formatted f)"
| "std_call Warningf f = (M_Warning, Formatted f)"
| "std_call Errorf f = (M_Error, Formatted f)"
| "std_call Panicf f = (M_Panic, Formatted f)"
| "std_call Fatalf f = (M_Fatal, Formatted f)"
| "std_call Traceln _ = (M_Trace, Ln)"
| "std_call Debugln _ = (M_Debug, Ln)"
| "std_call Println _ = (M_Print, Ln)"
| "std_call Infoln _ = (M_Info, Ln)"
| "std_call Warnln _ = (M_Warn, Ln)"
| "std_call Warningln _ = (M_Warning, Ln)"
| "std_call Errorln _ = (M_Error, Ln)"
| "std_call Panicln _ = (M_Panic, Ln)"
| "std_call Fatalln _ = (M_Fatal, Ln)"

definition log_with :: "('g, 'w) log_lib \<Rightarrow> wrapper \<Rightarrow> string \<Rightarrow> string list \<Rightarrow> 'g \<Rightarrow> ('w \<times> formatter \<times> string list) list \<times> 'g" where
  "log_with G w f args std = (let (m, sty) = std_call w f in lg_log G m sty args std)"

text \<open>
  The functions that build an entry before anything is logged: the call each makes on the standard
  logger; \<open>errorKey\<close> is the name the library gives to errors, and a value is of any type \<open>'v\<close>.
\<close>

datatype 'v entry_call =
    EC_WithField string 'v
  | EC_WithContext 'v
  | EC_WithFields "(string \<times> 'v) list"
  | EC_WithTime int

definition WithError :: "string \<Rightarrow> 'v \<Rightarrow> 'v entry_call" where "WithError errorKey err = EC_WithField errorKey err"
definition WithContext :: "'v \<Rightarrow> 'v entry_call" where "WithContext ctx = EC_WithContext ctx"
definition WithField :: "string \<Rightarrow> 'v \<Rightarrow> 'v entry_call" where "WithField key value = EC_WithField key value"
definition WithFields :: "(string \<times> 'v) list \<Rightarrow> 'v entry_call" where "WithFields fs = (let fie = fs in EC_WithFields fie)"
definition WithTime :: "int \<Rightarrow> 'v entry_call" where "WithTime t = EC_WithTime t"

section \<open>Documented behaviour of the library\<close>

fun level_of :: "std_method \<Rightarrow> level" where
  "level_of M_Trace = TraceLevel"
| "level_of M_Debug = DebugLevel"
| "level_of M_Print = InfoLevel"
| "level_of M_Info = InfoLevel"
| "level_of M_Warn = WarnLevel"
| "level_of M_Warning = WarnLevel"
| "level_of M_Error = ErrorLevel"
| "level_of M_Panic = PanicLevel"
| "level_of M_Fatal = FatalLevel"

fun severity :: "level \<Rightarrow> nat" where
  "severity PanicLevel = 0"
| "severity FatalLevel = 1"
| "severity ErrorLevel = 2"
| "severity WarnLevel = 3"
| "severity InfoLevel = 4"
| "severity DebugLevel = 5"
| "severity TraceLevel = 6"

definition enabled :: "level \<Rightarrow> level \<Rightarrow> bool" where
  "enabled l threshold \<longleftrightarrow> severity l \<le> severity threshold"

definition hook_lines :: "level \<Rightarrow> string list \<Rightarrow> 'w hook \<Rightarrow> ('w \<times> formatter \<times> string list) list" where
  "hook_lines l args h = (case map_of (hk_writers h) l of None \<Rightarrow> [] | Some w \<Rightarrow> [(w, hk_format h, args)])"

text \<open>\<open>lev\<close> and \<open>hooks\<close> read the threshold and the hooks of a logger: a line of an enabled level goes to every
  hook, in the order they were added, and logging changes neither.\<close>

definition log_laws :: "('g, 'w) log_lib \<Rightarrow> ('g \<Rightarrow> level) \<Rightarrow> ('g \<Rightarrow> 'w hook list) \<Rightarrow> bool" where
  "log_laws G lev hooks \<longleftrightarrow>
     (\<forall>l g. lev (lg_SetLevel G l g) = l \<and> hooks (lg_SetLevel G l g) = hooks g)
     \<and> (\<forall>h g. lev (lg_AddHook G h g) = lev g \<and> hooks (lg_AddHook G h g) = hooks g @ [h])
     \<and> (\<forall>m sty args g. lev (snd (lg_log G m sty args g)) = lev g \<and> hooks (snd (lg_log G m sty args g)) = hooks g)
     \<and> (\<forall>m sty args g. fst (lg_log G m sty args g) =
          (if enabled (level_of m) (lev g) then concat (map (hook_lines (level_of m) args) (hooks g)) else []))"

section \<open>Which lines reach the file\<close>

lemma Init_state:
  assumes "log_laws G lev hooks" and "logger_Init G settings g = (Ret (), g1)" and "st_Filename settings \<noteq> ''''"
    and "lv = (if st_Level settings = '''' then ''debug'' else st_Level settings)" and "lg_ParseLevel G lv = Inr l"
  shows "\<exists>w. hooks g1 = hooks g @ [\<lparr>hk_writers = [(DebugLevel, w), (InfoLevel, w), (WarnLevel, w), (ErrorLevel, w)],
      hk_format = file_format (st_Format settings)\<rparr>] \<and> lev g1 = l
    \<and> lg_rotate G (st_Filename settings @ ''.%Y%m%d'') (st_Filename settings) 24
        (if st_RollingDays settings = 0 then 7 else st_RollingDays settings) = Inr w"
  using assms(2,3) assms(5) [unfolded assms(4)] assms(1)
  by (auto simp: logger_Init_def Let_def log_laws_def split: sum.splits)

lemma Daily_state:
  assumes "log_laws G lev hooks" and "InitDailyRolling G join d n opts g = (Ret (), lines, g1)"
    and "options = fold (\<lambda>opt o'. opt o') opts \<lparr>op_Format = ''text'', op_RotationCount = 7, op_LogLevel = ''debug''\<rparr>"
    and "lg_ParseLevel G (op_LogLevel options) = Inr l"
  shows "\<exists>w. hooks g1 = hooks g @ [\<lparr>hk_writers = [(InfoLevel, w), (WarnLevel, w), (ErrorLevel, w), (FatalLevel, w), (PanicLevel, w)],
      hk_format = file_format (op_Format options)\<rparr>] \<and> lev g1 = l
    \<and> lg_rotate G (join d n @ ''.%Y%m%d'') (join d n) 24 (op_RotationCount options) = Inr w"
proof -
  let ?w = "lg_rotate G (join d n @ ''.%Y%m%d'') (join d n) 24 (op_RotationCount options)"
  obtain w where w: "?w = Inr w" using assms(2) by (cases ?w) (simp_all add: InitDailyRolling_def Let_def assms(3) [symmetric])
  let ?h = "\<lparr>hk_writers = [(InfoLevel, w), (WarnLevel, w), (ErrorLevel, w), (FatalLevel, w), (PanicLevel, w)], hk_format = file_format (op_Format options)\<rparr>"
  have "g1 = snd (lg_log G M_Info Plain [''***********This is logrus*************''] (lg_AddHook G ?h (lg_SetLevel G l g)))"
    using assms(2,4) w by (simp add: InitDailyRolling_def Let_def assms(3) [symmetric] SetLevel_def split_beta)
  then show ?thesis using assms(1) w by (simp add: log_laws_def)
qed


section \<open>An example\<close>

definition demo_log :: "(level \<times> string hook list, string) log_lib" where
  "demo_log = \<lparr>lg_ParseLevel = (\<lambda>s. if s = ''debug'' then Inr DebugLevel else if s = ''trace'' then Inr TraceLevel else Inl (ErrExt s)),
     lg_SetLevel = (\<lambda>l g. (l, snd g)), lg_AddHook = (\<lambda>h g. (fst g, snd g @ [h])),
     lg_log = (\<lambda>m sty args g. (if enabled (level_of m) (fst g) then concat (map (hook_lines (level_of m) args) (snd g)) else [], g)),
     lg_rotate = (\<lambda>pattern link hours count. Inr link)\<rparr>"

lemma demo_log_laws: "log_laws demo_log fst snd"
  by (simp add: log_laws_def demo_log_def)


end
