(* ===== verification/GroupRpc.thy ===== *)
theory GroupRpc
  imports Royal
begin

text \<open>
  The routes of the royal service (\<open>newApp\<close> of \<open>services/service/server.go\<close>) and the group client of
  the chat server (\<open>services/server/service/group.go\<close>) put together: a request of the client runs the
  handler it is meant for, and what comes back is what the handler answered.  A route matches a path
  segment by segment, as the documentation of iris has it; a segment that begins with a colon takes
  any non-empty text.  The encodings of the bodies are a parameter.
\<close>

section \<open>The table of routes\<close>

datatype royal_handler =
    H_Health | H_InsertUserMessage | H_InsertGroupMessage | H_MessageAck
  | H_GroupGet | H_GroupCreate | H_GroupJoin | H_GroupQuit | H_GroupMembers
  | H_OfflineIndex | H_OfflineContent

type_synonym route = "string \<times> string \<times> royal_handler"

text \<open>A party is a common prefix, which gets its leading slash when it has none.\<close>

definition party :: "string \<Rightarrow> (string \<times> string \<times> royal_handler) list \<Rightarrow> route list" where
  "party pre routes =
     map (\<lambda>(verb, p, h). (verb, (if take 1 pre = ''/'' then pre else CHR ''/'' # pre) @ p, h)) routes"

definition newApp :: "route list" where
  "newApp =
     [(''GET'', ''/health'', H_Health)]
     @ party ''api/:app/message''
         [(''POST'', ''/user'', H_InsertUserMessage), (''POST'', ''/group'', H_InsertGroupMessage), (''POST'', ''/ack'', H_MessageAck)]
     @ party ''/api/:app/group''
         [(''GET'', ''/:id'', H_GroupGet), (''POST'', '''', H_GroupCreate), (''POST'', ''/member'', H_GroupJoin),
          (''DELETE'', ''/member'', H_GroupQuit), (''GET'', ''/members/:id'', H_GroupMembers)]
     @ party ''/api/:app/offline''
         [(''POST'', ''/index'', H_OfflineIndex), (''POST'', ''/content'', H_OfflineContent)]"

fun match_segments :: "string list \<Rightarrow> string list \<Rightarrow> (string \<times> string) list option" where
  "match_segments [] [] = Some []"
| "match_segments (p # ps) (x # xs) =
     (if take 1 p = '':'' then (if x = '''' then None else map_option ((#) (tl p, x)) (match_segments ps xs))
      else if p = x then match_segments ps xs else None)"
| "match_segments _ _ = None"

fun first_route ::
    "string \<Rightarrow> string list \<Rightarrow> route list \<Rightarrow> (royal_handler \<times> (string \<times> string) list) option" where
  "first_route verb segments [] = None"
| "first_route verb segments ((m, p, h) # routes) =
     (if m = verb
      then case match_segments (go_split CHR ''/'' p) segments of
             Some params \<Rightarrow> Some (h, params)
           | None \<Rightarrow> first_route verb segments routes
      else first_route verb segments routes)"

definition find_route :: "string \<Rightarrow> string \<Rightarrow> (royal_handler \<times> (string \<times> string) list) option" where
  "find_route verb path = first_route verb (go_split CHR ''/'' path) newApp"

section \<open>Paths of the client\<close>

lemma split_path:
  assumes "CHR ''/'' \<notin> set app"
  shows "go_split CHR ''/'' (''/api/'' @ app @ ''/group'') = ['''', ''api'', app, ''group'']"
    and "go_split CHR ''/'' (''/api/'' @ app @ ''/group/member'') = ['''', ''api'', app, ''group'', ''member'']"
    and "CHR ''/'' \<notin> set grp \<Longrightarrow> go_split CHR ''/'' (''/api/'' @ app @ ''/group/'' @ grp) = ['''', ''api'', app, ''group'', grp]"
    and "CHR ''/'' \<notin> set grp \<Longrightarrow>
      go_split CHR ''/'' (''/api/'' @ app @ ''/group/members/'' @ grp) = ['''', ''api'', app, ''group'', ''members'', grp]"
proof -
  have api: "go_split CHR ''/'' (''/api/'' @ app @ CHR ''/'' # rest) = '''' # ''api'' # app # go_split CHR ''/'' rest" for rest
    using assms by (simp add: go_split_append)
  show "go_split CHR ''/'' (''/api/'' @ app @ ''/group'') = ['''', ''api'', app, ''group'']"
    "go_split CHR ''/'' (''/api/'' @ app @ ''/group/member'') = ['''', ''api'', app, ''group'', ''member'']"
    using api [of "''group''"] api [of "''group/member''"] by simp_all
  show "CHR ''/'' \<notin> set grp \<Longrightarrow> go_split CHR ''/'' (''/api/'' @ app @ ''/group/'' @ grp) = ['''', ''api'', app, ''group'', grp]"
    using api [of "''group/'' @ grp"] by (simp add: go_split_no_sep)
  show "CHR ''/'' \<notin> set grp \<Longrightarrow>
      go_split CHR ''/'' (''/api/'' @ app @ ''/group/members/'' @ grp) = ['''', ''api'', app, ''group'', ''members'', grp]"
    using api [of "''group/members/'' @ grp"] by (simp add: go_split_no_sep)
qed

lemma group_routes:
  assumes "CHR ''/'' \<notin> set app" "app \<noteq> ''''"
  shows "find_route ''POST'' (''/api/'' @ app @ ''/group'') = Some (H_GroupCreate, [(''app'', app)])"
    and "find_route ''POST'' (''/api/'' @ app @ ''/group/member'') = Some (H_GroupJoin, [(''app'', app)])"
    and "find_route ''DELETE'' (''/api/'' @ app @ ''/group/member'') = Some (H_GroupQuit, [(''app'', app)])"
    and "CHR ''/'' \<notin> set grp \<Longrightarrow> grp \<noteq> '''' \<Longrightarrow>
      find_route ''GET'' (''/api/'' @ app @ ''/group/'' @ grp) = Some (H_GroupGet, [(''app'', app), (''id'', grp)])"
    and "CHR ''/'' \<notin> set grp \<Longrightarrow> grp \<noteq> '''' \<Longrightarrow>
      find_route ''GET'' (''/api/'' @ app @ ''/group/members/'' @ grp) = Some (H_GroupMembers, [(''app'', app), (''id'', grp)])"
  using assms(2)
  by (simp_all only: find_route_def split_path [OF assms(1)] not_False_eq_True) (simp_all add: newApp_def party_def)

section \<open>The server's end\<close>

text \<open>How \<open>ReadBody\<close> decodes the requests and \<open>Negotiate\<close> encodes the answers.\<close>

record body_codec =
  bc_create :: "bytes \<Rightarrow> error + create_group"
  bc_join :: "bytes \<Rightarrow> error + string \<times> string"
  bc_quit :: "bytes \<Rightarrow> error + (string \<times> string) option"
  bc_gid :: "string \<Rightarrow> bytes"
  bc_group :: "get_group_resp \<Rightarrow> bytes"
  bc_members :: "(string \<times> string \<times> int) list \<Rightarrow> bytes"

text \<open>What goes over the wire; the recover middleware of \<open>iris.Default\<close> makes 500 of a panic.\<close>

definition http_answer :: "('a \<Rightarrow> bytes) \<Rightarrow> 'a http go \<Rightarrow> int \<times> bytes" where
  "http_answer enc r =
     (case r of
        Ret (Negotiate v) \<Rightarrow> (200, enc v)
      | Ret (Stop code why) \<Rightarrow> (code, to_bytes why)
      | Ret Silent \<Rightarrow> (200, [])
      | _ \<Rightarrow> (500, []))"

definition param :: "string \<Rightarrow> (string \<times> string) list \<Rightarrow> string" where
  "param name params = (case map_of params name of Some v \<Rightarrow> v | None \<Rightarrow> '''')"

definition for_app :: "string \<Rightarrow> error + create_group \<Rightarrow> error + create_group" where
  "for_app app body = map_sum (\<lambda>e. e) (\<lambda>req. req\<lparr>cg_App := app\<rparr>) body"

text \<open>The answer of the group routes in a state of the service; \<open>None\<close> for a route that is not theirs.\<close>

definition serve_group ::
    "'d db \<Rightarrow> ('g \<Rightarrow> int \<times> 'g) \<Rightarrow> (int \<Rightarrow> string) \<Rightarrow> (string \<Rightarrow> error + int) \<Rightarrow> body_codec \<Rightarrow> 'g \<times> 'd
       \<Rightarrow> string \<Rightarrow> string \<Rightarrow> bytes \<Rightarrow> (int \<times> bytes) option" where
  "serve_group B gen base32 parse36 K s verb path body =
     (case find_route verb path of
        None \<Rightarrow> Some (404, [])
      | Some (h, params) \<Rightarrow>
          (case h of
             H_GroupCreate \<Rightarrow> Some (http_answer (bc_gid K)
               (Ret (fst (GroupCreate B gen base32 (for_app (param ''app'' params) (bc_create K body)) s))))
           | H_GroupGet \<Rightarrow> Some (http_answer (bc_group K) (Ret (GroupGet B parse36 (param ''id'' params) (snd s))))
           | H_GroupJoin \<Rightarrow> Some (http_answer (\<lambda>_. []) (Ret (fst (GroupJoin B gen (bc_join K body) s))))
           | H_GroupQuit \<Rightarrow> Some (http_answer (\<lambda>_. []) (fst (GroupQuit B (bc_quit K body) (snd s))))
           | H_GroupMembers \<Rightarrow> Some (http_answer (bc_members K) (GroupMembers B (param ''id'' params) (snd s)))
           | _ \<Rightarrow> None))"

definition rpc_request :: "string \<Rightarrow> (string \<Rightarrow> string \<Rightarrow> bytes \<Rightarrow> (int \<times> bytes) option) \<Rightarrow> http_client" where
  "rpc_request url reply verb full body =
     (if take (length url) full = url
      then case reply verb (drop (length url) full) body of
             Some r \<Rightarrow> Inr r
           | None \<Rightarrow> Inl (ErrExt ''not a group route'')
      else Inl (ErrExt ''no such host''))"

section \<open>Client and server together\<close>

text \<open>What a call returns to the caller when the handler ends with \<open>r\<close>.\<close>

definition remote :: "string \<Rightarrow> 'a \<Rightarrow> 'a http go \<Rightarrow> 'a go" where
  "remote call nothing r =
     (case r of
        Ret (Negotiate v) \<Rightarrow> Ret v
      | Ret (Stop code why) \<Rightarrow> Fail (status_error call code)
      | Ret Silent \<Rightarrow> Ret nothing
      | _ \<Rightarrow> Fail (status_error call 500))"

fun stops_with_error :: "'a http \<Rightarrow> bool" where
  "stops_with_error (Stop code why) \<longleftrightarrow> code \<noteq> 200"
| "stops_with_error (Negotiate v) \<longleftrightarrow> True"
| "stops_with_error Silent \<longleftrightarrow> True"

lemma expect_answer:
  assumes "\<forall>v. dec (enc v) = v" and "\<forall>h. r = Ret h \<longrightarrow> stops_with_error h"
  shows "expect_200 call dec (Inr (http_answer enc r)) = remote call (dec []) r"
  using assms by (auto simp: expect_200_def http_answer_def remote_def split: go.splits http.splits)

lemma handlers_stop:
  "stops_with_error (fst (GroupCreate B gen base32 body s))" "stops_with_error (GroupGet B parse36 grp d)"
  "stops_with_error (fst (GroupJoin B gen join s))"
  "fst (GroupQuit B quit d) = Ret h1 \<Longrightarrow> stops_with_error h1" "GroupMembers B grp d = Ret h2 \<Longrightarrow> stops_with_error h2"
  by (auto simp: GroupCreate_def GroupGet_def GroupJoin_def GroupQuit_def GroupMembers_def StatusBadRequest_def
      StatusInternalServerError_def Let_def split: sum.splits prod.splits option.splits if_splits)

definition codec_matches ::
    "body_codec \<Rightarrow> (bytes \<Rightarrow> string) \<Rightarrow> (bytes \<Rightarrow> get_group_resp) \<Rightarrow> (bytes \<Rightarrow> (string \<times> string \<times> int) list) \<Rightarrow> bool" where
  "codec_matches K gid grp members \<longleftrightarrow>
     (\<forall>v. gid (bc_gid K v) = v) \<and> (\<forall>v. grp (bc_group K v) = v) \<and> (\<forall>v. members (bc_members K v) = v)"


text \<open>A codec for examples: texts one after another, a time in unary with its sign.\<close>

definition unary :: "int \<Rightarrow> string" where
  "unary i = (if i < 0 then CHR ''-'' else CHR ''+'') # replicate (nat \<bar>i\<bar>) CHR ''1''"

definition of_unary :: "string \<Rightarrow> int" where
  "of_unary s = (if hd s = CHR ''-'' then - int (length s - 1) else int (length s - 1))"

lemma of_unary [simp]: "of_unary (unary i) = i"
  by (simp add: of_unary_def unary_def)

fun of_six :: "string list \<Rightarrow> get_group_resp" where
  "of_six [i, n, a, t, w, c] = \<lparr>gg_Id = i, gg_Name = n, gg_Avatar = a, gg_Introduction = t, gg_Owner = w, gg_CreatedAt = of_unary c\<rparr>"
| "of_six _ = \<lparr>gg_Id = '''', gg_Name = '''', gg_Avatar = '''', gg_Introduction = '''', gg_Owner = '''', gg_CreatedAt = 0\<rparr>"

fun of_threes :: "string list \<Rightarrow> (string \<times> string \<times> int) list" where
  "of_threes (a # b # c # r) = (a, b, of_unary c) # of_threes r"
| "of_threes _ = []"

definition demo_bodies :: body_codec where
  "demo_bodies = \<lparr>bc_create = (\<lambda>_. Inr \<lparr>cg_App = '''', cg_Name = ''friends'', cg_Avatar = '''', cg_Owner = ''ann'',
       cg_Introduction = '''', cg_Members = [''ann'', ''bob'']\<rparr>),
     bc_join = (\<lambda>_. Inr (''bob'', ''g1'')), bc_quit = (\<lambda>_. Inr (Some (''bob'', ''g1''))),
     bc_gid = to_bytes,
     bc_group = (\<lambda>g. concat (map enc_str [gg_Id g, gg_Name g, gg_Avatar g, gg_Introduction g, gg_Owner g, unary (gg_CreatedAt g)])),
     bc_members = (\<lambda>ms. concat (map enc_str (concat (map (\<lambda>(a, b, c). [a, b, unary c]) ms))))\<rparr>"

lemma of_threes_concat: "of_threes (concat (map (\<lambda>(a, b, c). [a, b, unary c]) ms)) = ms"
  by (induction ms) auto

lemma demo_bodies_match:
  "codec_matches demo_bodies of_bytes (\<lambda>bs. of_six (dec_strs bs [])) (\<lambda>bs. of_threes (dec_strs bs []))"
proof -
  have "of_six (dec_strs (concat (map enc_str [gg_Id g, gg_Name g, gg_Avatar g, gg_Introduction g, gg_Owner g, unary (gg_CreatedAt g)])) []) = g"
    for g by (simp only: dec_strs_all) simp
  then show ?thesis
    by (simp only: codec_matches_def demo_bodies_def body_codec.simps dec_strs_all of_threes_concat) simp
qed


text \<open>A group that has members cannot be listed from the chat server.\<close>

lemma members_rpc_fails:
  assumes "CHR ''/'' \<notin> set app" "app \<noteq> ''''" "CHR ''/'' \<notin> set grp" "grp \<noteq> ''''" "db_Members B grp (snd s) = Inr (m # ms)"
    and "codec_matches K gid group_of members"
  shows "GroupHttp_Members (rpc_request url (serve_group B gen base32 parse36 K s)) url members app grp =
    Fail (status_error ''Members'' 500)"
proof -
  have "GroupMembers B grp (snd s) = Panics ''index out of range''"
    using assms(4,5) by (simp add: GroupMembers_def)
  then have "http_answer (bc_members K) (GroupMembers B grp (snd s)) = (500, [])" by (simp add: http_answer_def)
  moreover have "find_route ''GET'' (''/api/'' @ app @ ''/group/members/'' @ grp) = Some (H_GroupMembers, [(''app'', app), (''id'', grp)])"
    by (rule group_routes(5) [OF assms(1,2,3,4)])
  ultimately show ?thesis
    by (simp add: GroupHttp_Members_def rpc_request_def serve_group_def param_def expect_200_def)
qed

end
