(* ===== verification/GroupClient.thy ===== *)
theory GroupClient
  imports GroupRpc Channel
begin

text \<open>
  The construction of the group client (\<open>services/server/service/group.go\<close>) and what its setting to retry
  means for calls that change something.  \<open>resty\<close> is outside the repository; \<open>resty_execute\<close> is its
  documented behaviour: a request without an answer is sent again, as often as the retry count says.
\<close>

section \<open>The client\<close>

record resty_client =
  ry_RetryCount :: nat
  ry_Timeout :: int
  ry_Header :: "(string \<times> string) list"
  ry_Scheme :: string

record group_http =
  gh_url :: string
  gh_cli :: resty_client
  gh_srv :: "(string \<times> string) option"  \<comment> \<open>service and domain of an SRV record\<close>

definition NewGroupService :: "string \<Rightarrow> group_http" where
  "NewGroupService url =
     \<lparr>gh_url = url,
      gh_cli = \<lparr>ry_RetryCount = 3, ry_Timeout = second * 5,
                ry_Header = [(''Content-Type'', ''application/x-protobuf''), (''Accept'', ''application/x-protobuf'')],
                ry_Scheme = ''http''\<rparr>,
      gh_srv = None\<rparr>"

text \<open>The scheme the caller asks for is not used.\<close>

definition NewGroupServiceWithSRV :: "string \<Rightarrow> string \<times> string \<Rightarrow> group_http" where
  "NewGroupServiceWithSRV scheme srv =
     \<lparr>gh_url = '''',
      gh_cli = \<lparr>ry_RetryCount = 3, ry_Timeout = second * 5,
                ry_Header = [(''Content-Type'', ''application/x-protobuf''), (''Accept'', ''application/x-protobuf'')],
                ry_Scheme = ''http''\<rparr>,
      gh_srv = Some srv\<rparr>"

text \<open>A request: the client it is made of and the record it is resolved by.\<close>

definition group_Req :: "group_http \<Rightarrow> resty_client \<times> (string \<times> string) option" where
  "group_Req g = (case gh_srv g of None \<Rightarrow> (gh_cli g, None) | Some s \<Rightarrow> (gh_cli g, Some s))"

lemma group_Req_eq: "group_Req g = (gh_cli g, gh_srv g)"
  by (simp add: group_Req_def split: option.split)

lemma scheme_ignored: "NewGroupServiceWithSRV s srv = NewGroupServiceWithSRV t srv"
  by (simp add: NewGroupServiceWithSRV_def)

section \<open>Sending again\<close>

text \<open>\<open>serve\<close> is the server, \<open>lost\<close> says of one attempt after the other whether its answer is lost; when all
  attempts are used up the caller gets an error.\<close>

primrec resty_execute :: "nat \<Rightarrow> ('s \<Rightarrow> (int \<times> bytes) \<times> 's) \<Rightarrow> bool list \<Rightarrow> 's \<Rightarrow> (error + int \<times> bytes) \<times> 's" where
  "resty_execute 0 serve lost s =
     (if lost \<noteq> [] \<and> hd lost then (Inl (ErrExt ''timeout''), snd (serve s)) else (Inr (fst (serve s)), snd (serve s)))"
| "resty_execute (Suc n) serve lost s =
     (if lost \<noteq> [] \<and> hd lost then resty_execute n serve (tl lost) (snd (serve s)) else (Inr (fst (serve s)), snd (serve s)))"

definition lost_first :: "bool list \<Rightarrow> nat" where
  "lost_first lost = length (takeWhile (\<lambda>b. b) lost)"

lemma lost_first_Cons: "lost \<noteq> [] \<Longrightarrow> hd lost \<Longrightarrow> lost_first lost = Suc (lost_first (tl lost))"
  by (cases lost) (simp_all add: lost_first_def)

lemma lost_first_0: "\<not> (lost \<noteq> [] \<and> hd lost) \<Longrightarrow> lost_first lost = 0"
  by (cases lost) (simp_all add: lost_first_def)

lemma resty_execute_times:
  "resty_execute n serve lost s =
     (let k = lost_first lost; run = (\<lambda>s. snd (serve s))
      in if k \<le> n then (Inr (fst (serve ((run ^^ k) s))), (run ^^ Suc k) s)
         else (Inl (ErrExt ''timeout''), (run ^^ Suc n) s))"
proof (induction n arbitrary: lost s)
  case 0
  show ?case
  proof (cases "lost \<noteq> [] \<and> hd lost")
    case True
    then show ?thesis using lost_first_Cons [of lost] by (simp add: Let_def)
  next
    case False
    then show ?thesis using lost_first_0 [OF False] by (auto simp add: Let_def)
  qed
next
  case (Suc n)
  show ?case
  proof (cases "lost \<noteq> [] \<and> hd lost")
    case True
    have sw: "((\<lambda>s. snd (serve s)) ^^ k) (snd (serve s)) = snd (serve (((\<lambda>s. snd (serve s)) ^^ k) s))" for k
      by (induction k) simp_all
    show ?thesis using True lost_first_Cons [of lost] Suc [of "tl lost" "snd (serve s)"]
      by (simp add: Let_def sw)
  next
    case False
    then show ?thesis using lost_first_0 [OF False] by (auto simp add: Let_def)
  qed
qed

text \<open>The server's side of a \<open>Create\<close>, with its effect.\<close>

definition serve_create ::
    "'d db \<Rightarrow> ('g \<Rightarrow> int \<times> 'g) \<Rightarrow> (int \<Rightarrow> string) \<Rightarrow> body_codec \<Rightarrow> string \<Rightarrow> bytes \<Rightarrow> 'g \<times> 'd \<Rightarrow> (int \<times> bytes) \<times> 'g \<times> 'd" where
  "serve_create B gen base32 K app body s =
     (let (h, s1) = GroupCreate B gen base32 (for_app app (bc_create K body)) s in (http_answer (bc_gid K) (Ret h), s1))"

text \<open>Creating a group is repeated.  One call of the client's \<open>Create\<close> during which the answers to the first
  \<open>k\<close> attempts are lost runs the handler that creates a group \<open>k + 1\<close> times and returns the last answer
  when \<open>k\<close> is at most three; otherwise the handler has run four times and the caller gets an error.
  This is so for both ways to construct the client.\<close>

lemma create_repeats:
  assumes "g = NewGroupService url \<or> g = NewGroupServiceWithSRV scheme srv"
    and "\<forall>v. gid (bc_gid K v) = v"
    and "resty_execute (ry_RetryCount (fst (group_Req g))) (serve_create B gen base32 K app body) lost s = (response, s')"
    and "create = (\<lambda>s. GroupCreate B gen base32 (for_app app (bc_create K body)) s)"
  shows "if lost_first lost \<le> 3
    then s' = ((\<lambda>s. snd (create s)) ^^ Suc (lost_first lost)) s
      \<and> expect_200 ''Create'' gid response = remote ''Create'' (gid []) (Ret (fst (create (((\<lambda>s. snd (create s)) ^^ lost_first lost) s))))
    else s' = ((\<lambda>s. snd (create s)) ^^ 4) s \<and> (\<exists>e. expect_200 ''Create'' gid response = Fail e)"
proof -
  have n: "ry_RetryCount (fst (group_Req g)) = 3"
    using assms(1) by (auto simp: group_Req_eq NewGroupService_def NewGroupServiceWithSRV_def)
  have serve: "serve_create B gen base32 K app body t = (http_answer (bc_gid K) (Ret (fst (create t))), snd (create t))" for t
    by (simp add: serve_create_def assms(4) split_beta)
  have times: "(response, s') = (if lost_first lost \<le> 3
      then (Inr (http_answer (bc_gid K) (Ret (fst (create (((\<lambda>s. snd (create s)) ^^ lost_first lost) s))))),
        ((\<lambda>s. snd (create s)) ^^ Suc (lost_first lost)) s)
      else (Inl (ErrExt ''timeout''), ((\<lambda>s. snd (create s)) ^^ 4) s))"
    using assms(3) unfolding n resty_execute_times [of 3] Let_def serve fst_conv snd_conv
    by (simp del: funpow.simps split: if_splits)
  show ?thesis
  proof (cases "lost_first lost \<le> 3")
    case True
    let ?t = "((\<lambda>s. snd (create s)) ^^ lost_first lost) s"
    have "response = Inr (http_answer (bc_gid K) (Ret (fst (create ?t))))" "s' = ((\<lambda>s. snd (create s)) ^^ Suc (lost_first lost)) s"
      using times unfolding if_P [OF True] by simp_all
    moreover have "expect_200 ''Create'' gid (Inr (http_answer (bc_gid K) (Ret (fst (create ?t))))) = remote ''Create'' (gid []) (Ret (fst (create ?t)))"
      using assms(2) by (intro expect_answer) (simp_all add: assms(4) handlers_stop)
    ultimately show ?thesis using True by simp
  next
    case False
    have "response = Inl (ErrExt ''timeout'')" "s' = ((\<lambda>s. snd (create s)) ^^ 4) s"
      using times unfolding if_not_P [OF False] by simp_all
    then show ?thesis using False by (simp add: expect_200_def)
  qed
qed


text \<open>The answer to the first attempt is lost: the group is made twice.\<close>

definition demo_retry :: "(error + int \<times> bytes) \<times> nat \<times> message_content list \<times> message_index list" where
  "demo_retry = resty_execute (ry_RetryCount (fst (group_Req (NewGroupService ''http://royal:8080''))))
     (serve_create demo_db (\<lambda>n. (int n, Suc n)) (\<lambda>_. ''g7'') demo_bodies ''kim'' []) [True] (7, [], [])"

lemma demo_create:
  "GroupCreate demo_db (\<lambda>n. (int n, Suc n)) (\<lambda>_. ''g7'') (for_app app (bc_create demo_bodies [])) (n, d) =
     (Negotiate ''g7'', n + 3, d)"
  by (simp add: GroupCreate_def demo_db_def for_app_def demo_bodies_def)

lemma create_repeats_example:
  "fst (snd demo_retry) = 13 \<and> expect_200 ''Create'' of_bytes (fst demo_retry) = Ret ''g7''"
proof -
  obtain response s' where r: "demo_retry = (response, s')" by (cases demo_retry)
  have gid: "\<forall>v. of_bytes (bc_gid demo_bodies v) = v" using demo_bodies_match by (simp add: codec_matches_def)
  have "lost_first [True] = 1" by (simp add: lost_first_def)
  with create_repeats [OF disjI1 [OF refl] gid r [unfolded demo_retry_def] refl] show ?thesis
    by (simp add: r demo_create remote_def)
qed

end
